(* ===== verification/Prelude.thy ===== *)
theory Prelude
  imports Main "HOL-Library.Finite_Map"
begin

text \<open>
  What every other theory of the development shares: the outcome of a Go call
  (a value, a returned \<open>error\<close>, or a run-time panic), the two error constructors of
  \<open>github.com/pkg/errors\<close> the program uses, the loop that stops at the first error, and
  generic facts on lists and finite maps.  Errors that are created outside the repository
  are values of a type variable \<open>'e\<close>: nothing is assumed about them.
\<close>

section \<open>Outcomes of Go calls\<close>

named_theorems result_simps \<open>inversion of outcomes: when a sequence of calls yields a value\<close>

type_synonym bytes = string

datatype panic = NilDereference | IndexOutOfRange | TypeAssertion

datatype 'e error =
    ErrNew string                \<comment> \<open>\<open>errors.New(msg)\<close>\<close>
  | ErrWrap "'e error" string    \<comment> \<open>\<open>errors.Wrap(err, msg)\<close>\<close>
  | ErrExt 'e                    \<comment> \<open>an error made by code outside the repository\<close>

datatype ('a, 'e) result = Ok 'a | Err "'e error" | Panic panic

text \<open>\<open>if err != nil { return err }\<close>: an error or a panic ends the caller.\<close>

primrec try_then :: "('a, 'e) result \<Rightarrow> ('a \<Rightarrow> ('b, 'e) result) \<Rightarrow> ('b, 'e) result" where
  "try_then (Ok a) f = f a"
| "try_then (Err e) f = Err e"
| "try_then (Panic p) f = Panic p"

text \<open>\<open>if err != nil { return errors.Wrap(err, msg) }\<close>\<close>

primrec wrap :: "string \<Rightarrow> ('a, 'e) result \<Rightarrow> ('a, 'e) result" where
  "wrap msg (Ok a) = Ok a"
| "wrap msg (Err e) = Err (ErrWrap e msg)"
| "wrap msg (Panic p) = Panic p"

text \<open>Reading through a pointer; \<open>None\<close> is the nil pointer.\<close>

primrec deref :: "'a option \<Rightarrow> ('a, 'e) result" where
  "deref None = Panic NilDereference"
| "deref (Some a) = Ok a"

text \<open>Indexing a slice with its bounds check.\<close>

definition go_index :: "'a list \<Rightarrow> nat \<Rightarrow> ('a, 'e) result" where
  "go_index xs i = (if i < length xs then Ok (xs ! i) else Panic IndexOutOfRange)"

text \<open>A call that returns only an \<open>error\<close>; \<open>None\<close> is the nil error.\<close>

primrec check_err :: "'e error option \<Rightarrow> (unit, 'e) result" where
  "check_err None = Ok ()"
| "check_err (Some e) = Err e"

text \<open>A \<open>for range\<close> loop whose body may return early.\<close>

primrec for_each :: "('x \<Rightarrow> 's \<Rightarrow> ('s, 'e) result) \<Rightarrow> 'x list \<Rightarrow> 's \<Rightarrow> ('s, 'e) result" where
  "for_each f [] s = Ok s"
| "for_each f (x # xs) s = try_then (f x s) (for_each f xs)"

lemma try_then_Ok_iff [result_simps]:
  "try_then r f = Ok b \<longleftrightarrow> (\<exists>a. r = Ok a \<and> f a = Ok b)"
  by (cases r) auto

lemma try_then_Err_iff [result_simps]:
  "try_then r f = Err e \<longleftrightarrow> r = Err e \<or> (\<exists>a. r = Ok a \<and> f a = Err e)"
  by (cases r) auto

lemma try_then_Panic_iff [result_simps]:
  "try_then r f = Panic p \<longleftrightarrow> r = Panic p \<or> (\<exists>a. r = Ok a \<and> f a = Panic p)"
  by (cases r) auto

lemma wrap_Ok_iff [simp]: "wrap m r = Ok a \<longleftrightarrow> r = Ok a"
  by (cases r) auto

lemma wrap_Err_iff [result_simps]: "wrap m r = Err e \<longleftrightarrow> (\<exists>e'. r = Err e' \<and> e = ErrWrap e' m)"
  by (cases r) auto

lemma wrap_Panic_iff [simp]: "wrap m r = Panic p \<longleftrightarrow> r = Panic p"
  by (cases r) auto

lemma deref_Ok_iff [simp]: "deref p = Ok a \<longleftrightarrow> p = Some a"
  by (cases p) auto

lemma deref_not_Err [simp]: "deref p \<noteq> Err e"
  by (cases p) auto

lemma deref_Panic_iff [simp]: "deref p = Panic x \<longleftrightarrow> p = None \<and> x = NilDereference"
  by (cases p) auto

lemma check_err_Ok_iff [simp]: "check_err e = Ok u \<longleftrightarrow> e = None"
  by (cases e) auto

lemma check_err_Err_iff [simp]: "check_err e = Err x \<longleftrightarrow> e = Some x"
  by (cases e) auto

lemma check_err_not_Panic [simp]: "check_err e \<noteq> Panic x"
  by (cases e) auto

lemma try_then_assoc: "try_then (try_then r f) g = try_then r (\<lambda>a. try_then (f a) g)"
  by (cases r) auto

lemma try_then_cong [fundef_cong]:
  "r = r' \<Longrightarrow> (\<And>a. r' = Ok a \<Longrightarrow> f a = g a) \<Longrightarrow> try_then r f = try_then r' g"
  by (cases r') auto

section \<open>Loops\<close>

lemma for_each_append:
  "for_each f (xs @ ys) s = try_then (for_each f xs s) (for_each f ys)"
  by (induction xs arbitrary: s) (simp_all add: try_then_assoc cong: try_then_cong)

lemma for_each_pure:
  assumes "\<And>x s. x \<in> set xs \<Longrightarrow> f x s = Ok (g x s)"
  shows "for_each f xs s = Ok (fold g xs s)"
  using assms by (induction xs arbitrary: s) auto

lemma for_each_invariant:
  assumes "for_each f xs s = Ok t" "I s"
    and "\<And>x s t. x \<in> set xs \<Longrightarrow> I s \<Longrightarrow> f x s = Ok t \<Longrightarrow> I t"
  shows "I t"
  using assms by (induction xs arbitrary: s) (auto simp: result_simps)

text \<open>The error of a loop is that of the first element whose body does not return.\<close>

lemma for_each_Err_iff:
  assumes "\<And>x s. f x s = try_then (c x) (\<lambda>v. Ok (g x v s))"
  shows "for_each f xs s = Err e \<longleftrightarrow>
    (\<exists>x. find (\<lambda>x. \<forall>v. c x \<noteq> Ok v) xs = Some x \<and> c x = Err e)"
proof (induction xs arbitrary: s)
  case Nil
  then show ?case by simp
next
  case (Cons x xs)
  then show ?case by (cases "c x") (auto simp: assms)
qed

section \<open>Calls that change the outside world\<close>

text \<open>A call that takes the state of the world and leaves a new one, whatever its outcome.\<close>

type_synonym ('w, 'a, 'e) action = "'w \<Rightarrow> ('a, 'e) result \<times> 'w"

definition pure :: "('a, 'e) result \<Rightarrow> ('w, 'a, 'e) action" where
  "pure r w = (r, w)"

definition and_then ::
  "('w, 'a, 'e) action \<Rightarrow> ('a \<Rightarrow> ('w, 'b, 'e) action) \<Rightarrow> ('w, 'b, 'e) action" where
  "and_then m f w = (case m w of
      (Ok a, w') \<Rightarrow> f a w' | (Err e, w') \<Rightarrow> (Err e, w') | (Panic p, w') \<Rightarrow> (Panic p, w'))"

lemma and_then_pure [simp]:
  "and_then (pure r) f w =
     (case r of Ok a \<Rightarrow> f a w | Err e \<Rightarrow> (Err e, w) | Panic p \<Rightarrow> (Panic p, w))"
  by (simp add: and_then_def pure_def)

lemma pure_apply [simp]: "pure r w = (r, w)"
  by (simp add: pure_def)

section \<open>Lists and finite maps\<close>

lemma find_append:
  "find P (xs @ ys) = (case find P xs of None \<Rightarrow> find P ys | Some x \<Rightarrow> Some x)"
  by (induction xs) auto

lemma find_SomeD: "find P xs = Some x \<Longrightarrow> x \<in> set xs \<and> P x"
  by (induction xs) (auto split: if_splits)

text \<open>A loop that appends one element per step.\<close>

lemma fold_snoc: "fold (\<lambda>p acc. acc @ [f p]) ps acc = acc @ map f ps"
  by (induction ps arbitrary: acc) simp_all

lemma nth_length_minus_2:
  "xs = ys @ [a, b] \<Longrightarrow> xs ! (length xs - 2) = a \<and> xs ! (length xs - Suc 0) = b"
  by (simp add: nth_append)

lemma two_or_more_last:
  assumes "1 < length xs"
  obtains ys a b where "xs = ys @ [a, b]"
proof -
  from assms obtain zs b where "xs = zs @ [b]" by (cases xs rule: rev_cases) auto
  moreover with assms obtain ys a where "zs = ys @ [a]" by (cases zs rule: rev_cases) auto
  ultimately show thesis using that by simp
qed

lemma fmlookup_Some_nonempty: "fmlookup m k = Some v \<Longrightarrow> 0 < fcard (fmdom m)"
  by (metis card_gt_0_iff emptyE fcard.rep_eq finite_fset fmdomI)

lemma fcard_fmdom_fmempty [simp]: "fcard (fmdom fmempty) = 0"
  by simp

end
