(* ===== verification/Gnmi.thy ===== *)
theory Gnmi
  imports Prelude "HOL-Library.Word"
begin

text \<open>
  The gNMI messages the program builds and reads, as the generated Go types of
  \<open>github.com/openconfig/gnmi/proto/gnmi\<close> present them: a message is a record, a pointer to a
  message an \<open>option\<close> (\<open>None\<close> is nil), a repeated field a list, a map field a finite map.
  The \<open>Get...\<close> functions are the generated getters, which answer the zero value on a nil receiver.
\<close>

section \<open>Paths and values\<close>

record path_elem =
  pe_Name :: string
  pe_Key :: "(string, string) fmap"

record gnmi_path =
  p_Origin :: string
  p_Elem :: "path_elem option list"
  p_Target :: string

definition empty_path :: gnmi_path where
  "empty_path = \<lparr>p_Origin = [], p_Elem = [], p_Target = []\<rparr>"

text \<open>The members of the \<open>TypedValue\<close> oneof; floating-point members by their IEEE bits.\<close>

datatype typed_value =
    StringVal string
  | IntVal "64 word"
  | UintVal "64 word"
  | BoolVal bool
  | BytesVal bytes
  | FloatVal "32 word"
  | DoubleVal "64 word"
  | DecimalVal "64 word" "32 word"
  | LeaflistVal "typed_value list"
  | AnyVal bytes
  | JsonVal bytes
  | JsonIetfVal bytes
  | AsciiVal string
  | ProtoBytes bytes

record gnmi_update =
  u_Path :: "gnmi_path option"
  u_Val :: "typed_value option"

record notification =
  n_Timestamp :: int
  n_Update :: "gnmi_update option list"
  n_Delete :: "gnmi_path option list"

section \<open>Requests and responses\<close>

datatype encoding = JSON | BYTES | PROTO | ASCII | JSON_IETF

record get_request =
  gr_Prefix :: "gnmi_path option"
  gr_Path :: "gnmi_path option list"
  gr_Encoding :: encoding

record get_response =
  rsp_Notification :: "notification option list"

record set_request =
  sr_Prefix :: "gnmi_path option"
  sr_Delete :: "gnmi_path option list"
  sr_Replace :: "gnmi_update option list"
  sr_Update :: "gnmi_update option list"

datatype grpc_code =
    OK | Canceled | Unknown | InvalidArgument | DeadlineExceeded | NotFound | AlreadyExists
  | PermissionDenied | ResourceExhausted | FailedPrecondition | Aborted | OutOfRange
  | Unimplemented | Internal | Unavailable | DataLoss | Unauthenticated

section \<open>Getters\<close>

primrec GetElem :: "gnmi_path option \<Rightarrow> path_elem option list" where
  "GetElem None = []"
| "GetElem (Some p) = p_Elem p"

primrec GetKey :: "path_elem option \<Rightarrow> (string, string) fmap" where
  "GetKey None = fmempty"
| "GetKey (Some e) = pe_Key e"

primrec GetName :: "path_elem option \<Rightarrow> string" where
  "GetName None = []"
| "GetName (Some e) = pe_Name e"

primrec GetPath :: "gnmi_update option \<Rightarrow> gnmi_path option" where
  "GetPath None = None"
| "GetPath (Some u) = u_Path u"

primrec GetVal :: "gnmi_update option \<Rightarrow> typed_value option" where
  "GetVal None = None"
| "GetVal (Some u) = u_Val u"

primrec GetUpdate :: "notification option \<Rightarrow> gnmi_update option list" where
  "GetUpdate None = []"
| "GetUpdate (Some n) = n_Update n"

primrec GetNotification :: "get_response option \<Rightarrow> notification option list" where
  "GetNotification None = []"
| "GetNotification (Some r) = rsp_Notification r"

fun GetStringVal :: "typed_value option \<Rightarrow> string" where
  "GetStringVal (Some (StringVal s)) = s"
| "GetStringVal _ = []"

end
