(* ===== verification/Json.thy ===== *)
theory Json
  imports Prelude "HOL-Library.Word" "HOL-Library.Char_ord" "HOL-Library.List_Lexorder"
    "HOL-Library.Multiset"
begin

text \<open>
  What the program uses of Go's \<open>encoding/json\<close>: \<open>json.Marshal\<close> of an \<open>interface{}\<close> that came out
  of a gNMI value, and the compaction \<open>json.Marshal\<close> applies to the bytes a \<open>MarshalJSON\<close> method
  returns (which is how a \<open>runtime.RawExtension\<close> is marshalled).  Strings are byte lists.
\<close>

section \<open>Dynamic values\<close>

text \<open>
  A finite float is given by its sign, its shortest decimal digits \<open>d1 d2 ...\<close> (none for zero) and
  the position \<open>p\<close> of the decimal point: the value is \<open>0.d1d2... * 10^p\<close>.
\<close>

datatype go_float = FNaN | FInf bool | FFin bool "nat list" int

text \<open>A Go map is an association list with distinct keys, in the order of one iteration.\<close>

datatype goval =
    GNil
  | GBool bool
  | GInt "64 word"
  | GUint "64 word"
  | GFloat go_float
  | GString string
  | GBytes bytes
  | GSlice "goval list"
  | GMap "(string \<times> goval) list"

section \<open>Scalars\<close>

definition digit :: "nat \<Rightarrow> char" where
  "digit n = char_of (48 + n)"

fun dec_nat :: "nat \<Rightarrow> string" where
  "dec_nat n = (if n < 10 then [digit n] else dec_nat (n div 10) @ [digit (n mod 10)])"

declare dec_nat.simps [simp del]

definition dec_int :: "int \<Rightarrow> string" where
  "dec_int i = (if i < 0 then CHR ''-'' # dec_nat (nat (- i)) else dec_nat (nat i))"

definition hex_digit :: "nat \<Rightarrow> char" where
  "hex_digit n = (if n < 10 then char_of (48 + n) else char_of (87 + n))"

definition float_f :: "nat list \<Rightarrow> int \<Rightarrow> string" where
  "float_f ds p =
     (let int_part = (if 0 < p then map digit (take (nat p) ds) @ replicate (nat p - length ds) (CHR ''0'')
                      else ''0'');
          frac = (if p < 0 then replicate (nat (- p)) (CHR ''0'') @ map digit ds
                  else map digit (drop (nat p) ds))
      in if ds = [] \<or> frac = [] then int_part else int_part @ CHR ''.'' # frac)"

definition float_e :: "nat list \<Rightarrow> int \<Rightarrow> string" where
  "float_e ds p =
     map digit (take 1 ds) @ (if length ds \<le> 1 then [] else CHR ''.'' # map digit (drop 1 ds)) @
     CHR ''e'' # (if p < 1 then CHR ''-'' else CHR ''+'') # dec_nat (nat \<bar>p - 1\<bar>)"

text \<open>Exponent form below \<open>1e-6\<close> and from \<open>1e21\<close>; a NaN or an infinity is an error.\<close>

fun json_float :: "go_float \<Rightarrow> (bytes, 'e) result" where
  "json_float FNaN = Err (ErrNew ''json: unsupported value: NaN'')"
| "json_float (FInf neg) =
     Err (ErrNew (''json: unsupported value: '' @ (if neg then ''-Inf'' else ''+Inf'')))"
| "json_float (FFin neg ds p) =
     Ok ((if neg then ''-'' else []) @
         (if ds \<noteq> [] \<and> (p \<le> -6 \<or> 22 \<le> p) then float_e ds p else float_f ds p))"

text \<open>Standard base64 with padding, the encoding of a byte slice.\<close>

definition b64_char :: "nat \<Rightarrow> char" where
  "b64_char n =
     (if n < 26 then char_of (65 + n) else if n < 52 then char_of (71 + n)
      else if n < 62 then char_of (n - 4) else if n = 62 then CHR ''+'' else CHR 0x2F)"

fun base64 :: "bytes \<Rightarrow> string" where
  "base64 [] = []"
| "base64 [a] = (let x = of_char a in
     [b64_char (x div 4), b64_char ((x mod 4) * 16), CHR ''='', CHR ''=''])"
| "base64 [a, b] = (let x = of_char a; y = of_char b in
     [b64_char (x div 4), b64_char ((x mod 4) * 16 + y div 16), b64_char ((y mod 16) * 4), CHR ''=''])"
| "base64 (a # b # c # bs) = (let x = of_char a; y = of_char b; z = of_char c in
     [b64_char (x div 4), b64_char ((x mod 4) * 16 + y div 16),
      b64_char ((y mod 16) * 4 + z div 64), b64_char (z mod 64)] @ base64 bs)"

section \<open>Strings\<close>

text \<open>The length of the well-formed multi-byte rune at the front, \<open>0\<close> if there is none.\<close>

definition continuation :: "char \<Rightarrow> bool" where
  "continuation c \<longleftrightarrow> 128 \<le> (of_char c :: nat) \<and> (of_char c :: nat) < 192"

fun second_ok :: "nat \<Rightarrow> nat \<Rightarrow> bool" where
  "second_ok a b = (if a = 224 then 160 \<le> b \<and> b < 192 else if a = 237 then 128 \<le> b \<and> b < 160
     else if a = 240 then 144 \<le> b \<and> b < 192 else if a = 244 then 128 \<le> b \<and> b < 144
     else 128 \<le> b \<and> b < 192)"

definition rune_len :: "bytes \<Rightarrow> nat" where
  "rune_len s = (case s of
      a # b # rest \<Rightarrow>
        (let x = of_char a; y = of_char b in
         if \<not> second_ok x y then 0
         else if 194 \<le> x \<and> x \<le> 223 then 2
         else if 224 \<le> x \<and> x \<le> 239 then
           (case rest of c # _ \<Rightarrow> if continuation c then 3 else 0 | [] \<Rightarrow> 0)
         else if 240 \<le> x \<and> x \<le> 244 then
           (case rest of c # d # _ \<Rightarrow> if continuation c \<and> continuation d then 4 else 0 | _ \<Rightarrow> 0)
         else 0)
    | _ \<Rightarrow> 0)"

definition backslash :: char where "backslash = CHR 0x5C"
definition dquote :: char where "dquote = CHR 0x22"

definition escape_u00 :: "char \<Rightarrow> string" where
  "escape_u00 c = backslash # ''u00'' @ [hex_digit (of_char c div 16), hex_digit (of_char c mod 16)]"

definition escape_ascii :: "char \<Rightarrow> string" where
  "escape_ascii c =
     (if c = backslash \<or> c = dquote then [backslash, c]
      else if c = CHR 0x0A then [backslash, CHR ''n'']
      else if c = CHR 0x0D then [backslash, CHR ''r'']
      else if c = CHR 0x09 then [backslash, CHR ''t'']
      else if of_char c < (32 :: nat) \<or> c = CHR ''<'' \<or> c = CHR ''>'' \<or> c = CHR ''&''
      then escape_u00 c else [c])"

text \<open>U+2028 and U+2029 are the bytes \<open>E2 80 A8\<close> and \<open>E2 80 A9\<close>.\<close>

definition line_separator :: "bytes \<Rightarrow> bool" where
  "line_separator s \<longleftrightarrow> take 2 s = [CHR 0xE2, CHR 0x80] \<and>
     2 < length s \<and> (s ! 2 = CHR 0xA8 \<or> s ! 2 = CHR 0xA9)"

definition escape_separator :: "bytes \<Rightarrow> string" where
  "escape_separator s = backslash # ''u202'' @ [hex_digit (of_char (s ! 2) mod 16)]"

fun json_escape :: "bytes \<Rightarrow> string" where
  "json_escape [] = []"
| "json_escape (c # cs) =
     (if of_char c < (128 :: nat) then escape_ascii c @ json_escape cs
      else (let n = rune_len (c # cs)
            in if n = 0 then backslash # ''ufffd'' @ json_escape cs
               else if line_separator (c # cs)
               then escape_separator (c # cs) @ json_escape (drop (n - 1) cs)
               else take n (c # cs) @ json_escape (drop (n - 1) cs)))"

definition json_string :: "bytes \<Rightarrow> string" where
  "json_string s = dquote # json_escape s @ [dquote]"

section \<open>\<open>json.Marshal\<close>\<close>

primrec collect :: "('a, 'e) result list \<Rightarrow> ('a list, 'e) result" where
  "collect [] = Ok []"
| "collect (r # rs) = try_then r (\<lambda>a. try_then (collect rs) (\<lambda>as. Ok (a # as)))"

primrec join :: "string \<Rightarrow> string list \<Rightarrow> string" where
  "join sep [] = []"
| "join sep (s # ss) = (if ss = [] then s else s @ sep @ join sep ss)"

definition json_member :: "string \<times> (bytes, 'e) result \<Rightarrow> (bytes, 'e) result" where
  "json_member kv = try_then (snd kv) (\<lambda>v. Ok (json_string (fst kv) @ '':'' @ v))"

text \<open>The members of a map are written in the byte order of their keys.\<close>

primrec json_marshal :: "goval \<Rightarrow> (bytes, 'e) result" where
  "json_marshal GNil = Ok ''null''"
| "json_marshal (GBool b) = Ok (if b then ''true'' else ''false'')"
| "json_marshal (GInt w) = Ok (dec_int (sint w))"
| "json_marshal (GUint w) = Ok (dec_int (uint w))"
| "json_marshal (GFloat f) = json_float f"
| "json_marshal (GString s) = Ok (json_string s)"
| "json_marshal (GBytes b) = Ok (dquote # base64 b @ [dquote])"
| "json_marshal (GSlice vs) =
     try_then (collect (map json_marshal vs)) (\<lambda>ps. Ok (''['' @ join '','' ps @ '']''))"
| "json_marshal (GMap kvs) =
     try_then (collect (map json_member (sort_key fst (map (map_prod id json_marshal) kvs))))
       (\<lambda>ps. Ok (''{'' @ join '','' ps @ ''}''))"

section \<open>Marshalling does not depend on the iteration order of maps\<close>

text \<open>Two representations of the same Go value: maps may list their members in any order.\<close>

inductive same_value :: "goval \<Rightarrow> goval \<Rightarrow> bool" where
  same_refl: "same_value v v"
| same_slice: "list_all2 same_value vs ws \<Longrightarrow> same_value (GSlice vs) (GSlice ws)"
| same_map: "list_all2 (\<lambda>a b. fst a = fst b \<and> same_value (snd a) (snd b)) kvs xs \<Longrightarrow>
     mset xs = mset kvs' \<Longrightarrow> distinct (map fst kvs') \<Longrightarrow> same_value (GMap kvs) (GMap kvs')"

lemma sort_key_fst_unique:
  assumes "mset xs = mset ys" "distinct (map fst ys)"
  shows "sort_key fst xs = sort_key fst ys"
proof (rule sort_key_inj_key_eq)
  show "mset xs = mset (sort_key fst ys)" using assms(1) by simp
  have "inj_on fst (set ys)" using assms(2) by (simp add: distinct_map)
  then show "inj_on fst (set xs)" using assms(1) by (metis set_mset_mset)
qed simp

lemma marshalled_members_eq:
  fixes f :: "goval \<Rightarrow> (bytes, 'e) result"
  shows "list_all2 (\<lambda>a b. fst a = fst b \<and> f (snd a) = f (snd b)) kvs xs \<Longrightarrow>
     map (map_prod id f) kvs = map (map_prod id f) xs"
  by (induction rule: list_all2_induct) (auto simp: map_prod_def split: prod.splits)

lemma json_marshal_same_value:
  "same_value v w \<Longrightarrow> json_marshal v = (json_marshal w :: (bytes, 'e) result)"
proof (induction rule: same_value.induct)
  case (same_refl v)
  show ?case ..
next
  case (same_slice vs ws)
  let ?f = "json_marshal :: goval \<Rightarrow> (bytes, 'e) result"
  from same_slice have "list_all2 (\<lambda>v w. ?f v = ?f w) vs ws"
    by (rule list_all2_mono) simp
  then have "map ?f vs = map ?f ws"
    by (induction rule: list_all2_induct) auto
  then show ?case by simp
next
  case (same_map kvs xs kvs')
  let ?f = "json_marshal :: goval \<Rightarrow> (bytes, 'e) result"
  from same_map have "list_all2 (\<lambda>a b. fst a = fst b \<and> ?f (snd a) = ?f (snd b)) kvs xs"
    by (auto elim: list_all2_mono)
  then have "map (map_prod id ?f) kvs = map (map_prod id ?f) xs"
    by (rule marshalled_members_eq)
  moreover have "sort_key fst (map (map_prod id ?f) xs) = sort_key fst (map (map_prod id ?f) kvs')"
    using same_map(2,3) by (intro sort_key_fst_unique) (auto simp: comp_def)
  ultimately show ?case by simp
qed

end
