(* ===== verification/Json_Compact.thy ===== *)
theory Json_Compact
  imports Json
begin

text \<open>
  The scanner of \<open>encoding/json\<close> and its compaction with HTML escaping: what \<open>json.Marshal\<close> does
  to the bytes a \<open>MarshalJSON\<close> method returned.  One constructor of \<open>scan_state\<close> per step function
  of the scanner; the stack says which composite values are open.
\<close>

section \<open>The scanner\<close>

datatype scan_state =
    BeginValue | BeginValueOrEmpty | BeginString | BeginStringOrEmpty | EndValue | EndTop
  | InString | InStringEsc | InStringEscU | InStringEscU1 | InStringEscU12 | InStringEscU123
  | Neg | Num1 | Num0 | Dot | Dot0 | NumE | NumESign | NumE0
  | Lit "char list" \<comment> \<open>the letters of \<open>true\<close>, \<open>false\<close> or \<open>null\<close> still to come\<close>
  | ScanError

datatype parse_state = ParseObjectKey | ParseObjectValue | ParseArrayValue

record scanner =
  sc_step :: scan_state
  sc_stack :: "parse_state list"
  sc_endTop :: bool

text \<open>What the scanner tells the compaction about a byte: keep it, or drop it (white space).\<close>

datatype scan_op = Keep | Skip | Fail

definition new_scanner :: scanner where
  "new_scanner = \<lparr>sc_step = BeginValue, sc_stack = [], sc_endTop = False\<rparr>"

definition is_space :: "char \<Rightarrow> bool" where
  "is_space c \<longleftrightarrow> c \<in> {CHR '' '', CHR 0x09, CHR 0x0D, CHR 0x0A}"

definition is_digit :: "char \<Rightarrow> bool" where
  "is_digit c \<longleftrightarrow> CHR ''0'' \<le> c \<and> c \<le> CHR ''9''"

definition is_hex :: "char \<Rightarrow> bool" where
  "is_hex c \<longleftrightarrow> is_digit c \<or> CHR ''a'' \<le> c \<and> c \<le> CHR ''f'' \<or> CHR ''A'' \<le> c \<and> c \<le> CHR ''F''"

definition max_nesting_depth :: nat where "max_nesting_depth = 10000"

definition goto :: "scan_state \<Rightarrow> scanner \<Rightarrow> scanner \<times> scan_op" where
  "goto st s = (s\<lparr>sc_step := st\<rparr>, Keep)"

definition scan_fail :: "scanner \<Rightarrow> scanner \<times> scan_op" where
  "scan_fail s = (s\<lparr>sc_step := ScanError\<rparr>, Fail)"

definition push_state :: "parse_state \<Rightarrow> scan_state \<Rightarrow> scanner \<Rightarrow> scanner \<times> scan_op" where
  "push_state ps st s =
     (let s' = s\<lparr>sc_step := st, sc_stack := ps # sc_stack s\<rparr>
      in if length (sc_stack s') \<le> max_nesting_depth then (s', Keep) else scan_fail s')"

definition pop_state :: "scanner \<Rightarrow> scanner \<times> scan_op" where
  "pop_state s =
     (let rest = tl (sc_stack s)
      in (if rest = [] then s\<lparr>sc_stack := rest, sc_step := EndTop, sc_endTop := True\<rparr>
          else s\<lparr>sc_stack := rest, sc_step := EndValue\<rparr>, Keep))"

text \<open>After the top-level value only white space may follow; anything else is an error at the end.\<close>

definition end_top :: "scanner \<Rightarrow> char \<Rightarrow> scanner \<times> scan_op" where
  "end_top s c = (if is_space c then (s, Skip) else (s\<lparr>sc_step := ScanError\<rparr>, Skip))"

definition end_value :: "scanner \<Rightarrow> char \<Rightarrow> scanner \<times> scan_op" where
  "end_value s c =
     (case sc_stack s of
        [] \<Rightarrow> end_top (s\<lparr>sc_step := EndTop, sc_endTop := True\<rparr>) c
      | ps # rest \<Rightarrow>
          if is_space c then (s\<lparr>sc_step := EndValue\<rparr>, Skip)
          else (case ps of
              ParseObjectKey \<Rightarrow>
                if c = CHR '':''
                then (s\<lparr>sc_stack := ParseObjectValue # rest, sc_step := BeginValue\<rparr>, Keep)
                else scan_fail s
            | ParseObjectValue \<Rightarrow>
                if c = CHR '',''
                then (s\<lparr>sc_stack := ParseObjectKey # rest, sc_step := BeginString\<rparr>, Keep)
                else if c = CHR ''}'' then pop_state s else scan_fail s
            | ParseArrayValue \<Rightarrow>
                if c = CHR '','' then goto BeginValue s
                else if c = CHR '']'' then pop_state s else scan_fail s))"

definition begin_value :: "scanner \<Rightarrow> char \<Rightarrow> scanner \<times> scan_op" where
  "begin_value s c =
     (if is_space c then (s, Skip)
      else if c = CHR ''{'' then push_state ParseObjectKey BeginStringOrEmpty s
      else if c = CHR ''['' then push_state ParseArrayValue BeginValueOrEmpty s
      else if c = dquote then goto InString s
      else if c = CHR ''-'' then goto Neg s
      else if c = CHR ''0'' then goto Num0 s
      else if c = CHR ''t'' then goto (Lit ''rue'') s
      else if c = CHR ''f'' then goto (Lit ''alse'') s
      else if c = CHR ''n'' then goto (Lit ''ull'') s
      else if is_digit c then goto Num1 s
      else scan_fail s)"

definition begin_string :: "scanner \<Rightarrow> char \<Rightarrow> scanner \<times> scan_op" where
  "begin_string s c =
     (if is_space c then (s, Skip) else if c = dquote then goto InString s else scan_fail s)"

definition num0 :: "scanner \<Rightarrow> char \<Rightarrow> scanner \<times> scan_op" where
  "num0 s c = (if c = CHR ''.'' then goto Dot s
     else if c = CHR ''e'' \<or> c = CHR ''E'' then goto NumE s else end_value s c)"

definition e_sign :: "scanner \<Rightarrow> char \<Rightarrow> scanner \<times> scan_op" where
  "e_sign s c = (if is_digit c then goto NumE0 s else scan_fail s)"

definition hex_step :: "scan_state \<Rightarrow> scanner \<Rightarrow> char \<Rightarrow> scanner \<times> scan_op" where
  "hex_step st s c = (if is_hex c then goto st s else scan_fail s)"

definition scan_step :: "scanner \<Rightarrow> char \<Rightarrow> scanner \<times> scan_op" where
  "scan_step s c = (case sc_step s of
      BeginValue \<Rightarrow> begin_value s c
    | BeginValueOrEmpty \<Rightarrow>
        if is_space c then (s, Skip) else if c = CHR '']'' then end_value s c else begin_value s c
    | BeginString \<Rightarrow> begin_string s c
    | BeginStringOrEmpty \<Rightarrow>
        if is_space c then (s, Skip)
        else if c = CHR ''}''
        then end_value (s\<lparr>sc_stack := ParseObjectValue # tl (sc_stack s)\<rparr>) c
        else begin_string s c
    | EndValue \<Rightarrow> end_value s c
    | EndTop \<Rightarrow> end_top s c
    | InString \<Rightarrow>
        if c = dquote then goto EndValue s
        else if c = backslash then goto InStringEsc s
        else if of_char c < (32 :: nat) then scan_fail s else (s, Keep)
    | InStringEsc \<Rightarrow>
        if c \<in> {CHR ''b'', CHR ''f'', CHR ''n'', CHR ''r'', CHR ''t'', backslash, CHR 0x2F, dquote}
        then goto InString s
        else if c = CHR ''u'' then goto InStringEscU s else scan_fail s
    | InStringEscU \<Rightarrow> hex_step InStringEscU1 s c
    | InStringEscU1 \<Rightarrow> hex_step InStringEscU12 s c
    | InStringEscU12 \<Rightarrow> hex_step InStringEscU123 s c
    | InStringEscU123 \<Rightarrow> hex_step InString s c
    | Neg \<Rightarrow> if c = CHR ''0'' then goto Num0 s else if is_digit c then goto Num1 s else scan_fail s
    | Num1 \<Rightarrow> if is_digit c then goto Num1 s else num0 s c
    | Num0 \<Rightarrow> num0 s c
    | Dot \<Rightarrow> if is_digit c then goto Dot0 s else scan_fail s
    | Dot0 \<Rightarrow> if is_digit c then (s, Keep)
        else if c = CHR ''e'' \<or> c = CHR ''E'' then goto NumE s else end_value s c
    | NumE \<Rightarrow> if c = CHR ''+'' \<or> c = CHR ''-'' then goto NumESign s else e_sign s c
    | NumESign \<Rightarrow> e_sign s c
    | NumE0 \<Rightarrow> if is_digit c then (s, Keep) else end_value s c
    | Lit cs \<Rightarrow> (case cs of
          [] \<Rightarrow> scan_fail s
        | x # xs \<Rightarrow> if c \<noteq> x then scan_fail s else if xs = [] then goto EndValue s else goto (Lit xs) s)
    | ScanError \<Rightarrow> (s, Fail))"

text \<open>At the end of the input: is a complete top-level value read?\<close>

definition scan_eof :: "scanner \<Rightarrow> bool" where
  "scan_eof s = (if sc_step s = ScanError then False
     else if sc_endTop s then True
     else (let s' = fst (scan_step s (CHR '' '')) in sc_endTop s'))"

section \<open>Compaction\<close>

text \<open>\<open>k\<close> counts the bytes at the front that an escape sequence already stands for.\<close>

definition compact_emit :: "nat \<Rightarrow> bytes \<Rightarrow> nat \<times> string" where
  "compact_emit k s = (case s of [] \<Rightarrow> (k, [])
     | c # cs \<Rightarrow>
         if k > 0 then (k - 1, [])
         else if c = CHR ''<'' \<or> c = CHR ''>'' \<or> c = CHR ''&'' then (0, escape_u00 c)
         else if line_separator s then (2, escape_separator s)
         else (0, [c]))"

fun compact_from :: "scanner \<Rightarrow> nat \<Rightarrow> bytes \<Rightarrow> scanner \<times> string" where
  "compact_from s k [] = (s, [])"
| "compact_from s k (c # cs) =
     (let (s', v) = scan_step s c; (k', e) = compact_emit k (c # cs)
      in case v of
           Fail \<Rightarrow> (s', [])
         | Skip \<Rightarrow> compact_from s' k' cs
         | Keep \<Rightarrow> (let (s'', out) = compact_from s' k' cs in (s'', e @ out)))"

definition json_compact :: "bytes \<Rightarrow> bytes option" where
  "json_compact src =
     (let (s, out) = compact_from new_scanner 0 src in if scan_eof s then Some out else None)"

definition json_valid :: "bytes \<Rightarrow> bool" where
  "json_valid src \<longleftrightarrow> json_compact src \<noteq> None"

end
