(* ===== verification/Api.thy ===== *)
theory Api
  imports Prelude "HOL-Library.Word"
begin

text \<open>
  \<open>apis/srl/v1alpha1\<close>: the \<open>SrlConfig\<close> custom resource, its accessors, its list type and its
  admission webhooks.  The embedded structs of \<open>ndd-runtime\<close> (\<open>ResourceSpec\<close>, \<open>ResourceStatus\<close>)
  have the fields the custom resource definition shows.
\<close>

section \<open>The resource\<close>

definition Group :: string where "Group = ''config.yndd.io''"
definition Version :: string where "Version = ''v1alpha1''"

text \<open>\<open>reflect.TypeOf(SrlConfig{}).Name()\<close>\<close>

definition SrlConfigKind :: string where "SrlConfigKind = ''SrlConfig''"

record group_kind =
  gk_Group :: string
  gk_Kind :: string

definition SrlConfigGK :: group_kind where
  "SrlConfigGK = \<lparr>gk_Group = Group, gk_Kind = SrlConfigKind\<rparr>"

record group_version =
  gv_Group :: string
  gv_Version :: string

record group_version_kind = group_version +
  gv_Kind :: string

definition GroupVersion :: group_version where
  "GroupVersion = \<lparr>gv_Group = Group, gv_Version = Version\<rparr>"

text \<open>\<open>GroupVersion.WithKind(SrlConfigKind)\<close>\<close>

definition SrlConfigGroupVersionKind :: group_version_kind where
  "SrlConfigGroupVersionKind = group_version.extend GroupVersion \<lparr>gv_Kind = SrlConfigKind\<rparr>"

record reference =
  ref_Name :: string

record lifecycle =
  lc_DeploymentPolicy :: string
  lc_DeletionPolicy :: string

text \<open>\<open>runtime.RawExtension\<close>; \<open>None\<close> is a nil slice or a nil object.\<close>

record raw_extension =
  re_Raw :: "bytes option"
  re_Object :: "string option"

record config_spec =
  sp_Lifecycle :: lifecycle
  sp_TargetReference :: "reference option"
  sp_Properties :: raw_extension

record condition =
  cd_Kind :: string
  cd_Status :: string
  cd_Reason :: string
  cd_Message :: string
  cd_LastTransitionTime :: int

record health_status =
  hs_Percentage :: "32 word"
  hs_LastTransitionTime :: int
  hs_Conditions :: "condition list"

record config_status =
  st_Conditions :: "condition list"
  st_Health :: health_status
  st_RootPaths :: "string list"

record srl_config =
  cr_Name :: string
  cr_Namespace :: string
  cr_Labels :: "(string, string) fmap"
  cr_Spec :: config_spec
  cr_Status :: config_status

text \<open>Reading a byte slice: nil reads as the empty slice.\<close>

definition raw_bytes :: "srl_config \<Rightarrow> bytes" where
  "raw_bytes x = (case re_Raw (sp_Properties (cr_Spec x)) of None \<Rightarrow> [] | Some b \<Rightarrow> b)"

section \<open>Accessors\<close>

definition GetDeploymentPolicy :: "srl_config \<Rightarrow> string" where
  "GetDeploymentPolicy x = lc_DeploymentPolicy (sp_Lifecycle (cr_Spec x))"

definition SetDeploymentPolicy :: "string \<Rightarrow> srl_config \<Rightarrow> srl_config" where
  "SetDeploymentPolicy b x =
     x\<lparr>cr_Spec := (cr_Spec x)\<lparr>sp_Lifecycle := (sp_Lifecycle (cr_Spec x))\<lparr>lc_DeploymentPolicy := b\<rparr>\<rparr>\<rparr>"

definition GetDeletionPolicy :: "srl_config \<Rightarrow> string" where
  "GetDeletionPolicy x = lc_DeletionPolicy (sp_Lifecycle (cr_Spec x))"

definition SetDeletionPolicy :: "string \<Rightarrow> srl_config \<Rightarrow> srl_config" where
  "SetDeletionPolicy r x =
     x\<lparr>cr_Spec := (cr_Spec x)\<lparr>sp_Lifecycle := (sp_Lifecycle (cr_Spec x))\<lparr>lc_DeletionPolicy := r\<rparr>\<rparr>\<rparr>"

definition GetTargetReference :: "srl_config \<Rightarrow> reference option" where
  "GetTargetReference x = sp_TargetReference (cr_Spec x)"

definition SetTargetReference :: "reference option \<Rightarrow> srl_config \<Rightarrow> srl_config" where
  "SetTargetReference r x = x\<lparr>cr_Spec := (cr_Spec x)\<lparr>sp_TargetReference := r\<rparr>\<rparr>"

definition GetRootPaths :: "srl_config \<Rightarrow> string list" where
  "GetRootPaths x = st_RootPaths (cr_Status x)"

definition SetRootPaths :: "string list \<Rightarrow> srl_config \<Rightarrow> srl_config" where
  "SetRootPaths n x = x\<lparr>cr_Status := (cr_Status x)\<lparr>st_RootPaths := n\<rparr>\<rparr>"

definition SetHealthConditions :: "health_status \<Rightarrow> srl_config \<Rightarrow> srl_config" where
  "SetHealthConditions c x = x\<lparr>cr_Status := (cr_Status x)\<lparr>st_Health := c\<rparr>\<rparr>"

definition GetSpec :: "srl_config \<Rightarrow> config_spec" where
  "GetSpec x = cr_Spec x"

text \<open>The conditions are kept by \<open>ndd-runtime\<close>'s \<open>ConditionedStatus\<close>, a parameter here.\<close>

definition GetCondition ::
  "(condition list \<Rightarrow> string \<Rightarrow> condition) \<Rightarrow> srl_config \<Rightarrow> string \<Rightarrow> condition" where
  "GetCondition get x ck = get (st_Conditions (cr_Status x)) ck"

definition SetConditions ::
  "(condition list \<Rightarrow> condition list \<Rightarrow> condition list) \<Rightarrow> condition list \<Rightarrow> srl_config \<Rightarrow> srl_config" where
  "SetConditions upd cs x =
     x\<lparr>cr_Status := (cr_Status x)\<lparr>st_Conditions := upd (st_Conditions (cr_Status x)) cs\<rparr>\<rparr>"

text \<open>The label names are constants of \<open>nddo-runtime\<close>.\<close>

record label_keys =
  LabelNddaOwner :: string
  LabelNddaDevice :: string
  LabelNddaEndpointGroup :: string
  LabelNddaOrganization :: string
  LabelNddaDeployment :: string
  LabelNddaAvailabilityZone :: string

definition GetOwner :: "label_keys \<Rightarrow> srl_config \<Rightarrow> string" where
  "GetOwner K x = (case fmlookup (cr_Labels x) (LabelNddaOwner K) of None \<Rightarrow> [] | Some s \<Rightarrow> s)"

definition GetDeviceName :: "label_keys \<Rightarrow> srl_config \<Rightarrow> string" where
  "GetDeviceName K x = (case fmlookup (cr_Labels x) (LabelNddaDevice K) of None \<Rightarrow> [] | Some s \<Rightarrow> s)"

definition GetEndpointGroup :: "label_keys \<Rightarrow> srl_config \<Rightarrow> string" where
  "GetEndpointGroup K x =
     (case fmlookup (cr_Labels x) (LabelNddaEndpointGroup K) of None \<Rightarrow> [] | Some s \<Rightarrow> s)"

definition GetOrganization :: "label_keys \<Rightarrow> srl_config \<Rightarrow> string" where
  "GetOrganization K x =
     (case fmlookup (cr_Labels x) (LabelNddaOrganization K) of None \<Rightarrow> [] | Some s \<Rightarrow> s)"

definition GetDeployment :: "label_keys \<Rightarrow> srl_config \<Rightarrow> string" where
  "GetDeployment K x =
     (case fmlookup (cr_Labels x) (LabelNddaDeployment K) of None \<Rightarrow> [] | Some s \<Rightarrow> s)"

definition GetAvailabilityZone :: "label_keys \<Rightarrow> srl_config \<Rightarrow> string" where
  "GetAvailabilityZone K x =
     (case fmlookup (cr_Labels x) (LabelNddaAvailabilityZone K) of None \<Rightarrow> [] | Some s \<Rightarrow> s)"

section \<open>Managed resources\<close>

text \<open>
  The dynamic type of a \<open>resource.Managed\<close>: an \<open>*SrlConfig\<close> or a resource of another package, of
  which only what the interface's methods answer is known.
\<close>

record other_managed =
  om_Name :: string
  om_Namespace :: string
  om_TargetReference :: "reference option"
  om_RootPaths :: "string list"

datatype managed = ManagedSrl srl_config | ManagedOther other_managed

primrec mg_Namespace :: "managed \<Rightarrow> string" where
  "mg_Namespace (ManagedSrl x) = cr_Namespace x"
| "mg_Namespace (ManagedOther o') = om_Namespace o'"

primrec mg_TargetReference :: "managed \<Rightarrow> reference option" where
  "mg_TargetReference (ManagedSrl x) = GetTargetReference x"
| "mg_TargetReference (ManagedOther o') = om_TargetReference o'"

primrec mg_RootPaths :: "managed \<Rightarrow> string list" where
  "mg_RootPaths (ManagedSrl x) = GetRootPaths x"
| "mg_RootPaths (ManagedOther o') = om_RootPaths o'"

text \<open>The type assertion \<open>mg.(*SrlConfig)\<close> with its \<open>ok\<close> result.\<close>

primrec as_SrlConfig :: "managed \<Rightarrow> srl_config option" where
  "as_SrlConfig (ManagedSrl x) = Some x"
| "as_SrlConfig (ManagedOther o') = None"

section \<open>The accessor contract\<close>

text \<open>
  The getters and setters of \<open>resource.Managed\<close> are fields: a getter answers what was last set,
  setting what is there changes nothing, and the last write wins.  Two accessors are independent
  when a write through one is not seen through the other.
\<close>

locale accessor =
  fixes get :: "'c \<Rightarrow> 'v" and put :: "'v \<Rightarrow> 'c \<Rightarrow> 'c"
  assumes get_put: "get (put v c) = v"
    and put_get: "put (get c) c = c"
    and put_put: "put v (put w c) = put v c"
begin

lemma put_inj: "put v c = put w c \<Longrightarrow> v = w"
  by (metis get_put)

lemma put_eq_iff: "put v c = c \<longleftrightarrow> get c = v"
  by (metis get_put put_get)

lemma fold_last_write: "vs \<noteq> [] \<Longrightarrow> get (fold put vs c) = last vs"
  by (induction vs arbitrary: c rule: rev_induct) (simp_all add: get_put)

end

locale independent_accessors = a: accessor get1 put1 + b: accessor get2 put2
  for get1 :: "'c \<Rightarrow> 'v" and put1 :: "'v \<Rightarrow> 'c \<Rightarrow> 'c" and get2 :: "'c \<Rightarrow> 'w" and put2 :: "'w \<Rightarrow> 'c \<Rightarrow> 'c" +
  assumes commute: "put1 v (put2 w c) = put2 w (put1 v c)"
begin

lemma get1_put2: "get1 (put2 w c) = get1 c"
  by (metis a.get_put a.put_get commute)

lemma get2_put1: "get2 (put1 v c) = get2 c"
  by (metis b.get_put b.put_get commute)

lemma both: "get1 (put1 v (put2 w c)) = v \<and> get2 (put1 v (put2 w c)) = w"
  by (simp add: a.get_put b.get_put get2_put1)

end

lemmas accessor_defs =
  GetDeploymentPolicy_def SetDeploymentPolicy_def GetDeletionPolicy_def SetDeletionPolicy_def
  GetTargetReference_def SetTargetReference_def GetRootPaths_def SetRootPaths_def

interpretation deployment: accessor GetDeploymentPolicy SetDeploymentPolicy
  by unfold_locales (simp_all add: accessor_defs)

interpretation deletion: accessor GetDeletionPolicy SetDeletionPolicy
  by unfold_locales (simp_all add: accessor_defs)

interpretation target_ref: accessor GetTargetReference SetTargetReference
  by unfold_locales (simp_all add: accessor_defs)

interpretation root_paths: accessor GetRootPaths SetRootPaths
  by unfold_locales (simp_all add: accessor_defs)

interpretation policies: independent_accessors
  GetDeploymentPolicy SetDeploymentPolicy GetDeletionPolicy SetDeletionPolicy
  by unfold_locales (simp add: accessor_defs)

interpretation target_paths: independent_accessors
  GetTargetReference SetTargetReference GetRootPaths SetRootPaths
  by unfold_locales (simp add: accessor_defs)

interpretation deletion_target: independent_accessors
  GetDeletionPolicy SetDeletionPolicy GetTargetReference SetTargetReference
  by unfold_locales (simp add: accessor_defs)

section \<open>Histories of writes\<close>

text \<open>The field setters as data, so that a history of calls is a list.\<close>

datatype field_write =
    WDeployment string | WDeletion string | WTarget "reference option" | WRootPaths "string list"

primrec apply_write :: "field_write \<Rightarrow> srl_config \<Rightarrow> srl_config" where
  "apply_write (WDeployment b) = SetDeploymentPolicy b"
| "apply_write (WDeletion r) = SetDeletionPolicy r"
| "apply_write (WTarget r) = SetTargetReference r"
| "apply_write (WRootPaths n) = SetRootPaths n"

text \<open>The last value a history writes to a field, its old value if there is none.\<close>

definition last_of :: "('w \<Rightarrow> 'v option) \<Rightarrow> 'w list \<Rightarrow> 'v \<Rightarrow> 'v" where
  "last_of sel ws v = fold (\<lambda>w acc. case sel w of None \<Rightarrow> acc | Some x \<Rightarrow> x) ws v"

definition wrote_deployment :: "field_write \<Rightarrow> string option" where
  "wrote_deployment w = (case w of WDeployment b \<Rightarrow> Some b | _ \<Rightarrow> None)"

definition wrote_deletion :: "field_write \<Rightarrow> string option" where
  "wrote_deletion w = (case w of WDeletion b \<Rightarrow> Some b | _ \<Rightarrow> None)"

definition wrote_target :: "field_write \<Rightarrow> reference option option" where
  "wrote_target w = (case w of WTarget r \<Rightarrow> Some r | _ \<Rightarrow> None)"

definition wrote_root_paths :: "field_write \<Rightarrow> string list option" where
  "wrote_root_paths w = (case w of WRootPaths n \<Rightarrow> Some n | _ \<Rightarrow> None)"

lemma last_of_run:
  assumes "\<And>w x. get (run w x) = (case sel w of None \<Rightarrow> get x | Some v \<Rightarrow> v)"
  shows "get (fold run ws x) = last_of sel ws (get x)"
  by (induction ws arbitrary: x) (simp_all add: last_of_def assms split: option.splits)

lemmas wrote_defs =
  wrote_deployment_def wrote_deletion_def wrote_target_def wrote_root_paths_def

lemmas accessor_laws = deployment.get_put deletion.get_put target_ref.get_put root_paths.get_put
  policies.get1_put2 policies.get2_put1 target_paths.get1_put2 target_paths.get2_put1
  deletion_target.get1_put2 deletion_target.get2_put1

definition untouched :: "srl_config \<Rightarrow> (string \<times> string \<times> (string, string) fmap) \<times>
    raw_extension \<times> condition list \<times> health_status" where
  "untouched x = ((cr_Name x, cr_Namespace x, cr_Labels x), sp_Properties (GetSpec x),
     st_Conditions (cr_Status x), st_Health (cr_Status x))"

lemma untouched_apply_write: "untouched (apply_write w x) = untouched x"
  by (cases w) (simp_all add: untouched_def accessor_defs GetSpec_def)

lemma untouched_fold: "untouched (fold apply_write ws x) = untouched x"
  by (induction ws arbitrary: x) (simp_all add: untouched_apply_write)


section \<open>Labels\<close>

text \<open>The six label getters: the value of one label, the empty string if it is not set.\<close>

locale label_getter =
  fixes key :: string and get :: "srl_config \<Rightarrow> string"
  assumes absent: "fmlookup (cr_Labels x) key = None \<Longrightarrow> get x = []"
    and present: "fmlookup (cr_Labels x) key = Some s \<Longrightarrow> get x = s"
begin

lemma after_set: "get (x\<lparr>cr_Labels := fmupd key s (cr_Labels x)\<rparr>) = s"
  by (rule present) simp

lemma after_other_set:
  assumes "k \<noteq> key"
  shows "get (x\<lparr>cr_Labels := fmupd k s (cr_Labels x)\<rparr>) = get x"
proof (cases "fmlookup (cr_Labels x) key")
  case None
  then show ?thesis
    using assms absent [of x] absent [of "x\<lparr>cr_Labels := fmupd k s (cr_Labels x)\<rparr>"] by simp
next
  case (Some t)
  then show ?thesis
    using assms present [of x t] present [of "x\<lparr>cr_Labels := fmupd k s (cr_Labels x)\<rparr>" t] by simp
qed

lemma after_drop: "get (x\<lparr>cr_Labels := fmdrop key (cr_Labels x)\<rparr>) = []"
  by (rule absent) simp

end

lemmas label_defs = GetOwner_def GetDeviceName_def GetEndpointGroup_def GetOrganization_def
  GetDeployment_def GetAvailabilityZone_def

interpretation owner: label_getter "LabelNddaOwner K" "GetOwner K" for K
  by unfold_locales (simp_all add: label_defs)

interpretation device_name: label_getter "LabelNddaDevice K" "GetDeviceName K" for K
  by unfold_locales (simp_all add: label_defs)

interpretation endpoint_group: label_getter "LabelNddaEndpointGroup K" "GetEndpointGroup K" for K
  by unfold_locales (simp_all add: label_defs)

interpretation organization: label_getter "LabelNddaOrganization K" "GetOrganization K" for K
  by unfold_locales (simp_all add: label_defs)

interpretation deployment_label: label_getter "LabelNddaDeployment K" "GetDeployment K" for K
  by unfold_locales (simp_all add: label_defs)

interpretation zone: label_getter "LabelNddaAvailabilityZone K" "GetAvailabilityZone K" for K
  by unfold_locales (simp_all add: label_defs)

lemmas label_laws = owner.after_set owner.after_other_set device_name.after_set
  device_name.after_other_set endpoint_group.after_set endpoint_group.after_other_set
  organization.after_set organization.after_other_set deployment_label.after_set
  deployment_label.after_other_set zone.after_set zone.after_other_set

definition label_names :: "label_keys \<Rightarrow> string list" where
  "label_names K = [LabelNddaOwner K, LabelNddaDevice K, LabelNddaEndpointGroup K,
     LabelNddaOrganization K, LabelNddaDeployment K, LabelNddaAvailabilityZone K]"

definition label_values :: "label_keys \<Rightarrow> srl_config \<Rightarrow> string list" where
  "label_values K x = [GetOwner K x, GetDeviceName K x, GetEndpointGroup K x,
     GetOrganization K x, GetDeployment K x, GetAvailabilityZone K x]"

text \<open>
  Each label getter reads its own label and no other: when the six label names are distinct,
  setting the \<open>i\<close>-th label changes what the \<open>i\<close>-th getter answers to the new value and leaves the
  answers of the other five as they were.
\<close>

lemma label_getters_separate:
  assumes "distinct (label_names K)" and "i < length (label_names K)"
  shows "label_values K (x\<lparr>cr_Labels := fmupd (label_names K ! i) s (cr_Labels x)\<rparr>) =
     (label_values K x)[i := s]"
proof -
  have "i \<in> {0, 1, 2, 3, 4, 5}" using assms(2) by (auto simp: label_names_def)
  then show ?thesis
    using assms(1) by (auto simp: label_names_def label_values_def label_laws)
qed

definition demo_config :: srl_config where
  "demo_config = \<lparr>cr_Name = ''int-e1-30'', cr_Namespace = ''ndd-system'', cr_Labels = fmempty,
     cr_Spec = \<lparr>sp_Lifecycle = \<lparr>lc_DeploymentPolicy = ''active'', lc_DeletionPolicy = ''delete''\<rparr>,
       sp_TargetReference = Some \<lparr>ref_Name = ''leaf1''\<rparr>,
       sp_Properties = \<lparr>re_Raw = Some ''{}'', re_Object = None\<rparr>\<rparr>,
     cr_Status = \<lparr>st_Conditions = [],
       st_Health = \<lparr>hs_Percentage = 0, hs_LastTransitionTime = 0, hs_Conditions = []\<rparr>,
       st_RootPaths = []\<rparr>\<rparr>"

definition demo_labels :: label_keys where
  "demo_labels = \<lparr>LabelNddaOwner = ''owner'', LabelNddaDevice = ''device'',
     LabelNddaEndpointGroup = ''epg'', LabelNddaOrganization = ''org'',
     LabelNddaDeployment = ''depl'', LabelNddaAvailabilityZone = ''az''\<rparr>"

lemma label_getters_separate_witness:
  "label_values demo_labels (demo_config\<lparr>cr_Labels := fmupd ''org'' ''nokia'' (cr_Labels demo_config)\<rparr>)
     = ['''', '''', '''', ''nokia'', '''', '''']"
  using label_getters_separate [of demo_labels 3 "''nokia''" demo_config]
  by (simp add: label_names_def label_values_def demo_labels_def demo_config_def label_defs)

end
