(* ===== verification/Api_List.thy ===== *)
theory Api_List
  imports Api
begin

text \<open>
  The list type \<open>SrlConfigList\<close> and the list access of \<open>pkg/intent/config\<close>.  \<open>GetItems\<close> returns
  pointers into the backing array of the list, \<open>GetConfigs\<close> pointers to copies made in its loop, so
  the model keeps the two regions of memory apart.
\<close>

section \<open>Memory\<close>

datatype cr_ptr =
    ItemPtr nat  \<comment> \<open>\<open>&l.Items[i]\<close>\<close>
  | CopyPtr nat  \<comment> \<open>the \<open>i\<close>-th variable allocated for a copy\<close>

record list_mem =
  lm_Items :: "srl_config list"
  lm_Copies :: "srl_config list"

primrec load :: "list_mem \<Rightarrow> cr_ptr \<Rightarrow> srl_config option" where
  "load m (ItemPtr i) = (if i < length (lm_Items m) then Some (lm_Items m ! i) else None)"
| "load m (CopyPtr i) = (if i < length (lm_Copies m) then Some (lm_Copies m ! i) else None)"

primrec store_at :: "cr_ptr \<Rightarrow> srl_config \<Rightarrow> list_mem \<Rightarrow> list_mem" where
  "store_at (ItemPtr i) x m = m\<lparr>lm_Items := (lm_Items m)[i := x]\<rparr>"
| "store_at (CopyPtr i) x m = m\<lparr>lm_Copies := (lm_Copies m)[i := x]\<rparr>"

section \<open>The two ways to walk the list\<close>

text \<open>\<open>for i := range l.Items { items[i] = &l.Items[i] }\<close>; \<open>None\<close> is the nil interface.\<close>

definition GetItems :: "list_mem \<Rightarrow> cr_ptr option list" where
  "GetItems m = fold (\<lambda>i items. items[i := Some (ItemPtr i)]) [0..<length (lm_Items m)]
     (replicate (length (lm_Items m)) None)"

text \<open>\<open>for i, r := range x.Items { r := r; xs[i] = &r }\<close>\<close>

definition pin_config ::
  "nat \<times> srl_config \<Rightarrow> list_mem \<times> cr_ptr option list \<Rightarrow> list_mem \<times> cr_ptr option list" where
  "pin_config ir s =
     (let (i, r) = ir; (m, xs) = s
      in (m\<lparr>lm_Copies := lm_Copies m @ [r]\<rparr>, xs[i := Some (CopyPtr (length (lm_Copies m)))]))"

definition GetConfigs :: "list_mem \<Rightarrow> list_mem \<times> cr_ptr option list" where
  "GetConfigs m = fold pin_config (enumerate 0 (lm_Items m))
     (m, replicate (length (lm_Items m)) None)"

text \<open>\<open>InitConfig\<close> keeps a client; \<open>List\<close> asks it for the objects.\<close>

record ('o, 'e) config_lister =
  cl_client :: "'o \<Rightarrow> 'e error + srl_config list"

definition InitConfig :: "('o \<Rightarrow> 'e error + srl_config list) \<Rightarrow> ('o, 'e) config_lister" where
  "InitConfig c = \<lparr>cl_client = c\<rparr>"

definition config_List :: "('o, 'e) config_lister \<Rightarrow> 'o \<Rightarrow> (srl_config list, 'e) result" where
  "config_List x opts = (case cl_client x opts of Inl e \<Rightarrow> Err e | Inr ol \<Rightarrow> Ok ol)"

section \<open>The loops in closed form\<close>

lemma fold_fill:
  "n \<le> length xs \<Longrightarrow> fold (\<lambda>i ys. ys[i := f i]) [0..<n] xs = map f [0..<n] @ drop n xs"
proof (induction n)
  case 0
  then show ?case by simp
next
  case (Suc n)
  then obtain y ys where "drop n xs = y # ys" by (cases "drop n xs") auto
  moreover from this have "drop (Suc n) xs = ys" by (metis drop_Suc drop_tl list.sel(3))
  ultimately show ?case using Suc by (simp add: list_update_append)
qed

lemma GetItems_eq: "GetItems m = map (\<lambda>i. Some (ItemPtr i)) [0..<length (lm_Items m)]"
  by (simp add: GetItems_def fold_fill)

lemma pin_configs:
  "length pre \<le> length xs - length rs \<Longrightarrow> length rs \<le> length xs \<Longrightarrow>
   fold pin_config (enumerate (length pre) rs) (m, map Some pre @ drop (length pre) xs) =
     (m\<lparr>lm_Copies := lm_Copies m @ rs\<rparr>,
      map Some pre @ map (\<lambda>i. Some (CopyPtr (length (lm_Copies m) + i))) [0..<length rs] @
        drop (length pre + length rs) xs)"
proof (induction rs arbitrary: pre m)
  case Nil
  then show ?case by simp
next
  case (Cons r rs)
  let ?p = "CopyPtr (length (lm_Copies m))"
  have drop: "drop (length pre) xs \<noteq> []" using Cons.prems by auto
  then have step: "(map Some pre @ drop (length pre) xs)[length pre := Some ?p] =
      map Some (pre @ [?p]) @ drop (length (pre @ [?p])) xs"
    by (cases "drop (length pre) xs") (auto simp: list_update_append drop_Suc drop_tl)
  have shift: "map (\<lambda>i. Some (CopyPtr (length (lm_Copies m) + i))) [0..<Suc n] =
      Some ?p # map (\<lambda>i. Some (CopyPtr (Suc (length (lm_Copies m)) + i))) [0..<n]" for n
    by (simp add: upt_conv_Cons map_Suc_upt [symmetric] del: upt_Suc map_Suc_upt)
  from Cons.IH [of "pre @ [?p]" "m\<lparr>lm_Copies := lm_Copies m @ [r]\<rparr>"] Cons.prems step
  show ?case by (simp add: pin_config_def shift del: upt_Suc)
qed

lemma GetConfigs_eq:
  "GetConfigs m = (m\<lparr>lm_Copies := lm_Copies m @ lm_Items m\<rparr>,
     map (\<lambda>i. Some (CopyPtr (length (lm_Copies m) + i))) [0..<length (lm_Items m)])"
  using pin_configs [of "[]" "replicate (length (lm_Items m)) None" "lm_Items m" m]
  by (simp add: GetConfigs_def)

section \<open>Properties\<close>


definition demo_list :: list_mem where
  "demo_list = \<lparr>lm_Items = [demo_config, demo_config\<lparr>cr_Name := ''second''\<rparr>], lm_Copies = []\<rparr>"


text \<open>
  \<open>GetItems\<close> returns the items themselves: the \<open>i\<close>-th pointer shows the \<open>i\<close>-th item, and a
  write through it is a write to that item of the list and to no other.
\<close>

lemma GetItems_alias:
  assumes "i < length (lm_Items m)"
  shows "\<exists>p. GetItems m ! i = Some p \<and> length (GetItems m) = length (lm_Items m) \<and>
    load m p = Some (lm_Items m ! i) \<and>
    lm_Items (store_at p x m) = (lm_Items m)[i := x] \<and> load (store_at p x m) p = Some x"
  using assms by (simp add: GetItems_eq)

lemma GetItems_alias_witness:
  "\<exists>p. GetItems demo_list ! 1 = Some p \<and>
    lm_Items (store_at p demo_config demo_list) = [demo_config, demo_config]"
  using GetItems_alias [of 1 demo_list demo_config] by (auto simp: demo_list_def)

end
