(* ===== verification/Interfaces.thy ===== *)
theory Interfaces
  imports Api_List
begin

text \<open>
  The interfaces of \<open>srlconfig_interfaces.go\<close>: a Go interface value is an object with the table of its
  methods.  The tables list the methods the interfaces declare themselves; those of the embedded
  interfaces (\<open>client.ObjectList\<close>, \<open>resource.Object\<close>, \<open>resource.Conditioned\<close>) belong to other
  packages, the two methods of \<open>resource.Conditioned\<close> being declared here again.
\<close>

section \<open>Method tables\<close>

record 'x IFSrlConfig =
  m_GetDeploymentPolicy :: "'x \<Rightarrow> string"
  m_SetDeploymentPolicy :: "string \<Rightarrow> 'x \<Rightarrow> 'x"
  m_GetDeletionPolicy :: "'x \<Rightarrow> string"
  m_SetDeletionPolicy :: "string \<Rightarrow> 'x \<Rightarrow> 'x"
  m_GetTargetReference :: "'x \<Rightarrow> reference option"
  m_SetTargetReference :: "reference option \<Rightarrow> 'x \<Rightarrow> 'x"
  m_GetRootPaths :: "'x \<Rightarrow> string list"
  m_SetRootPaths :: "string list \<Rightarrow> 'x \<Rightarrow> 'x"
  m_GetCondition :: "'x \<Rightarrow> string \<Rightarrow> condition"
  m_SetConditions :: "condition list \<Rightarrow> 'x \<Rightarrow> 'x"
  m_GetOwner :: "'x \<Rightarrow> string"
  m_GetDeviceName :: "'x \<Rightarrow> string"
  m_GetEndpointGroup :: "'x \<Rightarrow> string"
  m_GetOrganization :: "'x \<Rightarrow> string"
  m_GetDeployment :: "'x \<Rightarrow> string"
  m_GetAvailabilityZone :: "'x \<Rightarrow> string"
  m_GetSpec :: "'x \<Rightarrow> config_spec"

record ('l, 'p) IFSrlConfigList =
  m_GetConfigs :: "'l \<Rightarrow> 'l \<times> 'p option list"

text \<open>\<open>var _ IFSrlConfig = &SrlConfig{}\<close> and \<open>var _ IFSrlConfigList = &SrlConfigList{}\<close>\<close>

definition SrlConfig_methods ::
  "label_keys \<Rightarrow> (condition list \<Rightarrow> string \<Rightarrow> condition) \<Rightarrow>
     (condition list \<Rightarrow> condition list \<Rightarrow> condition list) \<Rightarrow> srl_config IFSrlConfig" where
  "SrlConfig_methods K get upd = \<lparr>
     m_GetDeploymentPolicy = GetDeploymentPolicy, m_SetDeploymentPolicy = SetDeploymentPolicy,
     m_GetDeletionPolicy = GetDeletionPolicy, m_SetDeletionPolicy = SetDeletionPolicy,
     m_GetTargetReference = GetTargetReference, m_SetTargetReference = SetTargetReference,
     m_GetRootPaths = GetRootPaths, m_SetRootPaths = SetRootPaths,
     m_GetCondition = GetCondition get, m_SetConditions = SetConditions upd,
     m_GetOwner = GetOwner K, m_GetDeviceName = GetDeviceName K, m_GetEndpointGroup = GetEndpointGroup K,
     m_GetOrganization = GetOrganization K, m_GetDeployment = GetDeployment K,
     m_GetAvailabilityZone = GetAvailabilityZone K,
     m_GetSpec = GetSpec\<rparr>"

definition SrlConfigList_methods :: "(list_mem, cr_ptr) IFSrlConfigList" where
  "SrlConfigList_methods = \<lparr>m_GetConfigs = GetConfigs\<rparr>"

section \<open>Code that only knows the interface\<close>

text \<open>A setter called through the interface.\<close>

primrec write_via :: "('x, 'z) IFSrlConfig_scheme \<Rightarrow> field_write \<Rightarrow> 'x \<Rightarrow> 'x" where
  "write_via I (WDeployment b) = m_SetDeploymentPolicy I b"
| "write_via I (WDeletion r) = m_SetDeletionPolicy I r"
| "write_via I (WTarget r) = m_SetTargetReference I r"
| "write_via I (WRootPaths n) = m_SetRootPaths I n"

text \<open>What the four getters answer.\<close>

definition read_via ::
  "('x, 'z) IFSrlConfig_scheme \<Rightarrow> 'x \<Rightarrow> string \<times> string \<times> reference option \<times> string list" where
  "read_via I x = (m_GetDeploymentPolicy I x, m_GetDeletionPolicy I x, m_GetTargetReference I x, m_GetRootPaths I x)"

lemma last_of_only:
  assumes "\<forall>w \<in> set ws. sel w \<in> {None, Some v}" "\<exists>w \<in> set ws. sel w = Some v"
  shows "last_of sel ws old = v"
  using assms
proof (induction ws rule: rev_induct)
  case (snoc w ws)
  show ?case
  proof (cases "sel w")
    case None
    with snoc have "last_of sel ws old = v" by auto
    with None show ?thesis by (simp add: last_of_def)
  next
    case (Some u)
    with snoc show ?thesis by (simp add: last_of_def)
  qed
qed simp

text \<open>
  The contract: a write is seen through its own getter only, the target reference is the one of the
  spec, and a write of conditions is seen through none of the four.
\<close>

locale config_object =
  fixes I :: "('x, 'z) IFSrlConfig_scheme"
  assumes deployment: "m_GetDeploymentPolicy I (write_via I w x) =
      (case wrote_deployment w of None \<Rightarrow> m_GetDeploymentPolicy I x | Some v \<Rightarrow> v)"
    and deletion: "m_GetDeletionPolicy I (write_via I w x) =
      (case wrote_deletion w of None \<Rightarrow> m_GetDeletionPolicy I x | Some v \<Rightarrow> v)"
    and target: "m_GetTargetReference I (write_via I w x) =
      (case wrote_target w of None \<Rightarrow> m_GetTargetReference I x | Some v \<Rightarrow> v)"
    and root_paths: "m_GetRootPaths I (write_via I w x) =
      (case wrote_root_paths w of None \<Rightarrow> m_GetRootPaths I x | Some v \<Rightarrow> v)"
    and spec: "m_GetTargetReference I x = sp_TargetReference (m_GetSpec I x)"
    and conditions: "read_via I (m_SetConditions I cs x) = read_via I x"
begin

lemma read_after: "read_via I (fold (write_via I) ws x) =
    (last_of wrote_deployment ws (m_GetDeploymentPolicy I x), last_of wrote_deletion ws (m_GetDeletionPolicy I x),
     last_of wrote_target ws (m_GetTargetReference I x), last_of wrote_root_paths ws (m_GetRootPaths I x))"
  unfolding read_via_def
  by (simp only: last_of_run [where get = "m_GetDeploymentPolicy I", OF deployment]
      last_of_run [where get = "m_GetDeletionPolicy I", OF deletion]
      last_of_run [where get = "m_GetTargetReference I", OF target]
      last_of_run [where get = "m_GetRootPaths I", OF root_paths])

text \<open>Carrying the four fields of one object over to another makes them agree, in any order of the writes.\<close>

lemma carry_over:
  assumes "set ws = {WDeployment (m_GetDeploymentPolicy I y), WDeletion (m_GetDeletionPolicy I y),
      WTarget (m_GetTargetReference I y), WRootPaths (m_GetRootPaths I y)}"
  shows "read_via I (fold (write_via I) ws x) = read_via I y"
  unfolding read_after unfolding read_via_def
  by (intro arg_cong2 [where f = Pair] last_of_only) (auto simp: assms wrote_defs)

lemma spec_after: "sp_TargetReference (m_GetSpec I (fold (write_via I) ws x)) =
    last_of wrote_target ws (m_GetTargetReference I x)"
  using read_after [of ws x] by (simp add: read_via_def spec)

end

lemma write_via_SrlConfig: "write_via (SrlConfig_methods K get upd) w = apply_write w"
  by (cases w) (simp_all add: SrlConfig_methods_def)

interpretation as_object: config_object "SrlConfig_methods K get upd" for K get upd
  by unfold_locales
     (auto simp: write_via_SrlConfig read_via_def SrlConfig_methods_def wrote_defs accessor_defs GetSpec_def
        SetConditions_def split: field_write.splits)

section \<open>The resources of a list\<close>

text \<open>
  A caller that goes through \<open>GetConfigs\<close> and then writes to each resource through its interface:
  it sees its writes, and the list keeps the resources as they were.
\<close>

definition write_config :: "field_write list \<Rightarrow> cr_ptr option \<Rightarrow> list_mem \<Rightarrow> list_mem" where
  "write_config ws p m = (case Option.bind p (load m) of
      None \<Rightarrow> m
    | Some x \<Rightarrow> store_at (the p) (fold apply_write ws x) m)"

lemma write_configs:
  assumes "m_GetConfigs SrlConfigList_methods m = (m', ps)" and "p \<in> set ps"
  shows "lm_Items (write_config ws p m') = lm_Items m \<and>
    (\<exists>x \<in> set (lm_Items m). Option.bind p (load (write_config ws p m')) = Some (fold apply_write ws x) \<and>
       read_via (SrlConfig_methods K get upd) (fold apply_write ws x) =
         (last_of wrote_deployment ws (GetDeploymentPolicy x), last_of wrote_deletion ws (GetDeletionPolicy x),
          last_of wrote_target ws (GetTargetReference x), last_of wrote_root_paths ws (GetRootPaths x)))"
proof -
  have run: "m' = m\<lparr>lm_Copies := lm_Copies m @ lm_Items m\<rparr>"
    "ps = map (\<lambda>i. Some (CopyPtr (length (lm_Copies m) + i))) [0..<length (lm_Items m)]"
    using assms(1) by (simp_all add: SrlConfigList_methods_def GetConfigs_eq)
  then obtain i where i: "i < length (lm_Items m)" "p = Some (CopyPtr (length (lm_Copies m) + i))"
    using assms(2) by auto
  note after = as_object.read_after [of K get upd ws "lm_Items m ! i", unfolded write_via_SrlConfig]
  show ?thesis
    using i after by (intro conjI bexI [of _ "lm_Items m ! i"])
      (simp_all add: write_config_def run nth_append SrlConfig_methods_def)
qed

end
