(* ===== verification/Webhook.thy ===== *)
theory Webhook
  imports Api
begin

text \<open>
  The admission webhooks of \<open>SrlConfig\<close> (\<open>srlconfig_webhook.go\<close>, \<open>webhook.common.go\<close>).  The
  schema check \<open>m.NewConfigStruct(spec, false)\<close> of the \<open>cache\<close> module and \<open>error.Error()\<close> are
  parameters; the errors of \<open>apimachinery\<close> are kept as the data they are built from.
\<close>

record field_error =
  fe_Path :: string
  fe_Value :: string
  fe_Detail :: string

record invalid_error =
  ie_GroupKind :: group_kind
  ie_Name :: string
  ie_Errors :: "field_error list"

type_synonym ('s, 'e) schema_check = "bytes \<Rightarrow> bool \<Rightarrow> 'e error + 's"

definition ValidateSpec ::
  "('s, 'e) schema_check \<Rightarrow> ('e error \<Rightarrow> string) \<Rightarrow> bytes \<Rightarrow> field_error option" where
  "ValidateSpec new_struct err_text spec =
     (case new_struct spec False of
        Inl err \<Rightarrow> Some \<lparr>fe_Path = ''spec'', fe_Value = spec, fe_Detail = err_text err\<rparr>
      | Inr _ \<Rightarrow> None)"

definition webhookGK :: group_kind where
  "webhookGK = \<lparr>gk_Group = ''srl3.nddp.yndd.io'', gk_Kind = ''Srl3Device''\<rparr>"

definition ValidateCreate ::
  "('s, 'e) schema_check \<Rightarrow> ('e error \<Rightarrow> string) \<Rightarrow> srl_config \<Rightarrow> invalid_error option" where
  "ValidateCreate new_struct err_text r =
     (let allErrs = (case ValidateSpec new_struct err_text (raw_bytes r) of
                       Some err \<Rightarrow> [err] | None \<Rightarrow> [])
      in if length allErrs = 0 then None
         else Some \<lparr>ie_GroupKind = webhookGK, ie_Name = cr_Name r, ie_Errors = allErrs\<rparr>)"

definition ValidateUpdate ::
  "('s, 'e) schema_check \<Rightarrow> ('e error \<Rightarrow> string) \<Rightarrow> srl_config \<Rightarrow> srl_config \<Rightarrow> invalid_error option" where
  "ValidateUpdate new_struct err_text old r =
     (let allErrs = (case ValidateSpec new_struct err_text (raw_bytes r) of
                       Some err \<Rightarrow> [err] | None \<Rightarrow> [])
      in if length allErrs = 0 then None
         else Some \<lparr>ie_GroupKind = webhookGK, ie_Name = cr_Name r, ie_Errors = allErrs\<rparr>)"

definition ValidateDelete :: "srl_config \<Rightarrow> invalid_error option" where
  "ValidateDelete r = None"

text \<open>The defaulting webhook only logs.\<close>

definition Default :: "srl_config \<Rightarrow> srl_config" where
  "Default r = r"

section \<open>The contract of an admission check\<close>

text \<open>
  What the API server may rely on for a request that carries a new object: it is admitted exactly
  when the schema accepts its properties, and a rejection names the object and shows the rejected
  bytes with the schema's message.
\<close>

locale spec_admission =
  fixes schema :: "('s, 'e) schema_check" and err_text :: "'e error \<Rightarrow> string"
    and admit :: "srl_config \<Rightarrow> invalid_error option"
  assumes accepted: "schema (raw_bytes r) False = Inr s \<Longrightarrow> admit r = None"
    and rejected: "schema (raw_bytes r) False = Inl err \<Longrightarrow>
      admit r = Some \<lparr>ie_GroupKind = webhookGK, ie_Name = cr_Name r,
        ie_Errors = [\<lparr>fe_Path = ''spec'', fe_Value = raw_bytes r, fe_Detail = err_text err\<rparr>]\<rparr>"
begin

lemma admits_iff: "admit r = None \<longleftrightarrow> (\<exists>s. schema (raw_bytes r) False = Inr s)"
  using accepted [of r] rejected [of r] by (cases "schema (raw_bytes r) False") auto

lemma depends_on_properties:
  "cr_Name r = cr_Name r' \<Longrightarrow> raw_bytes r = raw_bytes r' \<Longrightarrow> admit r = admit r'"
  using accepted [of r] accepted [of r'] rejected [of r] rejected [of r']
  by (cases "schema (raw_bytes r) False") auto

lemma one_error: "admit r = Some ie \<Longrightarrow> \<exists>fe. ie_Errors ie = [fe] \<and> fe_Value fe = raw_bytes r"
  using accepted [of r] rejected [of r] by (cases "schema (raw_bytes r) False") auto

end

lemmas admission_defs = ValidateCreate_def ValidateUpdate_def ValidateSpec_def

interpretation create: spec_admission schema err_text "ValidateCreate schema err_text"
  for schema :: "('s, 'e) schema_check" and err_text
  by unfold_locales (simp_all add: admission_defs)

interpretation update: spec_admission schema err_text "ValidateUpdate schema err_text old"
  for schema :: "('s, 'e) schema_check" and err_text old
  by unfold_locales (simp_all add: admission_defs)

text \<open>
  C31. Creation and update are admitted under the same condition, namely that the schema accepts
  the properties; the old object plays no part (so every field may change), a rejection carries
  exactly one error, on \<open>spec\<close>, with the rejected bytes, and deletion is always admitted.
\<close>

theorem admission_uniform:
  fixes schema :: "('s, 'e) schema_check"
  shows "(ValidateCreate schema err_text r = None \<longleftrightarrow> (\<exists>s. schema (raw_bytes r) False = Inr s)) \<and>
    ValidateUpdate schema err_text old r = ValidateCreate schema err_text r \<and>
    (ValidateCreate schema err_text r \<noteq> None \<longrightarrow>
       (\<exists>ie fe. ValidateCreate schema err_text r = Some ie \<and> ie_Name ie = cr_Name r \<and>
          ie_Errors ie = [fe] \<and> fe_Path fe = ''spec'' \<and> fe_Value fe = raw_bytes r)) \<and>
    ValidateDelete r = None"
proof (cases "schema (raw_bytes r) False")
  case (Inl err)
  then show ?thesis
    using create.rejected [of schema r err err_text] update.rejected [of schema r err err_text old]
    by (simp add: ValidateDelete_def)
next
  case (Inr s)
  then show ?thesis
    using create.accepted [of schema r s err_text] update.accepted [of schema r s err_text old]
    by (simp add: ValidateDelete_def)
qed

definition demo_schema :: "(bytes, unit) schema_check" where
  "demo_schema b strict = (if take 1 b = ''{'' then Inr b else Inl (ErrExt ()))"

theorem admission_uniform_witness:
  "ValidateCreate demo_schema (\<lambda>_. ''bad'') demo_config = None \<and>
   ValidateUpdate demo_schema (\<lambda>_. ''bad'') demo_config
     (demo_config\<lparr>cr_Spec := (cr_Spec demo_config)\<lparr>sp_Properties := \<lparr>re_Raw = None, re_Object = None\<rparr>\<rparr>\<rparr>)
     \<noteq> None"
  using admission_uniform [of demo_schema "\<lambda>_. ''bad''" demo_config demo_config]
    admission_uniform [of demo_schema "\<lambda>_. ''bad''"
      "demo_config\<lparr>cr_Spec := (cr_Spec demo_config)\<lparr>sp_Properties := \<lparr>re_Raw = None, re_Object = None\<rparr>\<rparr>\<rparr>"
      demo_config]
  by (simp add: demo_schema_def demo_config_def raw_bytes_def admission_defs)

text \<open>
  A rejected object is reported under a group and a kind that are not those of the resource:
  the status error names \<open>Srl3Device\<close> of \<open>srl3.nddp.yndd.io\<close>, whatever the object.
\<close>

lemma rejection_names_other_kind:
  assumes "ValidateCreate schema err_text r = Some ie \<or> ValidateUpdate schema err_text old r = Some ie"
  shows "gk_Group (ie_GroupKind ie) \<noteq> gk_Group SrlConfigGK \<and>
    gk_Kind (ie_GroupKind ie) \<noteq> gk_Kind SrlConfigGK"
  using assms
  by (auto simp: admission_defs webhookGK_def SrlConfigGK_def Group_def SrlConfigKind_def Let_def
      split: sum.splits)

lemma rejection_names_other_kind_witness:
  "\<exists>ie. ValidateCreate (\<lambda>_ _. Inl (ErrExt ()) :: unit error + unit) (\<lambda>_. ''bad'') demo_config = Some ie \<and>
     gk_Kind (ie_GroupKind ie) \<noteq> gk_Kind SrlConfigGK"
proof -
  obtain ie where
    ie: "ValidateCreate (\<lambda>_ _. Inl (ErrExt ()) :: unit error + unit) (\<lambda>_. ''bad'') demo_config = Some ie"
    by (simp add: admission_defs)
  then show ?thesis using rejection_names_other_kind [OF disjI1 [OF ie]] by blast
qed

end
