(* ===== verification/Watcher.thy ===== *)
theory Watcher
  imports Api "HOL-Library.Char_ord" "HOL-Library.List_Lexorder"
begin

text \<open>
  \<open>internal/controllers/srl/srlconfig_watcher.go\<close>: the event handler that turns watch events into
  reconcile requests.  The work queue belongs to \<open>client-go\<close>; its \<open>Add\<close> is a parameter.
\<close>

section \<open>Requests and objects\<close>

datatype request = Request (rq_Namespace: string) (rq_Name: string)

text \<open>The dynamic type of a watched \<open>runtime.Object\<close>.\<close>

datatype runtime_object = ObjSrl srl_config | ObjOther string | ObjNil

datatype watch_event =
    CreateEvent runtime_object
  | UpdateEvent runtime_object runtime_object  \<comment> \<open>old, new\<close>
  | DeleteEvent runtime_object
  | GenericEvent runtime_object

text \<open>Requests are ordered by namespace, then by name.\<close>

instantiation request :: linorder
begin

definition less_eq_request :: "request \<Rightarrow> request \<Rightarrow> bool" where
  "less_eq_request a b \<longleftrightarrow> rq_Namespace a < rq_Namespace b \<or>
     rq_Namespace a = rq_Namespace b \<and> rq_Name a \<le> rq_Name b"

definition less_request :: "request \<Rightarrow> request \<Rightarrow> bool" where
  "less_request a b \<longleftrightarrow> rq_Namespace a < rq_Namespace b \<or>
     rq_Namespace a = rq_Namespace b \<and> rq_Name a < rq_Name b"

instance
proof
  fix x y z :: request
  show "x < y \<longleftrightarrow> x \<le> y \<and> \<not> y \<le> x"
    by (auto simp: less_request_def less_eq_request_def)
  show "x \<le> x" by (simp add: less_eq_request_def)
  show "x \<le> y \<Longrightarrow> y \<le> z \<Longrightarrow> x \<le> z"
    by (auto simp: less_eq_request_def)
  show "x \<le> y \<Longrightarrow> y \<le> x \<Longrightarrow> x = y"
    by (auto simp: less_eq_request_def intro: request.expand)
  show "x \<le> y \<or> y \<le> x"
    by (auto simp: less_eq_request_def)
qed

end

section \<open>The handler\<close>

definition add_object :: "('q \<Rightarrow> request \<Rightarrow> 'q) \<Rightarrow> runtime_object \<Rightarrow> 'q \<Rightarrow> 'q" where
  "add_object Add obj queue =
     (case obj of
        ObjSrl cr \<Rightarrow> Add queue (Request (cr_Namespace cr) (cr_Name cr))
      | _ \<Rightarrow> queue)"

definition handle_Create :: "('q \<Rightarrow> request \<Rightarrow> 'q) \<Rightarrow> runtime_object \<Rightarrow> 'q \<Rightarrow> 'q" where
  "handle_Create Add obj q = add_object Add obj q"

definition handle_Update ::
  "('q \<Rightarrow> request \<Rightarrow> 'q) \<Rightarrow> runtime_object \<times> runtime_object \<Rightarrow> 'q \<Rightarrow> 'q" where
  "handle_Update Add evt q =
     (let q1 = add_object Add (fst evt) q in add_object Add (snd evt) q1)"

definition handle_Delete :: "('q \<Rightarrow> request \<Rightarrow> 'q) \<Rightarrow> runtime_object \<Rightarrow> 'q \<Rightarrow> 'q" where
  "handle_Delete Add obj q = add_object Add obj q"

definition handle_Generic :: "('q \<Rightarrow> request \<Rightarrow> 'q) \<Rightarrow> runtime_object \<Rightarrow> 'q \<Rightarrow> 'q" where
  "handle_Generic Add obj q = add_object Add obj q"

text \<open>The controller calls the method of the event's kind.\<close>

primrec dispatch :: "('q \<Rightarrow> request \<Rightarrow> 'q) \<Rightarrow> watch_event \<Rightarrow> 'q \<Rightarrow> 'q" where
  "dispatch Add (CreateEvent x) q = handle_Create Add x q"
| "dispatch Add (UpdateEvent x y) q = handle_Update Add (x, y) q"
| "dispatch Add (DeleteEvent x) q = handle_Delete Add x q"
| "dispatch Add (GenericEvent x) q = handle_Generic Add x q"

section \<open>The contract of a handler\<close>

definition keys_of :: "runtime_object list \<Rightarrow> request list" where
  "keys_of objs = concat (map (\<lambda>obj. case obj of
     ObjSrl cr \<Rightarrow> [Request (cr_Namespace cr) (cr_Name cr)] | _ \<Rightarrow> []) objs)"

text \<open>A handler adds the keys of the \<open>SrlConfig\<close> objects of its event, in order, and nothing else.\<close>

locale event_handler =
  fixes Add :: "'q \<Rightarrow> request \<Rightarrow> 'q" and handle :: "'v \<Rightarrow> 'q \<Rightarrow> 'q" and objs :: "'v \<Rightarrow> runtime_object list"
  assumes enqueues: "handle ev q = foldl Add q (keys_of (objs ev))"
begin

lemma ignores_foreign: "keys_of (objs ev) = [] \<Longrightarrow> handle ev q = q"
  by (simp add: enqueues)

lemma run: "fold handle evs q = foldl Add q (concat (map (\<lambda>ev. keys_of (objs ev)) evs))"
  by (induction evs arbitrary: q) (simp_all add: enqueues)

lemma pending_after:
  assumes "\<And>q r. pending (Add q r) = insert r (pending q)"
  shows "pending (fold handle evs q) = pending q \<union> (\<Union>ev \<in> set evs. set (keys_of (objs ev)))"
proof -
  have "pending (foldl Add q rs) = pending q \<union> set rs" for rs
    using assms by (induction rs arbitrary: q) auto
  then show ?thesis by (simp add: run)
qed

end

lemma keys_of_simps [simp]:
  "keys_of [] = []"
  "keys_of (ObjSrl cr # os) = Request (cr_Namespace cr) (cr_Name cr) # keys_of os"
  "keys_of (ObjOther s # os) = keys_of os" "keys_of (ObjNil # os) = keys_of os"
  by (simp_all add: keys_of_def)

lemma add_object_keys: "add_object Add obj q = foldl Add q (keys_of [obj])"
  by (cases obj) (simp_all add: add_object_def)

primrec event_objects :: "watch_event \<Rightarrow> runtime_object list" where
  "event_objects (CreateEvent x) = [x]"
| "event_objects (UpdateEvent x y) = [x, y]"
| "event_objects (DeleteEvent x) = [x]"
| "event_objects (GenericEvent x) = [x]"

interpretation on_create: event_handler Add "handle_Create Add" "\<lambda>x. [x]" for Add :: "'q \<Rightarrow> request \<Rightarrow> 'q"
  by unfold_locales (simp add: handle_Create_def add_object_keys)

interpretation on_delete: event_handler Add "handle_Delete Add" "\<lambda>x. [x]" for Add :: "'q \<Rightarrow> request \<Rightarrow> 'q"
  by unfold_locales (simp add: handle_Delete_def add_object_keys)

interpretation on_generic: event_handler Add "handle_Generic Add" "\<lambda>x. [x]" for Add :: "'q \<Rightarrow> request \<Rightarrow> 'q"
  by unfold_locales (simp add: handle_Generic_def add_object_keys)

lemma keys_of_append: "keys_of (os @ os') = keys_of os @ keys_of os'"
  by (simp add: keys_of_def)

interpretation on_update: event_handler Add "handle_Update Add" "\<lambda>(x, y). [x, y]"
  for Add :: "'q \<Rightarrow> request \<Rightarrow> 'q"
proof
  fix ev :: "runtime_object \<times> runtime_object" and q :: 'q
  obtain x y where ev: "ev = (x, y)" by (cases ev)
  have "keys_of [x, y] = keys_of [x] @ keys_of [y]" using keys_of_append [of "[x]" "[y]"] by simp
  then show "handle_Update Add ev q = foldl Add q (keys_of (case ev of (x, y) \<Rightarrow> [x, y]))"
    by (simp add: ev handle_Update_def add_object_keys Let_def)
qed

interpretation on_event: event_handler Add "dispatch Add" event_objects for Add :: "'q \<Rightarrow> request \<Rightarrow> 'q"
proof
  fix ev :: watch_event and q :: 'q
  show "dispatch Add ev q = foldl Add q (keys_of (event_objects ev))"
    by (cases ev) (simp_all add: on_create.enqueues on_update.enqueues on_delete.enqueues
        on_generic.enqueues)
qed

section \<open>Properties\<close>

text \<open>
  C28. No change of an \<open>SrlConfig\<close> is lost and nothing else is enqueued: after any sequence of
  watch events, with a queue that keeps the set of added requests, exactly the requests that were
  pending and the keys of the \<open>SrlConfig\<close> objects in the events, old and new ones alike, are pending.
\<close>

theorem watch_events_enqueue:
  assumes "\<And>q r. pending (Add q r) = insert r (pending q)"
  shows "Request ns n \<in> pending (fold (dispatch Add) evs q) \<longleftrightarrow>
    Request ns n \<in> pending q \<or>
    (\<exists>ev \<in> set evs. \<exists>cr. ObjSrl cr \<in> set (event_objects ev) \<and>
       cr_Namespace cr = ns \<and> cr_Name cr = n)"
proof -
  have "Request ns n \<in> set (keys_of os) \<longleftrightarrow>
      (\<exists>cr. ObjSrl cr \<in> set os \<and> cr_Namespace cr = ns \<and> cr_Name cr = n)" for os
    by (force simp: keys_of_def split: runtime_object.splits)
  then show ?thesis using on_event.pending_after [of pending Add evs q] assms by auto
qed

definition demo_add :: "request list \<Rightarrow> request \<Rightarrow> request list" where
  "demo_add q r = List.insert r q"

theorem watch_events_enqueue_witness:
  "Request ''ndd-system'' ''int-e1-30'' \<in> set (fold (dispatch demo_add)
      [UpdateEvent (ObjSrl demo_config) (ObjOther ''Secret'')] [])"
proof -
  have "\<And>q r. set (demo_add q r) = insert r (set q)" by (simp add: demo_add_def)
  from watch_events_enqueue [where pending = set and Add = demo_add, OF this,
      of "''ndd-system''" "''int-e1-30''"
        "[UpdateEvent (ObjSrl demo_config) (ObjOther ''Secret'')]" "[]"]
  show ?thesis by (auto simp: demo_config_def)
qed

text \<open>
  A burst of events about one object is one reconcile request: with such a queue, empty at
  first, any number of updates of an \<open>SrlConfig\<close> that keep its name and namespace leave exactly
  its key pending.
\<close>

lemma updates_coalesce:
  assumes "\<And>q r. pending (Add q r) = insert r (pending q)" and "pending q = {}" and "crs \<noteq> []"
    and "\<And>a b. (a, b) \<in> set crs \<Longrightarrow> cr_Namespace a = ns \<and> cr_Name a = n \<and>
      cr_Namespace b = ns \<and> cr_Name b = n"
  shows "sorted_list_of_set (pending
      (fold (dispatch Add) (map (\<lambda>(a, b). UpdateEvent (ObjSrl a) (ObjSrl b)) crs) q)) = [Request ns n]"
proof -
  let ?evs = "map (\<lambda>(a, b). UpdateEvent (ObjSrl a) (ObjSrl b)) crs"
  have each: "set (keys_of (event_objects ev)) = {Request ns n}" if "ev \<in> set ?evs" for ev
  proof -
    from that obtain a b where ab: "(a, b) \<in> set crs" and ev: "ev = UpdateEvent (ObjSrl a) (ObjSrl b)"
      by auto
    show ?thesis using assms(4) [OF ab] by (simp add: ev)
  qed
  have "(\<Union>ev \<in> set ?evs. set (keys_of (event_objects ev))) = (\<Union>ev \<in> set ?evs. {Request ns n})"
    by (rule SUP_cong) (simp_all only: each)
  also have "\<dots> = {Request ns n}" using assms(3) by (cases crs) auto
  finally have "(\<Union>ev \<in> set ?evs. set (keys_of (event_objects ev))) = {Request ns n}" .
  then have "pending (fold (dispatch Add) ?evs q) = {Request ns n}"
    using on_event.pending_after [of pending Add ?evs q] assms(1,2) by simp
  then show ?thesis by simp
qed

lemma updates_coalesce_witness:
  "sorted_list_of_set (set (fold (dispatch demo_add)
     (map (\<lambda>(a, b). UpdateEvent (ObjSrl a) (ObjSrl b))
        [(demo_config, demo_config), (demo_config, demo_config)]) [])) =
   [Request ''ndd-system'' ''int-e1-30'']"
  by (rule updates_coalesce [where pending = set and Add = demo_add])
     (auto simp: demo_add_def demo_config_def)

end
