(* ===== verification/Diff_Paths.thy ===== *)
theory Diff_Paths
  imports Gnmi
begin

text \<open>
  \<open>internal/controllers/srl/utils.go\<close>: the clean-up of a \<open>ygot.Diff\<close> before it is reported or
  sent.  A diff names a new list entry by the path of its key leaf; \<open>validatePath\<close> cuts such a
  path back to the entry and \<open>validateNotification\<close> does it for every update and delete.  The code
  writes through the pointers it is given (\<open>p.Elem = ...\<close>, \<open>u.Path = ...\<close>, \<open>u.Val = ...\<close>), so the
  model keeps an explicit store of paths and updates; the abstract specification is a function on
  plain paths and the refinement says when the two agree.
\<close>

section \<open>The store\<close>

record upd_cell =
  c_Path :: "nat option"
  c_Val :: "typed_value option"

record heap =
  h_path :: "nat \<Rightarrow> gnmi_path"
  h_upd :: "nat \<Rightarrow> upd_cell"

record notif_ptrs =
  np_Update :: "nat option list"
  np_Delete :: "nat option list"

definition read_path :: "heap \<Rightarrow> nat option \<Rightarrow> gnmi_path option" where
  "read_path h p = map_option (h_path h) p"

definition read_update :: "heap \<Rightarrow> nat option \<Rightarrow> gnmi_update option" where
  "read_update h u = map_option
     (\<lambda>a. \<lparr>u_Path = read_path h (c_Path (h_upd h a)), u_Val = c_Val (h_upd h a)\<rparr>) u"

definition set_elem :: "nat option \<Rightarrow> path_elem option list \<Rightarrow> heap \<Rightarrow> heap" where
  "set_elem p es h = (case p of None \<Rightarrow> h
     | Some a \<Rightarrow> h\<lparr>h_path := (h_path h)(a := (h_path h a)\<lparr>p_Elem := es\<rparr>)\<rparr>)"

section \<open>The code\<close>

definition validatePath :: "nat option \<Rightarrow> heap \<Rightarrow> (bool \<times> nat option) \<times> heap" where
  "validatePath p h =
     (let es = GetElem (read_path h p); n = length es
      in if n \<le> 1 then ((False, p), h)
         else if 0 < fcard (fmdom (GetKey (es ! (n - 2)))) then
           (if fmlookup (GetKey (es ! (n - 2))) (GetName (es ! (n - 1))) \<noteq> None
            then ((True, p), set_elem p (take (n - 1) es) h)
            else ((False, p), h))
         else ((False, p), h))"

definition validate_update ::
  "nat option \<Rightarrow> heap \<times> nat option list \<Rightarrow> (heap \<times> nat option list, 'e) result" where
  "validate_update u s =
     (case u of
        None \<Rightarrow> Panic NilDereference
      | Some a \<Rightarrow>
          (let h = fst s;
               ((changed, q), h1) = validatePath (c_Path (h_upd h a)) h;
               h2 = h1\<lparr>h_upd := (h_upd h1)(a := (h_upd h1 a)\<lparr>c_Path := q\<rparr>)\<rparr>;
               h3 = (if changed
                     then h2\<lparr>h_upd := (h_upd h2)(a := (h_upd h2 a)\<lparr>c_Val := Some (JsonVal ''{}'')\<rparr>)\<rparr>
                     else h2)
           in Ok (h3, snd s @ [u])))"

definition validate_delete :: "nat option \<Rightarrow> heap \<times> nat option list \<Rightarrow> heap \<times> nat option list" where
  "validate_delete p s =
     (let ((changed, q), h1) = validatePath p (fst s) in (h1, snd s @ [q]))"

text \<open>The result is \<open>(deletes, updates)\<close>, as pointers, and the store they are read in.\<close>

definition validateNotification ::
  "notif_ptrs \<Rightarrow> heap \<Rightarrow> ((nat option list \<times> nat option list) \<times> heap, 'e) result" where
  "validateNotification n h =
     try_then (for_each validate_update (np_Update n) (h, []))
       (\<lambda>(h1, updates).
          let (h2, deletes) = fold validate_delete (np_Delete n) (h1, [])
          in Ok ((deletes, updates), h2))"

section \<open>The specification on plain paths\<close>

text \<open>The last element names a key of the list entry before it.\<close>

definition names_list_key :: "path_elem option list \<Rightarrow> bool" where
  "names_list_key es = (case rev es of
      leaf # entry # _ \<Rightarrow> GetName leaf |\<in>| fmdom (GetKey entry) | _ \<Rightarrow> False)"

definition trim_path :: "gnmi_path \<Rightarrow> gnmi_path" where
  "trim_path p = (if names_list_key (p_Elem p) then p\<lparr>p_Elem := butlast (p_Elem p)\<rparr> else p)"

definition trim_update :: "gnmi_update \<Rightarrow> gnmi_update" where
  "trim_update u =
     (if names_list_key (GetElem (u_Path u))
      then u\<lparr>u_Path := map_option trim_path (u_Path u), u_Val := Some (JsonVal ''{}'')\<rparr> else u)"

text \<open>
  No two entries of the notification share a path or an update, which holds of a freshly built
  one; and no update is nil.
\<close>

definition addrs :: "nat option list \<Rightarrow> nat list" where
  "addrs ps = concat (map (case_option [] (\<lambda>a. [a])) ps)"

definition separate :: "notif_ptrs \<Rightarrow> heap \<Rightarrow> bool" where
  "separate n h \<longleftrightarrow> None \<notin> set (np_Update n) \<and> distinct (np_Update n) \<and>
     distinct (addrs (map (\<lambda>u. c_Path (h_upd h (the u))) (np_Update n) @ np_Delete n))"

text \<open>
  In a YANG tree siblings have distinct names, so a keyed list below a list entry is never named
  like a key of that entry.
\<close>

fun yang_keys :: "path_elem option list \<Rightarrow> bool" where
  "yang_keys (a # b # es) \<longleftrightarrow>
     (fmdom (GetKey b) \<noteq> {||} \<longrightarrow> GetName b |\<notin>| fmdom (GetKey a)) \<and> yang_keys (b # es)"
| "yang_keys _ \<longleftrightarrow> True"

section \<open>Addresses and single steps\<close>

lemma addrs_simps [simp]:
  "addrs [] = []" "addrs (None # ps) = addrs ps" "addrs (Some a # ps) = a # addrs ps"
  "addrs (ps @ qs) = addrs ps @ addrs qs"
  by (simp_all add: addrs_def)

lemma set_addrs [simp]: "a \<in> set (addrs ps) \<longleftrightarrow> Some a \<in> set ps"
  by (induction ps) (auto simp: addrs_def split: option.splits)

lemma names_list_key_snoc2 [simp]:
  "names_list_key (es @ [a, b]) \<longleftrightarrow> GetName b |\<in>| fmdom (GetKey a)"
  by (simp add: names_list_key_def)

lemma names_list_key_length: "names_list_key es \<Longrightarrow> 1 < length es"
  by (cases es rule: rev_cases; cases "butlast es" rule: rev_cases)
     (auto simp: names_list_key_def)

lemma validatePath_eq:
  "validatePath p h =
     ((names_list_key (GetElem (read_path h p)), p),
      case p of None \<Rightarrow> h | Some a \<Rightarrow> h\<lparr>h_path := (h_path h)(a := trim_path (h_path h a))\<rparr>)"
proof (cases p)
  case None
  then show ?thesis by (simp add: validatePath_def read_path_def names_list_key_def)
next
  case (Some a)
  define es where "es = p_Elem (h_path h a)"
  show ?thesis
  proof (cases "1 < length es")
    case False
    then have "\<not> names_list_key es" using names_list_key_length by blast
    with False Some show ?thesis
      by (simp add: validatePath_def read_path_def es_def trim_path_def)
  next
    case True
    then obtain ys x y where es: "es = ys @ [x, y]" by (rule two_or_more_last)
    have "es ! (length es - 2) = x" "es ! (length es - Suc 0) = y"
      using nth_length_minus_2 [OF es] by auto
    moreover have "take (length es - Suc 0) es = butlast es"
      by (simp add: butlast_conv_take)
    ultimately show ?thesis
      using True Some es fmlookup_Some_nonempty [of "GetKey x" "GetName y"]
      by (auto simp: validatePath_def read_path_def es_def [symmetric] trim_path_def Let_def
          set_elem_def fmdom_notI fmdomI)
  qed
qed

section \<open>The loops in closed form\<close>

definition trim_paths :: "nat set \<Rightarrow> heap \<Rightarrow> heap" where
  "trim_paths A h = h\<lparr>h_path := (\<lambda>a. if a \<in> A then trim_path (h_path h a) else h_path h a)\<rparr>"

definition trim_cell :: "heap \<Rightarrow> nat \<Rightarrow> upd_cell" where
  "trim_cell h a = (let c = h_upd h a in
     if names_list_key (GetElem (read_path h (c_Path c))) then c\<lparr>c_Val := Some (JsonVal ''{}'')\<rparr> else c)"

definition trim_cells :: "nat set \<Rightarrow> heap \<Rightarrow> heap \<Rightarrow> heap" where
  "trim_cells A h g = g\<lparr>h_upd := (\<lambda>a. if a \<in> A then trim_cell h a else h_upd h a)\<rparr>"

abbreviation cell_paths :: "heap \<Rightarrow> nat list \<Rightarrow> nat list" where
  "cell_paths h as \<equiv> addrs (map (\<lambda>a. c_Path (h_upd h a)) as)"

lemma heap_eqI:
  "(\<And>a. h_path h a = h_path g a) \<Longrightarrow> (\<And>a. h_upd h a = h_upd g a) \<Longrightarrow> h = (g :: heap)"
  by (cases h; cases g) (simp add: fun_eq_iff)

lemma trim_select [simp]:
  "h_path (trim_paths A h) a = (if a \<in> A then trim_path (h_path h a) else h_path h a)"
  "h_upd (trim_paths A h) a = h_upd h a"
  "h_path (trim_cells B h g) a = h_path g a"
  "h_upd (trim_cells B h g) a = (if a \<in> B then trim_cell h a else h_upd h a)"
  by (simp_all add: trim_paths_def trim_cells_def)

lemma validate_delete_eq:
  "validate_delete p (h, ds) = (trim_paths (set (addrs [p])) h, ds @ [p])"
  by (cases p) (auto simp: validate_delete_def validatePath_eq trim_paths_def fun_eq_iff)

lemma validate_update_eq:
  "validate_update (Some a) (h, us) =
     Ok (trim_cells {a} h (trim_paths (set (cell_paths h [a])) h), us @ [Some a])"
  by (cases "c_Path (h_upd h a)")
     (auto simp: validate_update_def validatePath_eq trim_paths_def trim_cells_def trim_cell_def
        fun_eq_iff Let_def read_path_def)

lemma validate_update_nil: "validate_update None s = Panic NilDereference"
  by (simp add: validate_update_def)

lemma trim_paths_compose:
  "A \<inter> B = {} \<Longrightarrow> trim_paths A (trim_paths B h) = trim_paths (A \<union> B) h"
  by (rule heap_eqI) auto

lemma validate_deletes_eq:
  "distinct (addrs ps) \<Longrightarrow>
     fold validate_delete ps (h, ds) = (trim_paths (set (addrs ps)) h, ds @ ps)"
proof (induction ps arbitrary: h ds)
  case Nil
  then show ?case by (simp add: trim_paths_def)
next
  case (Cons p ps)
  have "set (addrs ps) \<inter> set (addrs [p]) = {}"
    using Cons.prems by (cases p) (auto simp del: set_addrs)
  moreover have "set (addrs (p # ps)) = set (addrs ps) \<union> set (addrs [p])"
    by (cases p) (auto simp del: set_addrs)
  ultimately show ?case
    using Cons by (cases p) (simp_all add: validate_delete_eq trim_paths_compose del: set_addrs)
qed

lemma trim_cell_frame:
  "b \<noteq> a \<Longrightarrow> set (addrs [c_Path (h_upd h b)]) \<inter> A = {} \<Longrightarrow>
     trim_cell (trim_cells {a} h (trim_paths A h)) b = trim_cell h b"
  by (cases "c_Path (h_upd h b)")
     (auto simp: trim_cell_def trim_cells_def trim_paths_def read_path_def Let_def)

lemma validate_updates_eq:
  "distinct as \<Longrightarrow> distinct (cell_paths h as) \<Longrightarrow>
     for_each validate_update (map Some as) (h, us) =
       (Ok (trim_cells (set as) h (trim_paths (set (cell_paths h as)) h), us @ map Some as)
         :: (heap \<times> nat option list, 'e) result)"
proof (induction as arbitrary: h us)
  case Nil
  then show ?case by (simp add: trim_paths_def trim_cells_def)
next
  case (Cons a as)
  let ?A = "set (cell_paths h [a])"
  let ?g = "trim_cells {a} h (trim_paths ?A h)"
  have notin: "a \<notin> set as" using Cons.prems by simp
  have disj: "set (cell_paths h as) \<inter> ?A = {}"
    using Cons.prems by (cases "c_Path (h_upd h a)") (auto simp del: set_addrs)
  have paths: "map (\<lambda>b. c_Path (h_upd ?g b)) as = map (\<lambda>b. c_Path (h_upd h b)) as"
    using notin by (auto simp: trim_cells_def)
  have cells: "trim_cell ?g b = trim_cell h b" if "b \<in> set as" for b
  proof (rule trim_cell_frame)
    show "b \<noteq> a" using that notin by auto
    have "set (addrs [c_Path (h_upd h b)]) \<subseteq> set (cell_paths h as)"
      using that by (cases "c_Path (h_upd h b)") (auto simp: image_iff intro: rev_bexI)
    with disj show "set (addrs [c_Path (h_upd h b)]) \<inter> ?A = {}" by blast
  qed
  have union: "set (cell_paths h (a # as)) = set (cell_paths h as) \<union> ?A"
    by (cases "c_Path (h_upd h a)") (auto simp del: set_addrs)
  have same: "cell_paths ?g as = cell_paths h as" by (simp only: paths)
  have "distinct (cell_paths h as)"
    using Cons.prems by (cases "c_Path (h_upd h a)") simp_all
  then have "for_each validate_update (map Some (a # as)) (h, us) =
      (Ok (trim_cells (set as) ?g (trim_paths (set (cell_paths h as)) ?g), us @ map Some (a # as))
        :: (heap \<times> nat option list, 'e) result)"
    using Cons.IH [of ?g "us @ [Some a]", unfolded same] Cons.prems
    by (simp add: validate_update_eq same del: set_addrs)
  moreover have "trim_cells (set as) ?g (trim_paths (set (cell_paths h as)) ?g) =
      trim_cells (set (a # as)) h (trim_paths (set (cell_paths h (a # as))) h)"
    using cells notin disj unfolding union same
    by (intro heap_eqI) (auto simp del: set_addrs)
  ultimately show ?case by simp
qed

section \<open>The contract the validator relies on\<close>

text \<open>
  What \<open>GetCrSpecDiff\<close> and \<open>GetCrActualDiff\<close> need of the clean-up: it hands back the entries of
  the diff, as the same pointers in the same order, and fails only on a nil update.
\<close>

locale diff_filter =
  fixes run :: "notif_ptrs \<Rightarrow> heap \<Rightarrow> ((nat option list \<times> nat option list) \<times> heap, 'e) result"
  assumes returns: "None \<notin> set (np_Update n) \<Longrightarrow> \<exists>g. run n h = Ok ((np_Delete n, np_Update n), g)"
    and nil_update: "None \<in> set (np_Update n) \<Longrightarrow> run n h = Panic NilDereference"
begin

lemma never_Err: "run n h \<noteq> Err e"
  using returns [of n h] nil_update [of n h] by (cases "None \<in> set (np_Update n)") auto

lemma same_entries: "run n h = Ok ((ds, us), g) \<Longrightarrow> ds = np_Delete n \<and> us = np_Update n"
  using returns [of n h] nil_update [of n h] by (cases "None \<in> set (np_Update n)") auto

lemma empty_iff:
  "run n h = Ok ((ds, us), g) \<Longrightarrow>
     (length ds = 0 \<and> length us = 0) = (np_Delete n = [] \<and> np_Update n = [])"
  by (auto dest: same_entries)

lemma Panic_iff: "run n h = Panic p \<longleftrightarrow> p = NilDereference \<and> None \<in> set (np_Update n)"
  using returns [of n h] nil_update [of n h] by (cases "None \<in> set (np_Update n)") auto

end

lemma validate_deletes_entries: "snd (fold validate_delete ps (h, ds)) = ds @ ps"
  by (induction ps arbitrary: h ds) (simp_all add: validate_delete_eq)

lemma validate_updates_returns:
  "None \<notin> set us \<Longrightarrow> \<exists>g. for_each validate_update us (h, acc) =
     (Ok (g, acc @ us) :: (heap \<times> nat option list, 'e) result)"
proof (induction us arbitrary: h acc)
  case Nil
  then show ?case by simp
next
  case (Cons u us)
  then obtain a where u: "u = Some a" by (cases u) auto
  then obtain k where
    k: "validate_update u (h, acc) = (Ok (k, acc @ [u]) :: (heap \<times> nat option list, 'e) result)"
    by (simp add: validate_update_eq)
  show ?case using Cons.IH [of k "acc @ [u]"] Cons.prems k by auto
qed

lemma validate_updates_nil:
  "None \<in> set us \<Longrightarrow> for_each validate_update us (h, acc) = Panic NilDereference"
proof (induction us arbitrary: h acc)
  case Nil
  then show ?case by simp
next
  case (Cons u us)
  then show ?case by (cases u) (simp_all add: validate_update_eq validate_update_nil)
qed

interpretation diff: diff_filter
  "validateNotification :: notif_ptrs \<Rightarrow> heap \<Rightarrow> ((nat option list \<times> nat option list) \<times> heap, 'e) result"
proof
  fix n :: notif_ptrs and h
  assume "None \<notin> set (np_Update n)"
  from validate_updates_returns [OF this, of h "[]"]
  obtain g where "for_each validate_update (np_Update n) (h, []) =
      (Ok (g, np_Update n) :: (heap \<times> nat option list, 'e) result)" by auto
  then show "\<exists>g. validateNotification n h =
      (Ok ((np_Delete n, np_Update n), g) :: ((nat option list \<times> nat option list) \<times> heap, 'e) result)"
    using validate_deletes_entries [of "np_Delete n" g "[]"]
    by (cases "fold validate_delete (np_Delete n) (g, [])") (auto simp: validateNotification_def)
next
  fix n :: notif_ptrs and h
  assume "None \<in> set (np_Update n)"
  then show "validateNotification n h =
      (Panic NilDereference :: ((nat option list \<times> nat option list) \<times> heap, 'e) result)"
    by (simp add: validateNotification_def validate_updates_nil)
qed

section \<open>Properties\<close>

lemma map_Some_the: "None \<notin> set us \<Longrightarrow> us = map Some (map the us)"
  by (induction us) (auto split: option.splits)

lemma separate_cases:
  assumes "separate n h"
  obtains as where "np_Update n = map Some as" "distinct as" "distinct (cell_paths h as)"
    "distinct (addrs (np_Delete n))" "set (cell_paths h as) \<inter> set (addrs (np_Delete n)) = {}"
proof -
  let ?as = "map the (np_Update n)"
  have us: "np_Update n = map Some ?as"
    using assms map_Some_the by (auto simp: separate_def)
  moreover have "distinct ?as"
    using assms us distinct_map [of Some ?as] by (simp add: separate_def)
  moreover have "distinct (cell_paths h ?as @ addrs (np_Delete n))"
    using assms by (simp add: separate_def comp_def addrs_def)
  ultimately show thesis
    using that [of ?as] unfolding distinct_append by blast
qed

lemma validateNotification_separate:
  assumes "np_Update n = map Some as" "distinct as" "distinct (cell_paths h as)"
    "distinct (addrs (np_Delete n))" "set (cell_paths h as) \<inter> set (addrs (np_Delete n)) = {}"
  shows "validateNotification n h = Ok ((np_Delete n, np_Update n),
     trim_cells (set as) h (trim_paths (set (cell_paths h as) \<union> set (addrs (np_Delete n))) h))"
proof -
  have "trim_paths (set (addrs (np_Delete n))) (trim_cells (set as) h (trim_paths (set (cell_paths h as)) h))
      = trim_cells (set as) h (trim_paths (set (cell_paths h as) \<union> set (addrs (np_Delete n))) h)"
    using assms(5) by (intro heap_eqI) (auto simp del: set_addrs)
  then show ?thesis
    using assms
    by (simp add: validateNotification_def validate_updates_eq validate_deletes_eq del: set_addrs)
qed

lemma validateNotification_reads:
  assumes "separate n h"
  obtains g where "validateNotification n h = (Ok ((np_Delete n, np_Update n), g)
      :: ((nat option list \<times> nat option list) \<times> heap, 'e) result)"
    "map (read_path g) (np_Delete n) = map (\<lambda>p. map_option trim_path (read_path h p)) (np_Delete n)"
    "map (read_update g) (np_Update n) =
       map (\<lambda>u. map_option trim_update (read_update h u)) (np_Update n)"
proof -
  obtain as where as: "np_Update n = map Some as" "distinct as" "distinct (cell_paths h as)"
    "distinct (addrs (np_Delete n))" "set (cell_paths h as) \<inter> set (addrs (np_Delete n)) = {}"
    using assms by (rule separate_cases)
  let ?g = "trim_cells (set as) h (trim_paths (set (cell_paths h as) \<union> set (addrs (np_Delete n))) h)"
  have "read_path ?g p = map_option trim_path (read_path h p)" if "p \<in> set (np_Delete n)" for p
    using that by - (cases p; auto simp: read_path_def)
  moreover have "read_update ?g (Some a) = map_option trim_update (read_update h (Some a))"
    if "a \<in> set as" for a
    using that by (cases "c_Path (h_upd h a)")
      (auto simp: read_update_def read_path_def trim_update_def trim_cell_def trim_path_def Let_def
        intro: rev_image_eqI)
  ultimately show thesis
    using that validateNotification_separate [OF as, where 'a = 'e] as(1) by auto
qed

text \<open>
  C1. On a diff whose updates and paths are not shared, \<open>validateNotification\<close> returns the diff's
  own deletes and updates, and what is read through them afterwards is the specification applied
  to what was read before: a path that ends in a key of its list entry is cut back to the entry,
  an update so cut carries the empty JSON object, and every other entry is as it was.
\<close>

theorem validateNotification_refines:
  assumes "separate n h"
  shows "\<exists>g. validateNotification n h = Ok ((np_Delete n, np_Update n), g) \<and>
     map (read_path g) (np_Delete n) =
       map (\<lambda>p. map_option trim_path (read_path h p)) (np_Delete n) \<and>
     map (read_update g) (np_Update n) =
       map (\<lambda>u. map_option trim_update (read_update h u)) (np_Update n)"
  using validateNotification_reads [OF assms] by metis

text \<open>A diff with one created list entry and one deleted leaf.\<close>

definition demo_entry :: "path_elem option" where
  "demo_entry = Some \<lparr>pe_Name = ''interface'', pe_Key = fmupd ''name'' ''ethernet-1/1'' fmempty\<rparr>"

definition demo_leaf :: "string \<Rightarrow> path_elem option" where
  "demo_leaf s = Some \<lparr>pe_Name = s, pe_Key = fmempty\<rparr>"

definition demo_heap :: heap where
  "demo_heap = \<lparr>h_path = (\<lambda>_. empty_path)
       (0 := empty_path\<lparr>p_Elem := [demo_entry, demo_leaf ''name'']\<rparr>,
        1 := empty_path\<lparr>p_Elem := [demo_entry, demo_leaf ''mtu'']\<rparr>),
     h_upd = (\<lambda>_. \<lparr>c_Path = Some 0, c_Val = Some (StringVal ''ethernet-1/1'')\<rparr>)\<rparr>"

definition demo_notif :: notif_ptrs where
  "demo_notif = \<lparr>np_Update = [Some 0], np_Delete = [Some 1]\<rparr>"

lemmas demo_diff_defs = demo_entry_def demo_leaf_def demo_heap_def demo_notif_def empty_path_def

lemma demo_separate: "separate demo_notif demo_heap"
  by (simp add: separate_def demo_diff_defs)

theorem validateNotification_refines_witness:
  "\<exists>g. validateNotification demo_notif demo_heap = (Ok ((np_Delete demo_notif, np_Update demo_notif), g)
      :: ((nat option list \<times> nat option list) \<times> heap, unit) result) \<and>
     map (read_path g) (np_Delete demo_notif) =
       [Some (empty_path\<lparr>p_Elem := [demo_entry, demo_leaf ''mtu'']\<rparr>)] \<and>
     map (read_update g) (np_Update demo_notif) =
       [Some \<lparr>u_Path = Some (empty_path\<lparr>p_Elem := [demo_entry]\<rparr>), u_Val = Some (JsonVal ''{}'')\<rparr>]"
  using validateNotification_refines [OF demo_separate, where 'a = unit]
  by (simp add: read_path_def read_update_def trim_update_def trim_path_def names_list_key_def
      demo_diff_defs)

text \<open>
  Whatever the sharing between its entries, \<open>validateNotification\<close> drops, adds and reorders
  nothing: it returns the pointers of the diff, never an error, and it panics exactly when one of
  the updates is a nil pointer.  So a caller may take an empty result for an empty diff.
\<close>

lemma validateNotification_entries:
  "(if None \<in> set (np_Update n)
    then validateNotification n h = (Panic NilDereference
       :: ((nat option list \<times> nat option list) \<times> heap, 'e) result)
    else \<exists>g. validateNotification n h = (Ok ((np_Delete n, np_Update n), g)
       :: ((nat option list \<times> nat option list) \<times> heap, 'e) result))"
  using diff.returns [of n h] diff.nil_update [of n h] by auto

lemma yang_keys_suffix: "yang_keys (xs @ ys) \<Longrightarrow> yang_keys ys"
proof (induction xs)
  case Nil
  then show ?case by simp
next
  case (Cons x xs)
  then show ?case by (cases "xs @ ys") auto
qed

lemma trim_path_canonical:
  assumes "yang_keys (p_Elem p)"
  shows "\<not> names_list_key (p_Elem (trim_path p))"
proof (cases "names_list_key (p_Elem p)")
  case False
  then show ?thesis by (simp add: trim_path_def)
next
  case True
  then obtain ys a b where es: "p_Elem p = ys @ [a, b]"
    using names_list_key_length two_or_more_last by metis
  with True have keys: "fmdom (GetKey a) \<noteq> {||}" by auto
  show ?thesis
  proof (cases ys rule: rev_cases)
    case Nil
    then show ?thesis using True es by (simp add: trim_path_def names_list_key_def)
  next
    case (snoc zs c)
    then have "yang_keys ([c, a, b])"
      using assms es yang_keys_suffix [of zs "[c, a, b]"] by simp
    then show ?thesis
      using True es snoc keys names_list_key_snoc2 [of zs c a]
      by (simp add: trim_path_def butlast_append)
  qed
qed

lemma trim_path_idem: "yang_keys (p_Elem p) \<Longrightarrow> trim_path (trim_path p) = trim_path p"
  using trim_path_canonical [of p] by (simp add: trim_path_def [of "trim_path p"])

text \<open>
  C21. Once is enough: on the paths of a YANG schema a second pass over a cleaned diff changes
  nothing, although each pass removes at most one element of a path.
\<close>

theorem validateNotification_idempotent:
  assumes "separate n h" and yang: "\<And>a. yang_keys (p_Elem (h_path h a))"
    and run: "validateNotification n h = (Ok (r, g)
      :: ((nat option list \<times> nat option list) \<times> heap, 'e) result)"
  shows "validateNotification n g = (Ok (r, g)
      :: ((nat option list \<times> nat option list) \<times> heap, 'e) result)"
proof -
  obtain as where as: "np_Update n = map Some as" "distinct as" "distinct (cell_paths h as)"
    "distinct (addrs (np_Delete n))" "set (cell_paths h as) \<inter> set (addrs (np_Delete n)) = {}"
    using assms(1) by (rule separate_cases)
  let ?P = "set (cell_paths h as) \<union> set (addrs (np_Delete n))"
  have r: "r = (np_Delete n, np_Update n)" and g: "g = trim_cells (set as) h (trim_paths ?P h)"
    using run validateNotification_separate [OF as, where 'a = 'e] by simp_all
  have paths: "c_Path (h_upd g a) = c_Path (h_upd h a)" for a
    by (simp add: g trim_cell_def Let_def)
  then have same: "cell_paths g as = cell_paths h as" by simp
  have cells: "trim_cell g a = h_upd g a" if "a \<in> set as" for a
  proof (cases "c_Path (h_upd h a)")
    case None
    then show ?thesis using paths by (simp add: trim_cell_def read_path_def names_list_key_def)
  next
    case (Some b)
    then have "b \<in> ?P" using that by (auto intro: rev_image_eqI)
    then have "h_path g b = trim_path (h_path h b)" by (simp add: g del: set_addrs)
    then show ?thesis
      using Some paths trim_path_canonical [OF yang [of b]] by (simp add: trim_cell_def read_path_def)
  qed
  have "trim_cells (set as) g (trim_paths ?P g) = g"
    using cells by (intro heap_eqI) (auto simp: g trim_path_idem [OF yang] simp del: set_addrs)
  then show ?thesis
    using validateNotification_separate [of n as g, where 'a = 'e] as by (simp add: same r del: set_addrs)
qed

theorem validateNotification_idempotent_witness:
  "\<exists>r g. validateNotification demo_notif demo_heap = (Ok (r, g)
      :: ((nat option list \<times> nat option list) \<times> heap, unit) result) \<and>
     g \<noteq> demo_heap \<and>
     validateNotification demo_notif g = (Ok (r, g)
      :: ((nat option list \<times> nat option list) \<times> heap, unit) result)"
proof -
  obtain g where g: "validateNotification demo_notif demo_heap =
      (Ok ((np_Delete demo_notif, np_Update demo_notif), g)
        :: ((nat option list \<times> nat option list) \<times> heap, unit) result)"
    and p: "h_path g 0 \<noteq> h_path demo_heap 0"
    by (simp add: validateNotification_def validate_update_def validate_delete_eq validatePath_eq
        read_path_def names_list_key_def trim_path_def demo_diff_defs)
  have "yang_keys (p_Elem (h_path demo_heap a))" for a
    by (simp add: demo_diff_defs)
  from validateNotification_idempotent [OF demo_separate this g] g p show ?thesis by metis
qed

end
