(* ===== verification/Externals.thy ===== *)
theory Externals
  imports Api Diff_Paths Json_Compact
begin

text \<open>
  The code outside the repository that \<open>internal/controllers/srl\<close> calls, as records of functions
  that every definition takes as its first argument: path and value conversion, the schema model of
  the devices with the \<open>ygot\<close> operations on its structs, and the gNMI client.  A fallible call
  answers \<open>Inl\<close> of its error or \<open>Inr\<close> of its value.  Nothing is assumed of these functions here; what
  a theorem needs of them is a hypothesis of that theorem.
\<close>

section \<open>System cache data\<close>

text \<open>\<open>ygotnddp\<close>: the entry the reconciler keeps for a resource in the system cache.\<close>

datatype resource_action = Action_CREATE | Action_UPDATE | Action_DELETE | Action_Other int

datatype resource_status = Status_PENDING | Status_FAILED | Status_Other int

record gvk_update =
  gu_Path :: "string option"
  gu_Value :: "string option"

record gvk =
  gvk_Name :: "string option"
  gvk_Action :: resource_action
  gvk_Path :: "string list"
  gvk_Status :: resource_status
  gvk_Reason :: "string option"
  gvk_Spec :: "string option"
  gvk_Delete :: "string list"
  gvk_Update :: "(string, gvk_update) fmap"
  gvk_Attempt :: "32 word option"

record system_cache =
  sc_Exhausted :: "int option"

text \<open>\<open>*ygotnddp.Device\<close>; its \<open>Cache\<close> is a pointer, its \<open>Gvk\<close> a map of pointers.\<close>

record system_device =
  sd_Cache :: "system_cache option"
  sd_Gvk :: "(string, gvk option) fmap"

section \<open>External functions\<close>

record 'e gvk_env =
  GnmiPath2XPath :: "gnmi_path option \<Rightarrow> bool \<Rightarrow> string"    \<comment> \<open>\<open>yparser\<close>\<close>
  GetValue :: "typed_value option \<Rightarrow> 'e error + goval"       \<comment> \<open>\<open>yparser\<close>\<close>
  GetGvkName :: "managed \<Rightarrow> string"                           \<comment> \<open>\<open>gvkresource\<close>\<close>
  EmitGvk :: "gvk \<Rightarrow> 'e error + string"                       \<comment> \<open>\<open>ygot.EmitJSON\<close>, RFC 7951\<close>
  RawMarshalJSON :: "raw_extension \<Rightarrow> 'e error + bytes"       \<comment> \<open>\<open>runtime.RawExtension\<close>\<close>

datatype merge_opt = MergeOverwriteExistingFields
datatype validation_opt = LeafrefOptions bool \<comment> \<open>\<open>IgnoreMissingData\<close>\<close>

text \<open>\<open>'s\<close> is the type of generated config structs, \<open>'r\<close> that of the root path hierarchy.\<close>

record ('s, 'r, 'e) model_env = "'e gvk_env" +
  NewConfigStruct :: "bytes \<Rightarrow> bool \<Rightarrow> 'e error + 's"
  JsonUnmarshaler :: "bytes \<Rightarrow> 'e error + 's"
  Validate :: "'s \<Rightarrow> validation_opt list \<Rightarrow> 'e error option"
  error_text :: "'e error \<Rightarrow> string"
  MergeStructInto :: "'s \<Rightarrow> 's \<Rightarrow> merge_opt list \<Rightarrow> 'e error + 's"   \<comment> \<open>the new destination\<close>
  DeepCopy :: "'s \<Rightarrow> 'e error + 's"
  is_device :: "'s \<Rightarrow> bool"                              \<comment> \<open>is it an \<open>*ygotsrl.Device\<close>?\<close>
  Diff :: "'s \<Rightarrow> 's \<Rightarrow> 'e error + notif_ptrs \<times> heap"       \<comment> \<open>with \<open>MapToSinglePath\<close>\<close>
  TogNMINotifications :: "'s \<Rightarrow> int \<Rightarrow> 'e error + notification option list" \<comment> \<open>\<open>UsePathElem\<close>\<close>
  DeleteNode :: "'s \<Rightarrow> gnmi_path option \<Rightarrow> 'e error + 's"
  PruneEmptyBranches :: "'s \<Rightarrow> 's"
  CreateRootConfigElement :: 'r
  AddUpdatePath :: "'r \<Rightarrow> gnmi_path option \<Rightarrow> typed_value option \<Rightarrow> 'r"
    \<comment> \<open>\<open>rp.Add(rootpaths.GetPathAndSchemaEntry(schema, path), val)\<close>\<close>
  HierarchyFromGnmiUpdate :: "notification option \<Rightarrow> 'r"
  HierarchyRootPaths :: "'r \<Rightarrow> gnmi_path option list"

text \<open>\<open>'w\<close> is the state of everything behind the gNMI connection.\<close>

record ('s, 'r, 'w, 'e) client_env = "('s, 'r, 'e) model_env" +
  GetNamespacedName :: "string \<Rightarrow> string \<Rightarrow> string"
  origin_System :: string
  origin_Config :: string
  client_Set :: "'w \<Rightarrow> set_request \<Rightarrow> 'e error option \<times> 'w"
  client_Get :: "'w \<Rightarrow> get_request \<Rightarrow> (get_response option \<times> 'e error option) \<times> 'w"
  client_Close :: "'w \<Rightarrow> 'w"
  status_FromError :: "'e error \<Rightarrow> grpc_code \<times> bool"
  SystemConfigStruct :: "bytes \<Rightarrow> bool \<Rightarrow> 'e error + 's"
  as_system_device :: "'s \<Rightarrow> system_device option"

text \<open>A fallible call outside the repository, as an outcome of the code that makes it.\<close>

primrec ext :: "'e error + 'a \<Rightarrow> ('a, 'e) result" where
  "ext (Inl e) = Err e"
| "ext (Inr a) = Ok a"

lemma ext_simps [simp]:
  "ext r = Ok a \<longleftrightarrow> r = Inr a" "ext r = Err e \<longleftrightarrow> r = Inl e" "ext r \<noteq> Panic p"
  by (cases r; simp)+

section \<open>Errors\<close>

definition errUnexpectedDevice :: string where
  "errUnexpectedDevice = ''the managed resource is not a Device resource''"
definition errCreateDevice :: string where "errCreateDevice = ''cannot create Device''"
definition errUpdateDevice :: string where "errUpdateDevice = ''cannot update Device''"
definition errDeleteDevice :: string where "errDeleteDevice = ''cannot delete Device''"
definition errTrackTCUsage :: string where "errTrackTCUsage = ''cannot track TargetConfig usage''"
definition errGetTarget :: string where "errGetTarget = ''cannot get Target''"
definition errNewClient :: string where "errNewClient = ''cannot create new client''"
definition errJSONMarshal :: string where "errJSONMarshal = ''cannot marshal JSON object''"

lemmas err_defs = errUnexpectedDevice_def errCreateDevice_def errUpdateDevice_def
  errDeleteDevice_def errTrackTCUsage_def errGetTarget_def errNewClient_def errJSONMarshal_def

text \<open>\<open>cr, ok := mg.(*SrlConfig); if !ok { return errors.New(errUnexpectedDevice) }\<close>\<close>

definition expect_SrlConfig :: "managed \<Rightarrow> (srl_config, 'e) result" where
  "expect_SrlConfig mg = (case as_SrlConfig mg of
      None \<Rightarrow> Err (ErrNew errUnexpectedDevice) | Some cr \<Rightarrow> Ok cr)"

lemma expect_SrlConfig_simps [simp]:
  "expect_SrlConfig (ManagedSrl cr) = Ok cr"
  "expect_SrlConfig (ManagedOther m) = Err (ErrNew errUnexpectedDevice)"
  by (simp_all add: expect_SrlConfig_def)

text \<open>
  An operation of the \<open>managed\<close> reconciler that insists on the resource being an \<open>SrlConfig\<close>:
  for any other resource it returns the one error and does nothing else.
\<close>

locale device_operation =
  fixes op :: "managed \<Rightarrow> ('a, 'e) result"
  assumes foreign: "as_SrlConfig mg = None \<Longrightarrow> op mg = Err (ErrNew errUnexpectedDevice)"
begin

lemma returns_device: "op mg = Ok a \<Longrightarrow> \<exists>cr. mg = ManagedSrl cr"
  using foreign [of mg] by (cases mg) auto

lemma panics_device: "op mg = Panic p \<Longrightarrow> \<exists>cr. mg = ManagedSrl cr"
  using foreign [of mg] by (cases mg) auto

end

end
