(* ===== verification/Demo_Env.thy ===== *)
theory Demo_Env
  imports Externals
begin

text \<open>
  One concrete instance of the external functions, small enough to compute with, in which the
  witnesses of the development evaluate: a device configuration has at most one leaf, and the worker
  keeps the bytes of the last value set under each path element key and can be down.
\<close>

datatype demo_struct = DConf "string option" | DSys system_device

text \<open>\<open>{}\<close> is the empty configuration; other JSON objects are the value of the one leaf.\<close>

definition demo_parse :: "bytes \<Rightarrow> bool \<Rightarrow> unit error + demo_struct" where
  "demo_parse b strict =
     (if b = ''{}'' then Inr (DConf None)
      else if take 1 b = ''{'' then Inr (DConf (Some b)) else Inl (ErrExt ()))"

fun demo_merge :: "demo_struct \<Rightarrow> demo_struct \<Rightarrow> merge_opt list \<Rightarrow> unit error + demo_struct" where
  "demo_merge (DConf d) (DConf None) opts = Inr (DConf d)"
| "demo_merge (DConf None) (DConf (Some y)) opts = Inr (DConf (Some y))"
| "demo_merge (DConf (Some x)) (DConf (Some y)) opts =
     (if x = y \<or> opts \<noteq> [] then Inr (DConf (Some y)) else Inl (ErrExt ()))"
| "demo_merge _ _ opts = Inl (ErrExt ())"

definition demo_leaf_path :: gnmi_path where
  "demo_leaf_path = empty_path\<lparr>p_Elem := [Some \<lparr>pe_Name = ''leaf'', pe_Key = fmempty\<rparr>]\<rparr>"

definition demo_diff_heap :: "string \<Rightarrow> heap" where
  "demo_diff_heap v = \<lparr>h_path = (\<lambda>_. demo_leaf_path),
     h_upd = (\<lambda>_. \<lparr>c_Path = Some 0, c_Val = Some (StringVal v)\<rparr>)\<rparr>"

fun demo_diff :: "demo_struct \<Rightarrow> demo_struct \<Rightarrow> unit error + notif_ptrs \<times> heap" where
  "demo_diff (DConf a) (DConf b) =
     (if a = b then Inr (\<lparr>np_Update = [], np_Delete = []\<rparr>, demo_diff_heap [])
      else case b of
        Some v \<Rightarrow> Inr (\<lparr>np_Update = [Some 0], np_Delete = []\<rparr>, demo_diff_heap v)
      | None \<Rightarrow> Inr (\<lparr>np_Update = [], np_Delete = [Some 1]\<rparr>, demo_diff_heap []))"
| "demo_diff _ _ = Inl (ErrExt ())"

fun demo_notifications :: "demo_struct \<Rightarrow> int \<Rightarrow> unit error + notification option list" where
  "demo_notifications (DConf None) t = Inr [Some \<lparr>n_Timestamp = t, n_Update = [], n_Delete = []\<rparr>]"
| "demo_notifications (DConf (Some v)) t =
     Inr [Some \<lparr>n_Timestamp = t, n_Update = [Some \<lparr>u_Path = Some demo_leaf_path,
       u_Val = Some (StringVal v)\<rparr>], n_Delete = []\<rparr>]"
| "demo_notifications _ t = Inl (ErrExt ())"

definition demo_xpath :: "gnmi_path option \<Rightarrow> bool \<Rightarrow> string" where
  "demo_xpath p keys = concat (map (\<lambda>e. CHR 0x2F # GetName e) (GetElem p))"

fun demo_value :: "typed_value option \<Rightarrow> unit error + goval" where
  "demo_value (Some (StringVal s)) = Inr (GString s)"
| "demo_value (Some (JsonVal b)) = (if b = ''{}'' then Inr (GMap []) else Inr (GString b))"
| "demo_value None = Inr GNil"
| "demo_value _ = Inl (ErrExt ())"

section \<open>The worker\<close>

record demo_world =
  dw_down :: bool
  dw_log :: "set_request list"
  dw_config :: "typed_value option"
  dw_system :: "typed_value option"

definition demo_set :: "demo_world \<Rightarrow> set_request \<Rightarrow> unit error option \<times> demo_world" where
  "demo_set w req = (if dw_down w then (Some (ErrExt ()), w)
     else (None, w\<lparr>dw_log := dw_log w @ [req],
       dw_system := (case sr_Replace req of [u] \<Rightarrow> GetVal u | _ \<Rightarrow> None)\<rparr>))"

definition demo_get ::
  "demo_world \<Rightarrow> get_request \<Rightarrow> (get_response option \<times> unit error option) \<times> demo_world" where
  "demo_get w req = (if dw_down w then ((None, Some (ErrExt ())), w)
     else ((Some \<lparr>rsp_Notification = [Some \<lparr>n_Timestamp = 0, n_Update =
         [Some \<lparr>u_Path = None, u_Val =
           (if map_option p_Origin (gr_Prefix req) = Some ''system'' then dw_system w
            else dw_config w)\<rparr>], n_Delete = []\<rparr>]\<rparr>, None), w))"

definition demo_device :: system_device where
  "demo_device = \<lparr>sd_Cache = Some \<lparr>sc_Exhausted = Some 0\<rparr>, sd_Gvk = fmempty\<rparr>"

definition demo_entry_of :: "string \<Rightarrow> gvk" where
  "demo_entry_of spec = \<lparr>gvk_Name = Some ''gvk'', gvk_Action = Action_CREATE, gvk_Path = [],
     gvk_Status = Status_PENDING, gvk_Reason = Some [], gvk_Spec = Some spec, gvk_Delete = [],
     gvk_Update = fmempty, gvk_Attempt = Some 0\<rparr>"

text \<open>The emitted entry is its spec; a marshalled spec is read back between its quotes.\<close>

definition demo_system_struct :: "bytes \<Rightarrow> bool \<Rightarrow> unit error + demo_struct" where
  "demo_system_struct b strict = (if b = ''null'' then Inl (ErrExt ())
     else Inr (DSys (demo_device\<lparr>sd_Gvk := fmupd ''gvk'' (Some (demo_entry_of
       (if b = ''{}'' then b else butlast (tl b)))) fmempty\<rparr>)))"

definition demo_env :: "(demo_struct, gnmi_path option list, demo_world, unit) client_env" where
  "demo_env = \<lparr>
     GnmiPath2XPath = demo_xpath,
     GetValue = demo_value,
     GetGvkName = (\<lambda>mg. ''gvk''),
     EmitGvk = (\<lambda>g. case gvk_Spec g of Some s \<Rightarrow> Inr s | None \<Rightarrow> Inl (ErrExt ())),
     RawMarshalJSON = (\<lambda>x. Inr (case re_Raw x of Some b \<Rightarrow> b | None \<Rightarrow> ''null'')),
     NewConfigStruct = demo_parse,
     JsonUnmarshaler = (\<lambda>b. demo_parse b False),
     Validate = (\<lambda>s opts. if s = DConf (Some ''{invalid}'') then Some (ErrExt ()) else None),
     error_text = (\<lambda>e. ''invalid''),
     MergeStructInto = demo_merge,
     DeepCopy = Inr,
     is_device = (\<lambda>s. case s of DConf v \<Rightarrow> True | DSys d \<Rightarrow> False),
     Diff = demo_diff,
     TogNMINotifications = demo_notifications,
     DeleteNode = (\<lambda>s p. Inr (DConf None)),
     PruneEmptyBranches = id,
     CreateRootConfigElement = [],
     AddUpdatePath = (\<lambda>r p v. r @ [p]),
     HierarchyFromGnmiUpdate = (\<lambda>n. map GetPath (GetUpdate n)),
     HierarchyRootPaths = id,
     GetNamespacedName = (\<lambda>ns n. ns @ CHR 0x2F # n),
     origin_System = ''system'',
     origin_Config = ''config'',
     client_Set = demo_set,
     client_Get = demo_get,
     client_Close = id,
     status_FromError = (\<lambda>e. (Unavailable, True)),
     SystemConfigStruct = demo_system_struct,
     as_system_device = (\<lambda>s. case s of DSys d \<Rightarrow> Some d | DConf v \<Rightarrow> None)\<rparr>"

lemma demo_env_simps [simp]:
  "GnmiPath2XPath demo_env = demo_xpath" "GetValue demo_env = demo_value"
  "GetGvkName demo_env mg = ''gvk''" "RawMarshalJSON demo_env x = Inr (case re_Raw x of Some b \<Rightarrow> b | None \<Rightarrow> ''null'')"
  "EmitGvk demo_env g = (case gvk_Spec g of Some s \<Rightarrow> Inr s | None \<Rightarrow> Inl (ErrExt ()))"
  "NewConfigStruct demo_env = demo_parse" "JsonUnmarshaler demo_env b = demo_parse b False"
  "Validate demo_env s opts = (if s = DConf (Some ''{invalid}'') then Some (ErrExt ()) else None)"
  "error_text demo_env e = ''invalid''" "MergeStructInto demo_env = demo_merge"
  "DeepCopy demo_env s = Inr s" "is_device demo_env (DConf v) = True"
  "Diff demo_env = demo_diff" "TogNMINotifications demo_env = demo_notifications"
  "DeleteNode demo_env s p = Inr (DConf None)" "PruneEmptyBranches demo_env s = s"
  "CreateRootConfigElement demo_env = []" "AddUpdatePath demo_env r p tv = r @ [p]"
  "HierarchyFromGnmiUpdate demo_env no = map GetPath (GetUpdate no)"
  "HierarchyRootPaths demo_env ro = ro"
  "GetNamespacedName demo_env ns n = ns @ CHR 0x2F # n"
  "origin_System demo_env = ''system''" "origin_Config demo_env = ''config''"
  "client_Set demo_env = demo_set" "client_Get demo_env = demo_get"
  "client_Close demo_env w = w"
  "status_FromError demo_env e = (Unavailable, True)"
  "SystemConfigStruct demo_env = demo_system_struct"
  "as_system_device demo_env (DSys d) = Some d" "as_system_device demo_env (DConf v) = None"
  by (simp_all add: demo_env_def)

definition demo_world :: demo_world where
  "demo_world = \<lparr>dw_down = False, dw_log = [], dw_config = Some (StringVal ''conf''), dw_system = None\<rparr>"

text \<open>A resource with the given spec.\<close>

definition demo_with :: "bytes \<Rightarrow> managed" where
  "demo_with b = ManagedSrl (demo_config\<lparr>cr_Spec := (cr_Spec demo_config)\<lparr>sp_Properties :=
     \<lparr>re_Raw = Some b, re_Object = None\<rparr>\<rparr>\<rparr>)"

lemma demo_with_simps [simp]:
  "expect_SrlConfig (demo_with b) = Ok (demo_config\<lparr>cr_Spec := (cr_Spec demo_config)\<lparr>sp_Properties :=
     \<lparr>re_Raw = Some b, re_Object = None\<rparr>\<rparr>\<rparr>)"
  "raw_bytes (demo_config\<lparr>cr_Spec := (cr_Spec demo_config)\<lparr>sp_Properties :=
     \<lparr>re_Raw = Some b, re_Object = None\<rparr>\<rparr>\<rparr>) = b"
  by (simp_all add: demo_with_def raw_bytes_def)

lemma demo_target [simp]: "mg_TargetReference (demo_with b) = Some \<lparr>ref_Name = ''leaf1''\<rparr>"
  by (simp add: demo_with_def demo_config_def GetTargetReference_def)

end
