(* ===== verification/Diff_Bounds.thy ===== *)
theory Diff_Bounds
  imports Diff_Paths
begin

text \<open>
  How much \<open>validateNotification\<close> can change, whatever its entries share: the refinement of
  \<open>Diff_Paths\<close> speaks of diffs without sharing, the bounds here of all.  A path that several entries
  point to is cut once per entry, so it may lose more than one element, but never its last one.
\<close>

section \<open>Shortened paths\<close>

text \<open>\<open>q\<close> is \<open>p\<close> without at most \<open>k\<close> of its last elements; a path does not become empty.\<close>

definition shortened :: "nat \<Rightarrow> gnmi_path \<Rightarrow> gnmi_path \<Rightarrow> bool" where
  "shortened k p q \<longleftrightarrow> (\<exists>n. length (p_Elem p) \<le> n + k \<and> (p_Elem p \<noteq> [] \<longrightarrow> 0 < n) \<and>
     q = p\<lparr>p_Elem := take n (p_Elem p)\<rparr>)"

lemma shortened_refl [simp]: "shortened k p p"
proof -
  have "p = p\<lparr>p_Elem := take (length (p_Elem p)) (p_Elem p)\<rparr>" by simp
  then show ?thesis unfolding shortened_def by (metis le_add1 length_greater_0_conv)
qed

lemma shortened_trans:
  assumes "shortened j p q" "shortened k q r"
  shows "shortened (j + k) p r"
proof -
  obtain n where n: "length (p_Elem p) \<le> n + j" "p_Elem p \<noteq> [] \<longrightarrow> 0 < n"
    "q = p\<lparr>p_Elem := take n (p_Elem p)\<rparr>" using assms(1) by (auto simp: shortened_def)
  obtain m where m: "length (p_Elem q) \<le> m + k" "p_Elem q \<noteq> [] \<longrightarrow> 0 < m"
    "r = q\<lparr>p_Elem := take m (p_Elem q)\<rparr>" using assms(2) by (auto simp: shortened_def)
  have "r = p\<lparr>p_Elem := take (min m n) (p_Elem p)\<rparr>" by (simp add: n(3) m(3) min.commute)
  moreover have "length (p_Elem p) \<le> min m n + (j + k)" using n m(1) by auto
  moreover have "p_Elem p \<noteq> [] \<longrightarrow> 0 < min m n" using n m(2) by auto
  ultimately show ?thesis unfolding shortened_def by blast
qed

lemma shortened_trim: "shortened (Suc 0) p (trim_path p)"
proof (cases "names_list_key (p_Elem p)")
  case False
  then show ?thesis by (simp add: trim_path_def)
next
  case True
  then have "1 < length (p_Elem p)" by (rule names_list_key_length)
  with True show ?thesis
    unfolding shortened_def trim_path_def
    by (intro exI [of _ "length (p_Elem p) - 1"]) (simp add: butlast_conv_take)
qed

section \<open>Single steps and loops\<close>

text \<open>A step through the pointer \<open>p\<close> cuts the path at \<open>p\<close>, if it cuts any.\<close>

lemma shortened_step:
  "shortened (count_list [p] (Some a)) (h_path h a)
     (h_path (trim_paths (set (addrs [p])) h) a)"
  by (cases p) (auto simp: shortened_trim)

lemma validate_deletes_shortened:
  "fold validate_delete ps (h, ds) = (g, ds') \<Longrightarrow>
     shortened (count_list ps (Some a)) (h_path h a) (h_path g a) \<and> h_upd g = h_upd h"
proof (induction ps arbitrary: h ds)
  case Nil
  then show ?case by simp
next
  case (Cons p ps)
  let ?h = "trim_paths (set (addrs [p])) h"
  have run: "fold validate_delete ps (?h, ds @ [p]) = (g, ds')"
    using Cons.prems by (simp add: validate_delete_eq del: set_addrs)
  have "shortened (count_list [p] (Some a) + count_list ps (Some a)) (h_path h a) (h_path g a)"
    by (rule shortened_trans [OF shortened_step]) (use Cons.IH [OF run] in blast)
  moreover have "h_upd ?h = h_upd h" by (simp add: trim_paths_def)
  ultimately show ?case using Cons.IH [OF run] by (simp split: if_splits)
qed

text \<open>An update keeps its path pointer, and its value unless that becomes the empty object.\<close>

definition kept_cell :: "upd_cell \<Rightarrow> upd_cell \<Rightarrow> bool" where
  "kept_cell c d \<longleftrightarrow> d = c \<or> d = c\<lparr>c_Val := Some (JsonVal ''{}'')\<rparr>"

lemma kept_cell_trans: "kept_cell c d \<Longrightarrow> kept_cell d e \<Longrightarrow> kept_cell c e"
  by (auto simp: kept_cell_def)

lemma kept_cell_path: "kept_cell c d \<Longrightarrow> c_Path d = c_Path c"
  by (auto simp: kept_cell_def)

lemma validate_updates_shortened:
  assumes "for_each validate_update us (h, acc) = (Ok (g, acc') :: (heap \<times> nat option list, 'e) result)"
  shows "shortened (count_list (map (\<lambda>u. c_Path (h_upd h (the u))) us) (Some a)) (h_path h a) (h_path g a) \<and>
    kept_cell (h_upd h b) (h_upd g b) \<and> (Some b \<notin> set us \<longrightarrow> h_upd g b = h_upd h b)"
  using assms
proof (induction us arbitrary: h acc b)
  case Nil
  then show ?case by (simp add: kept_cell_def)
next
  case (Cons u us)
  then obtain x where u: "u = Some x" by (cases u) (auto simp: validate_update_nil)
  let ?p = "c_Path (h_upd h x)"
  let ?h = "trim_cells {x} h (trim_paths (set (cell_paths h [x])) h)"
  have "for_each validate_update us (?h, acc @ [u]) = (Ok (g, acc') :: (heap \<times> nat option list, 'e) result)"
    using Cons.prems by (simp add: u validate_update_eq del: set_addrs)
  note rest = Cons.IH [OF this]
  have cell: "kept_cell (h_upd h b) (h_upd ?h b)" for b
    by (auto simp: kept_cell_def trim_cell_def Let_def)
  then have same: "map (\<lambda>u. c_Path (h_upd ?h (the u))) us = map (\<lambda>u. c_Path (h_upd h (the u))) us"
    by (simp only: kept_cell_path [OF cell])
  have step: "shortened (count_list [?p] (Some a)) (h_path h a) (h_path ?h a)"
    using shortened_step [of ?p a h] by simp
  have "shortened (count_list [?p] (Some a) + count_list (map (\<lambda>u. c_Path (h_upd ?h (the u))) us) (Some a))
      (h_path h a) (h_path g a)"
    by (rule shortened_trans [OF step]) (use rest in blast)
  then have "shortened (count_list (map (\<lambda>u. c_Path (h_upd h (the u))) (u # us)) (Some a))
      (h_path h a) (h_path g a)"
    unfolding same by (simp add: u split: if_splits)
  moreover have "Some b \<notin> set (u # us) \<longrightarrow> h_upd g b = h_upd h b"
    using rest [of b] by (auto simp: u)
  ultimately show ?case using kept_cell_trans [OF cell] rest by blast
qed

section \<open>Bounds\<close>

text \<open>The entries of a notification that point to the path at \<open>a\<close>.\<close>

definition references :: "notif_ptrs \<Rightarrow> heap \<Rightarrow> nat \<Rightarrow> nat" where
  "references n h a = count_list (map (\<lambda>u. c_Path (h_upd h (the u))) (np_Update n)) (Some a) +
     count_list (np_Delete n) (Some a)"

lemma validateNotification_shortened:
  assumes "validateNotification n h = (Ok (r, g) :: (_, 'e) result)"
  shows "shortened (references n h a) (h_path h a) (h_path g a) \<and>
    kept_cell (h_upd h b) (h_upd g b) \<and> (Some b \<notin> set (np_Update n) \<longrightarrow> h_upd g b = h_upd h b)"
proof -
  obtain h1 us where ups: "for_each validate_update (np_Update n) (h, []) = (Ok (h1, us) :: (_, 'e) result)"
    using assms by (auto simp: validateNotification_def result_simps)
  then obtain ds where "fold validate_delete (np_Delete n) (h1, []) = (g, ds)"
    using assms by (auto simp: validateNotification_def split: prod.splits)
  note dels = validate_deletes_shortened [OF this]
  have "shortened (references n h a) (h_path h a) (h_path g a)"
    unfolding references_def using validate_updates_shortened [OF ups] dels
    by (blast intro: shortened_trans)
  then show ?thesis using validate_updates_shortened [OF ups] dels by simp
qed

text \<open>
  C20. Whatever the entries of a diff share, cleaning it up stays within bounds.  It panics exactly when
  an update is nil and otherwise returns the pointers of the diff, none dropped, added or reordered;
  a path loses at most one element for each entry that points to it, from its end only, and is not
  emptied, so that a path no entry points to stays as it was; an update keeps its path pointer, and
  its value stays or becomes the empty object; and updates outside the diff are not touched.
\<close>

theorem validateNotification_bounds:
  fixes n :: notif_ptrs
  shows "(None \<in> set (np_Update n) \<longrightarrow> validateNotification n h =
      (Panic NilDereference :: ((nat option list \<times> nat option list) \<times> heap, 'e) result)) \<and>
    (None \<notin> set (np_Update n) \<longrightarrow> (\<exists>g. validateNotification n h =
       (Ok ((np_Delete n, np_Update n), g) :: ((nat option list \<times> nat option list) \<times> heap, 'e) result) \<and>
     (\<forall>a. \<exists>k. length (p_Elem (h_path h a)) \<le> k + references n h a \<and>
        (p_Elem (h_path h a) \<noteq> [] \<longrightarrow> 0 < k) \<and>
        h_path g a = (h_path h a)\<lparr>p_Elem := take k (p_Elem (h_path h a))\<rparr>) \<and>
     (\<forall>b. h_upd g b = h_upd h b \<or>
        Some b \<in> set (np_Update n) \<and> h_upd g b = (h_upd h b)\<lparr>c_Val := Some (JsonVal ''{}'')\<rparr>)))"
proof (intro conjI impI)
  assume "None \<in> set (np_Update n)"
  then show "validateNotification n h =
      (Panic NilDereference :: ((nat option list \<times> nat option list) \<times> heap, 'e) result)"
    by (rule diff.nil_update)
next
  assume "None \<notin> set (np_Update n)"
  then obtain g where run: "validateNotification n h = (Ok ((np_Delete n, np_Update n), g)
      :: ((nat option list \<times> nat option list) \<times> heap, 'e) result)"
    using diff.returns by blast
  have "shortened (references n h a) (h_path h a) (h_path g a)" for a
    using validateNotification_shortened [OF run] by blast
  moreover have "kept_cell (h_upd h b) (h_upd g b) \<and> (Some b \<notin> set (np_Update n) \<longrightarrow> h_upd g b = h_upd h b)" for b
    using validateNotification_shortened [OF run] by blast
  ultimately show "\<exists>g. validateNotification n h =
       (Ok ((np_Delete n, np_Update n), g) :: ((nat option list \<times> nat option list) \<times> heap, 'e) result) \<and>
     (\<forall>a. \<exists>k. length (p_Elem (h_path h a)) \<le> k + references n h a \<and>
        (p_Elem (h_path h a) \<noteq> [] \<longrightarrow> 0 < k) \<and>
        h_path g a = (h_path h a)\<lparr>p_Elem := take k (p_Elem (h_path h a))\<rparr>) \<and>
     (\<forall>b. h_upd g b = h_upd h b \<or>
        Some b \<in> set (np_Update n) \<and> h_upd g b = (h_upd h b)\<lparr>c_Val := Some (JsonVal ''{}'')\<rparr>)"
    using run unfolding shortened_def kept_cell_def by blast
qed

text \<open>
  Two deletes that share one path: it is cut twice, down to the list it is in.  (The names of the
  example break the rule \<open>yang_keys\<close>.)
\<close>

definition demo_shared :: heap where
  "demo_shared = demo_heap\<lparr>h_path := (\<lambda>_. empty_path\<lparr>p_Elem :=
     [Some \<lparr>pe_Name = ''node'', pe_Key = fmupd ''interface'' ''a'' fmempty\<rparr>, demo_entry, demo_leaf ''name'']\<rparr>)\<rparr>"

theorem validateNotification_bounds_witness:
  "\<exists>g. validateNotification \<lparr>np_Update = [], np_Delete = [Some 0, Some 0]\<rparr> demo_shared =
       (Ok (([Some 0, Some 0], []), g) :: (_, unit) result) \<and>
     length (p_Elem (h_path g 0)) = 1 \<and> 0 < length (p_Elem (h_path g 0)) \<and>
     length (p_Elem (h_path demo_shared 0)) \<le> length (p_Elem (h_path g 0)) + 2"
proof -
  let ?n = "\<lparr>np_Update = [], np_Delete = [Some 0, Some 0]\<rparr>"
  have "None \<notin> set (np_Update ?n)" by simp
  from validateNotification_bounds [of ?n demo_shared, THEN conjunct2, THEN mp, OF this]
  obtain g where g: "validateNotification ?n demo_shared = (Ok (([Some 0, Some 0], []), g) :: (_, unit) result)"
    and all: "\<forall>a. \<exists>k. length (p_Elem (h_path demo_shared a)) \<le> k + references ?n demo_shared a \<and>
      (p_Elem (h_path demo_shared a) \<noteq> [] \<longrightarrow> 0 < k) \<and>
      h_path g a = (h_path demo_shared a)\<lparr>p_Elem := take k (p_Elem (h_path demo_shared a))\<rparr>"
    by auto
  from all obtain k where k: "length (p_Elem (h_path demo_shared 0)) \<le> k + references ?n demo_shared 0"
      "p_Elem (h_path demo_shared 0) \<noteq> [] \<longrightarrow> 0 < k"
      "h_path g 0 = (h_path demo_shared 0)\<lparr>p_Elem := take k (p_Elem (h_path demo_shared 0))\<rparr>"
    by blast
  have "length (p_Elem (h_path g 0)) = 1"
    using g by (auto simp: validateNotification_def validate_delete_eq trim_paths_def trim_path_def
        names_list_key_def demo_shared_def demo_diff_defs)
  with g k show ?thesis by (auto simp: references_def demo_shared_def)
qed

section \<open>Cleaning up again and again\<close>

text \<open>
  Without the rule \<open>yang_keys\<close> a second pass may cut more than the first.  The elements of the paths
  that a diff refers to, counted once per path, bound how often that can go on.
\<close>

definition referenced :: "notif_ptrs \<Rightarrow> heap \<Rightarrow> nat set" where
  "referenced n h = set (addrs (map (\<lambda>u. c_Path (h_upd h (the u))) (np_Update n) @ np_Delete n))"

definition weight :: "nat set \<Rightarrow> heap \<Rightarrow> nat" where
  "weight A h = (\<Sum>a \<in> A. length (p_Elem (h_path h a)))"

primrec clean_up :: "nat \<Rightarrow> notif_ptrs \<Rightarrow> heap \<Rightarrow> (heap, 'e) result" where
  "clean_up 0 n h = Ok h"
| "clean_up (Suc k) n h = try_then (validateNotification n h) (\<lambda>(r, g). clean_up k n g)"

text \<open>A step changes nothing or removes an element.\<close>

definition shrinks :: "nat set \<Rightarrow> heap \<Rightarrow> heap \<Rightarrow> bool" where
  "shrinks A h g \<longleftrightarrow> g = h \<or> weight A g < weight A h"

lemma shrinks_trans: "shrinks A h g \<Longrightarrow> shrinks A g k \<Longrightarrow> shrinks A h k"
  by (auto simp: shrinks_def)

lemma weight_trim:
  assumes "finite A" "a \<in> A" "names_list_key (p_Elem (h_path h a))"
  shows "weight A (trim_paths {a} h) < weight A h"
proof -
  have "1 < length (p_Elem (h_path h a))" by (rule names_list_key_length [OF assms(3)])
  then show ?thesis
    unfolding weight_def using assms
    by (intro sum_strict_mono_ex1) (auto simp: trim_path_def intro!: bexI [of _ a])
qed

lemma trim_nothing: "\<not> names_list_key (p_Elem (h_path h a)) \<Longrightarrow> trim_paths {a} h = h"
  by (rule heap_eqI) (auto simp: trim_path_def)

lemma delete_shrinks:
  assumes "finite A" "set (addrs [p]) \<subseteq> A"
  shows "shrinks A h (trim_paths (set (addrs [p])) h)"
proof (cases p)
  case None
  then show ?thesis by (simp add: shrinks_def trim_paths_def)
next
  case (Some a)
  with assms show ?thesis
    using weight_trim [of A a h] trim_nothing [of h a]
    by (cases "names_list_key (p_Elem (h_path h a))") (auto simp: shrinks_def simp del: set_addrs)
qed

lemma update_shrinks:
  assumes "finite A" "set (cell_paths h [x]) \<subseteq> A"
  shows "shrinks A h (trim_cells {x} h (trim_paths (set (cell_paths h [x])) h))"
proof (cases "names_list_key (GetElem (read_path h (c_Path (h_upd h x))))")
  case False
  then have "trim_cell h x = h_upd h x" by (simp add: trim_cell_def)
  moreover have "trim_paths (set (cell_paths h [x])) h = h"
  proof (cases "c_Path (h_upd h x)")
    case None
    then show ?thesis by (simp add: trim_paths_def)
  next
    case (Some a)
    with False show ?thesis by (simp add: trim_nothing read_path_def del: set_addrs)
  qed
  ultimately show ?thesis by (auto simp: shrinks_def intro!: heap_eqI simp del: set_addrs)
next
  case True
  then obtain a where a: "c_Path (h_upd h x) = Some a"
    by (cases "c_Path (h_upd h x)") (auto simp: read_path_def names_list_key_def)
  with True have "names_list_key (p_Elem (h_path h a))" by (simp add: read_path_def)
  with assms a have "weight A (trim_paths {a} h) < weight A h" by (intro weight_trim) auto
  then show ?thesis by (simp add: a shrinks_def weight_def)
qed

lemma validate_deletes_shrink:
  "finite A \<Longrightarrow> set (addrs ps) \<subseteq> A \<Longrightarrow> fold validate_delete ps (h, ds) = (g, ds') \<Longrightarrow> shrinks A h g"
proof (induction ps arbitrary: h ds)
  case Nil
  then show ?case by (simp add: shrinks_def)
next
  case (Cons p ps)
  have "set (addrs [p]) \<subseteq> A" "set (addrs ps) \<subseteq> A" using Cons.prems(2) by (cases p; auto)+
  then show ?case
    using Cons.IH [OF Cons.prems(1)] Cons.prems delete_shrinks [of A p h] shrinks_trans
    by (simp add: validate_delete_eq del: set_addrs)
qed

lemma validate_updates_shrink:
  assumes "finite A"
  shows "set (addrs (map (\<lambda>u. c_Path (h_upd h (the u))) us)) \<subseteq> A \<Longrightarrow>
    for_each validate_update us (h, acc) = (Ok (g, acc') :: (heap \<times> nat option list, 'e) result) \<Longrightarrow> shrinks A h g"
proof (induction us arbitrary: h acc)
  case Nil
  then show ?case by (simp add: shrinks_def)
next
  case (Cons u us)
  then obtain x where u: "u = Some x" by (cases u) (auto simp: validate_update_nil)
  let ?h = "trim_cells {x} h (trim_paths (set (cell_paths h [x])) h)"
  have run: "for_each validate_update us (?h, acc @ [u]) = (Ok (g, acc') :: (heap \<times> nat option list, 'e) result)"
    using Cons.prems by (simp add: u validate_update_eq del: set_addrs)
  have kept: "kept_cell (h_upd h b) (h_upd ?h b)" for b
    by (auto simp: kept_cell_def trim_cell_def Let_def)
  then have same: "map (\<lambda>u. c_Path (h_upd ?h (the u))) us = map (\<lambda>u. c_Path (h_upd h (the u))) us"
    by (simp only: kept_cell_path [OF kept])
  have "set (cell_paths h [x]) \<subseteq> A" "set (addrs (map (\<lambda>u. c_Path (h_upd h (the u))) us)) \<subseteq> A"
    using Cons.prems(1) by (cases "c_Path (h_upd h x)"; auto simp: u simp del: set_addrs)+
  then show ?case
    using shrinks_trans [OF update_shrinks [OF assms]] Cons.IH [OF _ run] unfolding same by blast
qed

lemma validateNotification_shrinks:
  assumes "validateNotification n h = (Ok (r, g) :: (_, 'e) result)"
  shows "shrinks (referenced n h) h g \<and> referenced n g = referenced n h"
proof
  obtain h1 us where ups: "for_each validate_update (np_Update n) (h, []) = (Ok (h1, us) :: (_, 'e) result)"
    using assms by (auto simp: validateNotification_def result_simps)
  then obtain ds where dels: "fold validate_delete (np_Delete n) (h1, []) = (g, ds)"
    using assms by (auto simp: validateNotification_def split: prod.splits)
  show "shrinks (referenced n h) h g"
    by (rule shrinks_trans [OF validate_updates_shrink [OF _ _ ups] validate_deletes_shrink [OF _ _ dels]])
       (auto simp: referenced_def simp del: set_addrs)
  have "kept_cell (h_upd h b) (h_upd g b)" for b
    using validateNotification_shortened [OF assms] by blast
  then have "c_Path (h_upd g b) = c_Path (h_upd h b)" for b using kept_cell_path by blast
  then show "referenced n g = referenced n h" by (simp add: referenced_def)
qed

lemma clean_up_fixpoint:
  "validateNotification n h = (Ok (r, h) :: (_, 'e) result) \<Longrightarrow> clean_up k n h = (Ok h :: (heap, 'e) result)"
  by (induction k) simp_all



end
