(* ===== verification/Json_Read.thy ===== *)
theory Json_Read
  imports Json
begin

text \<open>
  The tokens of a reference reader of JSON (RFC 8259): strings and numbers, against which the encoder
  of \<open>Json\<close> is checked.  A reader gives the value at the front of a text and the rest of the text.
  White space and escapes of surrogate pairs, which the encoder never writes, are not read.
\<close>

section \<open>The reader\<close>

definition hex_value :: "char \<Rightarrow> nat option" where
  "hex_value c = (let x = of_char c in
     if 48 \<le> x \<and> x \<le> 57 then Some (x - 48) else if 97 \<le> x \<and> x \<le> 102 then Some (x - 87)
     else if 65 \<le> x \<and> x \<le> 70 then Some (x - 55) else None)"

definition hex4 :: "char \<Rightarrow> char \<Rightarrow> char \<Rightarrow> char \<Rightarrow> nat option" where
  "hex4 a b c d = (case (hex_value a, hex_value b, hex_value c, hex_value d) of
      (Some w, Some x, Some y, Some z) \<Rightarrow> Some (4096 * w + 256 * x + 16 * y + z) | _ \<Rightarrow> None)"

text \<open>UTF-8 of a code point of the basic multilingual plane.\<close>

definition utf8 :: "nat \<Rightarrow> bytes option" where
  "utf8 n =
     (if n < 128 then Some [char_of n]
      else if n < 2048 then Some [char_of (192 + n div 64), char_of (128 + n mod 64)]
      else if 55296 \<le> n \<and> n < 57344 then None
      else Some [char_of (224 + n div 4096), char_of (128 + n div 64 mod 64), char_of (128 + n mod 64)])"

definition simple_escape :: "char \<Rightarrow> char option" where
  "simple_escape c = map_of [(dquote, dquote), (backslash, backslash), (CHR 0x2F, CHR 0x2F),
     (CHR ''b'', CHR 0x08), (CHR ''f'', CHR 0x0C), (CHR ''n'', CHR 0x0A), (CHR ''r'', CHR 0x0D),
     (CHR ''t'', CHR 0x09)] c"

text \<open>The characters of a string up to its closing quote.\<close>

fun read_chars :: "string \<Rightarrow> (bytes \<times> string) option" where
  "read_chars [] = None"
| "read_chars (c # cs) =
     (if c = dquote then Some ([], cs)
      else if c = backslash then
        (case cs of
           [] \<Rightarrow> None
         | e # r \<Rightarrow>
             if e = CHR ''u'' then
               (case r of
                  h1 # h2 # h3 # h4 # r' \<Rightarrow>
                    (case Option.bind (hex4 h1 h2 h3 h4) utf8 of
                       None \<Rightarrow> None
                     | Some b \<Rightarrow> map_option (apfst ((@) b)) (read_chars r'))
                | _ \<Rightarrow> None)
             else (case simple_escape e of
                  None \<Rightarrow> None
                | Some b \<Rightarrow> map_option (apfst (Cons b)) (read_chars r)))
      else if of_char c < (32 :: nat) then None
      else map_option (apfst (Cons c)) (read_chars cs))"

text \<open>A string of well-formed UTF-8.\<close>

fun valid_utf8 :: "bytes \<Rightarrow> bool" where
  "valid_utf8 [] \<longleftrightarrow> True"
| "valid_utf8 (c # cs) \<longleftrightarrow>
     (if of_char c < (128 :: nat) then valid_utf8 cs
      else 0 < rune_len (c # cs) \<and> valid_utf8 (drop (rune_len (c # cs) - 1) cs))"

section \<open>Strings\<close>

lemma backslash_dquote [simp]: "backslash \<noteq> dquote" "dquote \<noteq> backslash"
  by (simp_all add: backslash_def dquote_def)

lemma dquote_other [simp]:
  "dquote \<noteq> CHR '',''" "dquote \<noteq> CHR '':''" "dquote \<noteq> CHR ''[''" "dquote \<noteq> CHR '']''" "dquote \<noteq> CHR ''{''"
  "dquote \<noteq> CHR ''}''" "dquote \<noteq> CHR ''-''" "dquote \<noteq> CHR ''+''" "dquote \<noteq> CHR ''.''" "dquote \<noteq> CHR ''e''"
  "dquote \<noteq> CHR ''E''" "dquote \<noteq> CHR ''0''"
  by (simp_all add: dquote_def)

lemmas dquote_other' [simp] = dquote_other [symmetric]

lemma dquote_letter [simp]: "dquote \<noteq> CHR ''t''" "dquote \<noteq> CHR ''f''" "dquote \<noteq> CHR ''n''"
  by (simp_all add: dquote_def)

text \<open>The reader goes through a string piece by piece: \<open>s\<close> stands for the bytes \<open>b\<close>.\<close>

definition stands_for :: "string \<Rightarrow> bytes \<Rightarrow> bool" where
  "stands_for s b \<longleftrightarrow> (\<forall>t. read_chars (s @ t) = map_option (apfst ((@) b)) (read_chars t))"

lemma stands_forI:
  assumes "\<And>t. read_chars (s @ t) = map_option (apfst f) (read_chars t)" "\<And>x. f x = b @ x"
  shows "stands_for s b"
proof -
  have "f = (@) b" using assms(2) by (rule ext)
  then show ?thesis using assms(1) by (simp add: stands_for_def)
qed

lemma stands_for_read: "stands_for s b \<Longrightarrow> read_chars (s @ dquote # t) = Some (b, t)"
  by (simp add: stands_for_def)

lemma stands_for_append: "stands_for s b \<Longrightarrow> stands_for t d \<Longrightarrow> stands_for (s @ t) (b @ d)"
  by (rule stands_forI [where f = "\<lambda>x. b @ d @ x"])
     (simp_all add: stands_for_def option.map_comp comp_def apfst_def map_prod_def split_def)

lemma stands_for_Nil [simp]: "stands_for [] []"
  by (rule stands_forI [where f = "\<lambda>x. x"]) (simp_all add: apfst_def map_prod_def split_def option.map_ident)

lemma stands_for_plain:
  "c \<noteq> backslash \<Longrightarrow> c \<noteq> dquote \<Longrightarrow> 32 \<le> (of_char c :: nat) \<Longrightarrow> stands_for [c] [c]"
  by (rule stands_forI [where f = "Cons c"]) simp_all

lemma stands_for_simple: "simple_escape e = Some b \<Longrightarrow> stands_for [backslash, e] [b]"
proof (rule stands_forI [where f = "Cons b"])
  assume "simple_escape e = Some b"
  moreover from this have "e \<noteq> CHR ''u''" by (auto simp: simple_escape_def dquote_def backslash_def)
  ultimately show "read_chars ([backslash, e] @ t) = map_option (apfst ((#) b)) (read_chars t)" for t
    by simp
qed simp

lemma stands_for_unicode:
  "Option.bind (hex4 a b c d) utf8 = Some bs \<Longrightarrow> stands_for [backslash, CHR ''u'', a, b, c, d] bs"
  by (rule stands_forI [where f = "(@) bs"]) simp_all

lemma stands_for_high:
  "list_all (\<lambda>c. 128 \<le> (of_char c :: nat)) s \<Longrightarrow> stands_for s s"
proof (induction s)
  case Nil
  then show ?case by simp
next
  case (Cons c s)
  then have "stands_for [c] [c]"
    by (intro stands_for_plain) (auto simp: backslash_def dquote_def)
  from stands_for_append [OF this] Cons show ?case by simp
qed

lemma hex_value_digit: "n < 16 \<Longrightarrow> hex_value (hex_digit n) = Some n"
  by (auto simp: hex_value_def hex_digit_def Let_def)

lemma hex4_00: "x < 256 \<Longrightarrow> hex4 (CHR ''0'') (CHR ''0'') (hex_digit (x div 16)) (hex_digit (x mod 16)) = Some x"
  by (simp add: hex4_def hex_value_digit) (simp add: hex_value_def)

lemma stands_for_ascii:
  assumes "of_char c < (128 :: nat)"
  shows "stands_for (escape_ascii c) [c]"
proof -
  have "stands_for (escape_u00 c) [c]"
    using assms hex4_00 [of "of_char c"]
    by (simp add: escape_u00_def) (intro stands_for_unicode, simp add: utf8_def)
  moreover have "stands_for [backslash, e] [b]"
    if "(e, b) \<in> {(backslash, backslash), (dquote, dquote), (CHR ''n'', CHR 0x0A), (CHR ''r'', CHR 0x0D),
      (CHR ''t'', CHR 0x09)}" for e b
    using that by (intro stands_for_simple) (auto simp: simple_escape_def backslash_def dquote_def)
  ultimately show ?thesis
    using stands_for_plain [of c] by (auto simp: escape_ascii_def)
qed

lemma rune_len_high:
  assumes "0 < rune_len s"
  shows "2 \<le> rune_len s \<and> rune_len s \<le> length s \<and>
    list_all (\<lambda>c. 128 \<le> (of_char c :: nat)) (take (rune_len s) s)"
proof -
  have second: "128 \<le> b" if "second_ok a b" for a b using that by (simp split: if_splits)
  from assms obtain a b r where s: "s = a # b # r"
    by (cases s; cases "tl s") (auto simp: rune_len_def)
  define x y :: nat where "x = of_char a" and "y = of_char b"
  define two three four where "two \<longleftrightarrow> 194 \<le> x \<and> x \<le> 223" and "three \<longleftrightarrow> 224 \<le> x \<and> x \<le> 239"
    and "four \<longleftrightarrow> 240 \<le> x \<and> x \<le> 244"
  have "rune_len s = (if \<not> second_ok x y then 0 else if two then 2 else if three then
      (case r of c # _ \<Rightarrow> if continuation c then 3 else 0 | [] \<Rightarrow> 0) else if four then
      (case r of c # d # _ \<Rightarrow> if continuation c \<and> continuation d then 4 else 0 | _ \<Rightarrow> 0) else 0)"
    unfolding s rune_len_def Let_def x_def y_def two_def three_def four_def by simp
  moreover have "128 \<le> x" if "two \<or> three \<or> four" using that by (auto simp: two_def three_def four_def)
  moreover have "128 \<le> y" if "second_ok x y" using that by (rule second)
  ultimately show ?thesis
    using assms by (auto simp: s x_def y_def continuation_def eval_nat_numeral simp del: second_ok.simps
        split: list.splits if_splits)
qed

lemma separator_cases:
  assumes "line_separator s"
  obtains r x where "s = CHR 0xE2 # CHR 0x80 # x # r" "x = CHR 0xA8 \<or> x = CHR 0xA9"
proof -
  obtain a b x r where "s = a # b # x # r"
    using assms by (cases s; cases "tl s"; cases "tl (tl s)") (auto simp: line_separator_def)
  with assms that [of x r] show thesis by (auto simp: line_separator_def)
qed

lemma separator_bytes:
  "char_of (226 :: nat) = CHR 0xE2" "char_of (128 :: nat) = CHR 0x80"
  "char_of (168 :: nat) = CHR 0xA8" "char_of (169 :: nat) = CHR 0xA9"
  by code_simp+

lemma stands_for_separator:
  assumes "line_separator s" "0 < rune_len s"
  shows "stands_for (escape_separator s) (take (rune_len s) s)"
  using assms(1)
proof (cases rule: separator_cases)
  case (1 r x)
  from 1(2) have len: "rune_len s = 3"
    by (auto simp: 1(1) rune_len_def continuation_def)
  have "hex_value (hex_digit 8) = Some 8" "hex_value (hex_digit 9) = Some 9"
    "hex_value (CHR ''2'') = Some 2" "hex_value (CHR ''0'') = Some 0"
    by (simp_all add: hex_value_digit) (simp_all add: hex_value_def)
  with 1(2) have "Option.bind (hex4 (CHR ''2'') (CHR ''0'') (CHR ''2'') (hex_digit (of_char x mod 16))) utf8 =
      Some [CHR 0xE2, CHR 0x80, x]"
    by (auto simp: hex4_def utf8_def separator_bytes)
  from stands_for_unicode [OF this] show ?thesis
    unfolding len by (simp add: 1(1) escape_separator_def)
qed

lemma stands_for_escape: "valid_utf8 s \<Longrightarrow> stands_for (json_escape s) s"
proof (induction s rule: json_escape.induct)
  case 1
  then show ?case by simp
next
  case (2 c cs)
  show ?case
  proof (cases "of_char c < (128 :: nat)")
    case True
    from stands_for_append [OF stands_for_ascii [OF True]] 2 True show ?thesis by simp
  next
    case False
    define n where "n = rune_len (c # cs)"
    have n: "0 < n" and rest: "valid_utf8 (drop (n - 1) cs)" using 2(5) False by (simp_all add: n_def)
    note high = rune_len_high [of "c # cs", folded n_def, OF n]
    have split: "take n (c # cs) @ drop (n - 1) cs = c # cs"
      using n by (cases n) simp_all
    have IH: "stands_for (json_escape (drop (n - 1) cs)) (drop (n - 1) cs)"
      using 2(3) [OF False n_def] 2(4) [OF False n_def] n rest by blast
    have "stands_for (if line_separator (c # cs) then escape_separator (c # cs) else take n (c # cs)) (take n (c # cs))"
      using stands_for_separator [of "c # cs", folded n_def] n stands_for_high high by simp
    from stands_for_append [OF this IH] show ?thesis
      unfolding split using False n by (simp add: n_def Let_def split: if_splits)
  qed
qed

lemma read_string: "valid_utf8 s \<Longrightarrow> read_chars (json_escape s @ dquote # t) = Some (s, t)"
  by (rule stands_for_read [OF stands_for_escape])

section \<open>Numbers\<close>

definition decimal_digit :: "char \<Rightarrow> bool" where
  "decimal_digit c \<longleftrightarrow> 48 \<le> (of_char c :: nat) \<and> (of_char c :: nat) \<le> 57"

definition dec_value :: "string \<Rightarrow> nat" where
  "dec_value = foldl (\<lambda>n c. 10 * n + (of_char c - 48)) 0"

definition read_digits :: "string \<Rightarrow> (string \<times> string) option" where
  "read_digits s = (let ds = takeWhile decimal_digit s
     in if ds = [] then None else Some (ds, dropWhile decimal_digit s))"

definition read_fraction :: "string \<Rightarrow> (string \<times> string) option" where
  "read_fraction s = (if take 1 s = ''.'' then read_digits (tl s) else Some ([], s))"

definition read_exponent :: "string \<Rightarrow> (int \<times> string) option" where
  "read_exponent s =
     (if take 1 s = ''e'' \<or> take 1 s = ''E''
      then (let r = tl s; neg = (take 1 r = ''-'')
            in map_option (apfst (\<lambda>ds. if neg then - int (dec_value ds) else int (dec_value ds)))
                 (read_digits (if neg \<or> take 1 r = ''+'' then tl r else r)))
      else Some (0, s))"

text \<open>A number has no superfluous zeros in front.\<close>

definition read_number :: "string \<Rightarrow> (rat \<times> string) option" where
  "read_number s =
     (let neg = (take 1 s = ''-'')
      in Option.bind (read_digits (if neg then tl s else s)) (\<lambda>(ip, r1).
           if 1 < length ip \<and> hd ip = CHR ''0'' then None
           else Option.bind (read_fraction r1) (\<lambda>(fr, r2).
             Option.bind (read_exponent r2) (\<lambda>(x, r3).
               Some ((if neg then - 1 else 1) * of_nat (dec_value (ip @ fr)) * 10 powi (x - int (length fr)),
                 r3)))))"

text \<open>What may follow a number or any other value.\<close>

definition ends_value :: "string \<Rightarrow> bool" where
  "ends_value t \<longleftrightarrow> t = [] \<or> hd t \<in> {CHR '','', CHR '']'', CHR ''}''}"

lemma ends_value_simps [simp]:
  "ends_value []" "ends_value (CHR '','' # t)" "ends_value (CHR '']'' # t)" "ends_value (CHR ''}'' # t)"
  by (simp_all add: ends_value_def)

lemma decimal_digit_ascii [simp]:
  "\<not> decimal_digit (CHR ''.'')" "\<not> decimal_digit (CHR ''e'')" "\<not> decimal_digit (CHR ''-'')"
  "\<not> decimal_digit (CHR ''+'')" "\<not> decimal_digit (CHR '','')" "\<not> decimal_digit (CHR '']'')"
  "\<not> decimal_digit (CHR ''}'')" "\<not> decimal_digit dquote" "decimal_digit (CHR ''0'')"
  by (simp_all add: decimal_digit_def dquote_def)

definition after_digits :: "string \<Rightarrow> bool" where
  "after_digits t \<longleftrightarrow> t = [] \<or> \<not> decimal_digit (hd t)"

lemma after_digits_simps [simp]:
  "after_digits []" "after_digits (CHR ''.'' # t)" "after_digits (CHR ''e'' # t)"
  "ends_value t \<Longrightarrow> after_digits t"
  by (auto simp: after_digits_def ends_value_def)

lemma read_digits_front:
  assumes "ds \<noteq> []" "list_all decimal_digit ds" "after_digits t"
  shows "read_digits (ds @ t) = Some (ds, t)"
proof -
  have "takeWhile decimal_digit t = [] \<and> dropWhile decimal_digit t = t"
    using assms(3) by (cases t) (simp_all add: after_digits_def)
  with assms(1,2) show ?thesis by (simp add: read_digits_def list_all_iff)
qed

lemma read_fraction_front:
  assumes "list_all decimal_digit fr" "after_digits t" "fr = [] \<Longrightarrow> take 1 t \<noteq> ''.''"
  shows "read_fraction ((if fr = [] then [] else CHR ''.'' # fr) @ t) = Some (fr, t)"
  using assms by (simp add: read_fraction_def read_digits_front)

lemma ends_value_dot: "ends_value t \<Longrightarrow> take 1 t \<noteq> ''.''"
  by (cases t) (auto simp: ends_value_def)

lemma read_exponent_end: "ends_value t \<Longrightarrow> read_exponent t = Some (0, t)"
  by (cases t) (auto simp: read_exponent_def ends_value_def)

lemma read_number_front:
  assumes ip: "ip \<noteq> []" "list_all decimal_digit ip" "1 < length ip \<Longrightarrow> hd ip \<noteq> CHR ''0''"
    and fr: "list_all decimal_digit fr" and r: "after_digits r" "take 1 r \<noteq> ''.''" "read_exponent r = Some (x, t)"
  shows "read_number ((if neg then ''-'' else []) @ ip @ (if fr = [] then [] else CHR ''.'' # fr) @ r) =
    Some ((if neg then - 1 else 1) * of_nat (dec_value (ip @ fr)) * 10 powi (x - int (length fr)), t)"
proof -
  let ?r = "(if fr = [] then [] else CHR ''.'' # fr) @ r"
  have "after_digits ?r" using r(1) by simp
  then have digits: "read_digits (ip @ ?r) = Some (ip, ?r)" by (rule read_digits_front [OF ip(1,2)])
  have frac: "read_fraction ?r = Some (fr, r)" using read_fraction_front [OF fr r(1)] r(2) by blast
  from ip(1,2) have minus: "take 1 (ip @ ?r) \<noteq> ''-''" by (cases ip) auto
  show ?thesis
  proof (cases neg)
    case True
    then show ?thesis using digits frac r(3) ip(3) by (auto simp: read_number_def)
  next
    case False
    then show ?thesis using digits frac r(3) ip(3) minus by (auto simp: read_number_def Let_def)
  qed
qed

lemma digit_value: "n < 10 \<Longrightarrow> decimal_digit (digit n) \<and> (of_char (digit n) :: nat) = 48 + n"
  by (simp add: decimal_digit_def digit_def)

lemma dec_value_simps [simp]:
  "dec_value [] = 0" "dec_value (s @ [c]) = 10 * dec_value s + (of_char c - 48)"
  by (simp_all add: dec_value_def)

lemma dec_value_append: "dec_value (a @ b) = dec_value a * 10 ^ length b + dec_value b"
  by (induction b rule: rev_induct) (simp_all add: algebra_simps flip: append_assoc)

lemma dec_value_zeros [simp]: "dec_value (replicate k (CHR ''0'')) = 0"
  by (induction k) (simp_all add: dec_value_def)

lemma dec_nat_digits: "dec_nat n \<noteq> [] \<and> list_all decimal_digit (dec_nat n)"
proof (induction n rule: dec_nat.induct)
  case (1 n)
  then show ?case by (subst (1 2) dec_nat.simps) (simp add: digit_value)
qed

lemma dec_nat_value: "dec_value (dec_nat n) = n"
proof (induction n rule: dec_nat.induct)
  case (1 n)
  show ?case
  proof (cases "n < 10")
    case True
    then show ?thesis using digit_value [of n] dec_value_simps(2) [of "[]"] by (simp add: dec_nat.simps)
  next
    case False
    with 1 digit_value [of "n mod 10"] show ?thesis by (subst dec_nat.simps) simp
  qed
qed

lemma dec_nat_front: "1 < length (dec_nat n) \<Longrightarrow> hd (dec_nat n) \<noteq> CHR ''0''"
proof -
  have "0 < n \<Longrightarrow> hd (dec_nat n) \<noteq> CHR ''0''"
  proof (induction n rule: dec_nat.induct)
    case (1 n)
    have "digit n \<noteq> CHR ''0''" if "n < 10" using 1(2) that digit_value [of n] by auto
    with 1 dec_nat_digits [of "n div 10"] show ?case by (subst dec_nat.simps) auto
  qed
  moreover have "\<not> 1 < length (dec_nat 0)" by (simp add: dec_nat.simps)
  ultimately show "1 < length (dec_nat n) \<Longrightarrow> hd (dec_nat n) \<noteq> CHR ''0''" by (cases "n = 0") auto
qed

lemma read_int: "ends_value t \<Longrightarrow> read_number (dec_int i @ t) = Some (of_int i, t)"
  using read_number_front [of "dec_nat (nat \<bar>i\<bar>)" "[]" t 0 t "i < 0"] dec_nat_digits dec_nat_front
    read_exponent_end [of t]
  by (cases t) (auto simp: dec_int_def dec_nat_value ends_value_def)

text \<open>The value \<open>0.d1d2... * 10^p\<close> of a float.\<close>

definition float_value :: "bool \<Rightarrow> nat list \<Rightarrow> int \<Rightarrow> rat" where
  "float_value neg ds p =
     (if neg then - 1 else 1) * of_nat (foldl (\<lambda>n d. 10 * n + d) 0 ds) * 10 powi (p - int (length ds))"

definition shortest_digits :: "nat list \<Rightarrow> int \<Rightarrow> bool" where
  "shortest_digits ds p \<longleftrightarrow> list_all (\<lambda>d. d < 10) ds \<and> (if ds = [] then p = 0 else hd ds \<noteq> 0)"

lemma map_digit_digits: "list_all (\<lambda>d. d < 10) ds \<Longrightarrow> list_all decimal_digit (map digit ds)"
  by (induction ds) (simp_all add: digit_value)

lemma dec_value_digits: "list_all (\<lambda>d. d < 10) ds \<Longrightarrow> dec_value (map digit ds) = foldl (\<lambda>n d. 10 * n + d) 0 ds"
  by (induction ds rule: rev_induct) (simp_all add: digit_value)

lemma digit_zero: "d < 10 \<Longrightarrow> digit d = CHR ''0'' \<longleftrightarrow> d = 0"
proof -
  assume "d < 10"
  then have "digit d = CHR ''0'' \<Longrightarrow> d = 0" using digit_value [of d] by auto
  moreover have "digit 0 = CHR ''0''" by code_simp
  ultimately show ?thesis by auto
qed

text \<open>Both forms of a float are an integer part, a fraction and, in one of them, an exponent.\<close>

lemma read_float_f:
  assumes "shortest_digits ds p" "ends_value t"
  shows "read_number ((if neg then ''-'' else []) @ float_f ds p @ t) = Some (float_value neg ds p, t)"
proof -
  define ip where "ip = (if 0 < p then map digit (take (nat p) ds) @ replicate (nat p - length ds) (CHR ''0'') else ''0'')"
  define fr where "fr = (if ds = [] then [] else if p < 0 then replicate (nat (- p)) (CHR ''0'') @ map digit ds
    else map digit (drop (nat p) ds))"
  have ds: "list_all (\<lambda>d. d < 10) ds" using assms(1) by (simp add: shortest_digits_def)
  have sub: "list_all (\<lambda>d. d < 10) (take (nat p) ds)" "list_all (\<lambda>d. d < 10) (drop (nat p) ds)"
    using ds by (auto simp: list_all_iff dest: in_set_takeD in_set_dropD)
  have zeros: "list_all decimal_digit (replicate k (CHR ''0''))" for k by (simp add: list_all_iff)
  have digits: "list_all decimal_digit ip" "list_all decimal_digit fr"
    using map_digit_digits [OF ds] map_digit_digits [OF sub(1)] map_digit_digits [OF sub(2)] zeros
    by (auto simp: ip_def fr_def)
  have front: "ip \<noteq> []" "1 < length ip \<Longrightarrow> hd ip \<noteq> CHR ''0''"
    using assms(1) by (cases ds; auto simp: ip_def shortest_digits_def digit_zero take_Cons split: nat.splits)+
  have after: "after_digits t" "take 1 t \<noteq> ''.''" "read_exponent t = Some (0, t)"
    using assms(2) read_exponent_end ends_value_dot by simp_all
  have form: "float_f ds p = ip @ (if fr = [] then [] else CHR ''.'' # fr)"
    by (auto simp: float_f_def ip_def fr_def Let_def)
  have "of_nat (dec_value (ip @ fr)) * 10 powi (0 - int (length fr)) =
      (of_nat (foldl (\<lambda>n d. 10 * n + d) 0 ds) * 10 powi (p - int (length ds)) :: rat)"
  proof -
    let ?v = "foldl (\<lambda>n d. 10 * n + d) 0 ds"
    have v: "dec_value (map digit ds) = ?v" by (rule dec_value_digits [OF ds])
    consider "ds = []" | "ds \<noteq> []" "p \<le> 0" | "ds \<noteq> []" "0 < p" "nat p < length ds" | "ds \<noteq> []" "0 < p" "length ds \<le> nat p"
      by linarith
    then show ?thesis
    proof cases
      case 1
      with assms(1) show ?thesis by (simp add: ip_def fr_def shortest_digits_def dec_value_def)
    next
      case 2
      then have "ip @ fr = replicate (Suc (nat (- p))) (CHR ''0'') @ map digit ds" "length fr = nat (- p) + length ds"
        by (auto simp: ip_def fr_def)
      with 2 show ?thesis by (simp add: dec_value_append v del: replicate.simps)
    next
      case 3
      then have "ip @ fr = map digit ds" "length fr = length ds - nat p"
        by (auto simp: ip_def fr_def simp flip: map_append)
      with 3 show ?thesis by (simp add: v of_nat_diff)
    next
      case 4
      then have "ip @ fr = map digit ds @ replicate (nat p - length ds) (CHR ''0'')" "fr = []"
        by (auto simp: ip_def fr_def)
      with 4 show ?thesis by (simp add: dec_value_append v power_int_def nat_diff_distrib)
    qed
  qed
  with read_number_front [OF front(1) digits(1) front(2) digits(2) after, of neg]
  show ?thesis unfolding form float_value_def by (simp add: mult.assoc)
qed

lemma read_float_e:
  assumes "shortest_digits ds p" "ds \<noteq> []" "ends_value t"
  shows "read_number ((if neg then ''-'' else []) @ float_e ds p @ t) = Some (float_value neg ds p, t)"
proof -
  obtain d r where d: "ds = d # r" using assms(2) by (cases ds) auto
  define x where "x = CHR ''e'' # (if p < 1 then CHR ''-'' else CHR ''+'') # dec_nat (nat \<bar>p - 1\<bar>) @ t"
  have ds: "list_all (\<lambda>d. d < 10) ds" using assms(1) by (simp add: shortest_digits_def)
  then have digits: "list_all decimal_digit (map digit [d])" "list_all decimal_digit (map digit r)"
    using map_digit_digits [of ds] by (simp_all add: d)
  have "read_exponent x = Some (p - 1, t)"
    using assms(3) dec_nat_digits by (auto simp: x_def read_exponent_def Let_def read_digits_front dec_nat_value)
  with read_number_front [of "map digit [d]" "map digit r" x "p - 1" t neg] digits
  have "read_number ((if neg then ''-'' else []) @ map digit [d] @ (if r = [] then [] else CHR ''.'' # map digit r) @ x) =
      Some ((if neg then - 1 else 1) * of_nat (dec_value (map digit ds)) * 10 powi (p - 1 - int (length r)), t)"
    by (simp add: x_def d)
  moreover have "float_e ds p @ t = map digit [d] @ (if r = [] then [] else CHR ''.'' # map digit r) @ x"
    by (cases r) (simp_all add: float_e_def d x_def)
  ultimately show ?thesis
    unfolding float_value_def dec_value_digits [OF ds, symmetric] by (simp add: d algebra_simps)
qed

end
