(* ===== verification/Json_Value.thy ===== *)
theory Json_Value
  imports Json_Read Json_Compact "HOL-Library.Finite_Map"
begin

text \<open>
  The reference reader on whole JSON values, and the round trip: what \<open>json_marshal\<close> writes for a
  value of Go is read back as that value.  White space is skipped where the flag of the reader allows it.  The reader counts down from the length of the text, which
  suffices since every call reads a character.
\<close>

section \<open>Values\<close>

text \<open>A JSON value; an object is the finite map of its members.\<close>

datatype json =
    JNull
  | JBool bool
  | JNum rat
  | JString bytes
  | JArray "json list"
  | JObject "(bytes, json) fmap"

fun read_literal :: "string \<Rightarrow> (json \<times> string) option" where
  "read_literal s =
     (if take 4 s = ''null'' then Some (JNull, drop 4 s)
      else if take 4 s = ''true'' then Some (JBool True, drop 4 s)
      else if take 5 s = ''false'' then Some (JBool False, drop 5 s)
      else map_option (apfst JNum) (read_number s))"

declare read_literal.simps [simp del]

definition trim :: "bool \<Rightarrow> string \<Rightarrow> string" where
  "trim w s = (if w then dropWhile is_space s else s)"

text \<open>Of members with the same key the last one counts.\<close>

definition object_of :: "(bytes \<times> json) list \<Rightarrow> json" where
  "object_of ms = JObject (fmap_of_list (rev ms))"

fun read_value :: "bool \<Rightarrow> nat \<Rightarrow> string \<Rightarrow> (json \<times> string) option"
  and read_elements :: "bool \<Rightarrow> nat \<Rightarrow> string \<Rightarrow> (json list \<times> string) option"
  and read_members :: "bool \<Rightarrow> nat \<Rightarrow> string \<Rightarrow> ((bytes \<times> json) list \<times> string) option" where
  "read_value w 0 s = None"
| "read_value w (Suc n) s =
     (let v = trim w s; r = trim w (tl v)
      in if take 1 v = [dquote] then map_option (apfst JString) (read_chars (tl v))
         else if take 1 v = ''['' then
           (if take 1 r = '']'' then Some (JArray [], tl r) else map_option (apfst JArray) (read_elements w n r))
         else if take 1 v = ''{'' then
           (if take 1 r = ''}'' then Some (object_of [], tl r) else map_option (apfst object_of) (read_members w n r))
         else read_literal v)"
| "read_elements w 0 s = None"
| "read_elements w (Suc n) s =
     Option.bind (read_value w n s) (\<lambda>(j, q).
       let r = trim w q
       in if take 1 r = '','' then map_option (apfst (Cons j)) (read_elements w n (tl r))
          else if take 1 r = '']'' then Some ([j], tl r) else None)"
| "read_members w 0 s = None"
| "read_members w (Suc n) s =
     (let v = trim w s
      in if take 1 v = [dquote]
         then Option.bind (read_chars (tl v)) (\<lambda>(k, p).
           let q = trim w p
           in if take 1 q = '':''
              then Option.bind (read_value w n (tl q)) (\<lambda>(j, p').
                let r = trim w p'
                in if take 1 r = '','' then map_option (apfst (Cons (k, j))) (read_members w n (tl r))
                   else if take 1 r = ''}'' then Some ([(k, j)], tl r) else None)
              else None)
         else None)"

definition read_json :: "bool \<Rightarrow> string \<Rightarrow> json option" where
  "read_json w s = (case read_value w (length s) s of
      Some (j, r) \<Rightarrow> if trim w r = [] then Some j else None | None \<Rightarrow> None)"

lemma trim_simps [simp]:
  "trim w [] = []" "\<not> is_space c \<Longrightarrow> trim w (c # s) = c # s"
  by (simp_all add: trim_def)

lemma not_space [simp]:
  "\<not> is_space dquote" "\<not> is_space (CHR '','')" "\<not> is_space (CHR '':'')" "\<not> is_space (CHR ''['')"
  "\<not> is_space (CHR '']'')" "\<not> is_space (CHR ''{'')" "\<not> is_space (CHR ''}'')" "\<not> is_space (CHR ''-'')"
  "\<not> is_space (CHR ''n'')" "\<not> is_space (CHR ''t'')" "\<not> is_space (CHR ''f'')"
  "decimal_digit c \<Longrightarrow> \<not> is_space c"
  by (auto simp: is_space_def dquote_def decimal_digit_def)

section \<open>What a value of Go is in JSON\<close>

text \<open>Strings have to be well-formed UTF-8, floats finite; byte slices are strings in base64.\<close>

primrec json_ok :: "goval \<Rightarrow> bool" where
  "json_ok GNil \<longleftrightarrow> True"
| "json_ok (GBool b) \<longleftrightarrow> True"
| "json_ok (GInt w) \<longleftrightarrow> True"
| "json_ok (GUint w) \<longleftrightarrow> True"
| "json_ok (GFloat f) \<longleftrightarrow> (case f of FFin neg ds p \<Rightarrow> shortest_digits ds p | _ \<Rightarrow> False)"
| "json_ok (GString s) \<longleftrightarrow> valid_utf8 s"
| "json_ok (GBytes b) \<longleftrightarrow> True"
| "json_ok (GSlice vs) \<longleftrightarrow> list_all id (map json_ok vs)"
| "json_ok (GMap kvs) \<longleftrightarrow> distinct (map fst kvs) \<and>
     list_all (\<lambda>(k, ok). valid_utf8 k \<and> ok) (map (map_prod id json_ok) kvs)"

primrec json_of :: "goval \<Rightarrow> json" where
  "json_of GNil = JNull"
| "json_of (GBool b) = JBool b"
| "json_of (GInt w) = JNum (of_int (sint w))"
| "json_of (GUint w) = JNum (of_int (uint w))"
| "json_of (GFloat f) = (case f of FFin neg ds p \<Rightarrow> JNum (float_value neg ds p) | _ \<Rightarrow> JNull)"
| "json_of (GString s) = JString s"
| "json_of (GBytes b) = JString (base64 b)"
| "json_of (GSlice vs) = JArray (map json_of vs)"
| "json_of (GMap kvs) = JObject (fmap_of_list (map (map_prod id json_of) kvs))"

section \<open>Reading what was written\<close>

definition reads :: "string \<Rightarrow> json \<Rightarrow> bool" where
  "reads b j \<longleftrightarrow> b \<noteq> [] \<and> hd b \<notin> {CHR '']'', CHR '',''} \<and> \<not> is_space (hd b) \<and>
     (\<forall>w n t. length b \<le> n \<longrightarrow> ends_value t \<longrightarrow> read_value w n (b @ t) = Some (j, t))"

lemma readsI:
  assumes "b \<noteq> []" "hd b \<notin> {CHR '']'', CHR '',''}" "\<not> is_space (hd b)"
    and "\<And>w n t. length b \<le> Suc n \<Longrightarrow> ends_value t \<Longrightarrow> read_value w (Suc n) (b @ t) = Some (j, t)"
  shows "reads b j"
proof -
  have "read_value w n (b @ t) = Some (j, t)" if "length b \<le> n" "ends_value t" for w n t
    using assms(1) that assms(4) [of "n - 1" t w] by (cases n) auto
  with assms(1-3) show ?thesis by (auto simp: reads_def)
qed

lemma reads_value: "reads b j \<Longrightarrow> length b \<le> n \<Longrightarrow> ends_value t \<Longrightarrow> read_value w n (b @ t) = Some (j, t)"
  by (simp add: reads_def)

lemma reads_json: "reads b j \<Longrightarrow> read_json w b = Some j"
  using reads_value [of b j "length b" "[]"] by (simp add: read_json_def)

lemma reads_trim: "reads b j \<Longrightarrow> trim w (b @ t) = b @ t"
  by (cases b) (simp_all add: reads_def)

lemma trim_string [simp]: "trim w (json_string k @ t) = json_string k @ t"
  by (simp add: json_string_def)

lemma reads_string: "valid_utf8 s \<Longrightarrow> reads (json_string s) (JString s)"
  by (rule readsI) (simp_all add: json_string_def read_string)

lemma reads_number:
  assumes "b \<noteq> []" "hd b = CHR ''-'' \<or> decimal_digit (hd b)"
    and "\<And>t. ends_value t \<Longrightarrow> read_number (b @ t) = Some (x, t)"
  shows "reads b (JNum x)"
proof (rule readsI [OF assms(1)])
  obtain c r where b: "b = c # r" using assms(1) by (cases b) auto
  from assms(2) have c: "c \<notin> {dquote, CHR ''['', CHR ''{'', CHR ''n'', CHR ''t'', CHR ''f'', CHR '']'', CHR '',''}"
    by (auto simp: b decimal_digit_def dquote_def)
  then show "hd b \<notin> {CHR '']'', CHR '',''}" by (auto simp: b)
  show space: "\<not> is_space (hd b)" using assms(2) by auto
  show "read_value w (Suc n) (b @ t) = Some (JNum x, t)" if "ends_value t" for w n t
    using assms(3) [OF that] c space by (simp add: b read_literal.simps)
qed

lemma reads_literal:
  "reads ''null'' JNull" "reads ''true'' (JBool True)" "reads ''false'' (JBool False)"
  by (rule readsI; simp add: dquote_def read_literal.simps)+

lemma read_elements_all:
  assumes "list_all2 reads ps js" "ps \<noteq> []" "length (join '','' ps) < n"
  shows "read_elements w n (join '','' ps @ CHR '']'' # t) = Some (js, t)"
  using assms
proof (induction ps js arbitrary: n rule: list_all2_induct)
  case Nil
  then show ?case by simp
next
  case (Cons p ps j js)
  then obtain m where m: "n = Suc m" by (cases n) auto
  show ?case
  proof (cases "ps = []")
    case True
    with Cons m show ?thesis by (simp add: reads_value)
  next
    case False
    with Cons m have "read_elements w m (join '','' ps @ CHR '']'' # t) = Some (js, t)" by simp
    moreover have "read_value w m (p @ CHR '','' # join '','' ps @ CHR '']'' # t) =
        Some (j, CHR '','' # join '','' ps @ CHR '']'' # t)"
      using Cons False m by (intro reads_value) auto
    ultimately show ?thesis using False by (simp add: m)
  qed
qed

text \<open>A member of an object.\<close>

definition reads_member :: "string \<Rightarrow> bytes \<times> json \<Rightarrow> bool" where
  "reads_member p kj \<longleftrightarrow> (\<exists>b. p = json_string (fst kj) @ CHR '':'' # b \<and> valid_utf8 (fst kj) \<and> reads b (snd kj))"

lemma read_members_all:
  assumes "list_all2 reads_member ps kjs" "ps \<noteq> []" "length (join '','' ps) < n"
  shows "read_members w n (join '','' ps @ CHR ''}'' # t) = Some (kjs, t)"
  using assms
proof (induction ps kjs arbitrary: n rule: list_all2_induct)
  case Nil
  then show ?case by simp
next
  case (Cons p ps kj kjs)
  then obtain m where m: "n = Suc m" by (cases n) auto
  obtain k j b where kj: "kj = (k, j)" and p: "p = json_string k @ CHR '':'' # b" "valid_utf8 k" and b: "reads b j"
    using Cons(1) by (cases kj) (auto simp: reads_member_def)
  have key: "read_chars (json_escape k @ dquote # r) = Some (k, r)" for r using p(2) by (rule read_string)
  show ?case
  proof (cases "ps = []")
    case True
    with Cons(5) m p have "read_value w m (b @ CHR ''}'' # t) = Some (j, CHR ''}'' # t)"
      by (intro reads_value [OF b]) simp_all
    with True key Cons(2) show ?thesis by (simp add: m kj p(1) json_string_def)
  next
    case False
    let ?r = "join '','' ps @ CHR ''}'' # t"
    from False Cons m have "read_members w m ?r = Some (kjs, t)" by simp
    moreover from Cons(5) False m p have "read_value w m (b @ CHR '','' # ?r) = Some (j, CHR '','' # ?r)"
      by (intro reads_value [OF b]) simp_all
    ultimately show ?thesis using False key by (simp add: m kj p(1) json_string_def)
  qed
qed

lemma reads_array:
  assumes "list_all2 reads ps js"
  shows "reads (''['' @ join '','' ps @ '']'') (JArray js)"
proof (cases ps)
  case Nil
  with assms show ?thesis by (intro readsI) (simp_all add: dquote_def)
next
  case (Cons p qs)
  with assms obtain j where p: "reads p j" by (auto simp: list_all2_Cons1)
  then have front: "take 1 (join '','' ps @ t) \<noteq> '']''" "trim w (join '','' ps @ t) = join '','' ps @ t" for w t
    by (cases p; simp add: Cons reads_def)+
  show ?thesis
  proof (rule readsI)
    fix w n t
    assume "length (''['' @ join '','' ps @ '']'') \<le> Suc n"
    then have "read_elements w n (join '','' ps @ CHR '']'' # t) = Some (js, t)"
      by (intro read_elements_all [OF assms]) (simp_all add: Cons)
    with front show "read_value w (Suc n) ((''['' @ join '','' ps @ '']'') @ t) = Some (JArray js, t)"
      by (simp add: dquote_def)
  qed simp_all
qed

lemma reads_object:
  assumes "list_all2 reads_member ps kjs"
  shows "reads (''{'' @ join '','' ps @ ''}'') (object_of kjs)"
proof (cases ps)
  case Nil
  with assms show ?thesis by (intro readsI) (simp_all add: dquote_def)
next
  case (Cons p qs)
  with assms obtain kj where "reads_member p kj" by (auto simp: list_all2_Cons1)
  then have front: "take 1 (join '','' ps @ t) \<noteq> ''}''" "trim w (join '','' ps @ t) = join '','' ps @ t" for w t
    by (auto simp: Cons reads_member_def json_string_def)
  show ?thesis
  proof (rule readsI)
    fix w n t
    assume "length (''{'' @ join '','' ps @ ''}'') \<le> Suc n"
    then have "read_members w n (join '','' ps @ CHR ''}'' # t) = Some (kjs, t)"
      by (intro read_members_all [OF assms]) (simp_all add: Cons)
    with front show "read_value w (Suc n) ((''{'' @ join '','' ps @ ''}'') @ t) = Some (object_of kjs, t)"
      by (simp add: dquote_def)
  qed simp_all
qed

section \<open>The round trip\<close>

lemma insort_key_map: "insort_key fst (map_prod id f x) (map (map_prod id f) xs) = map (map_prod id f) (insort_key fst x xs)"
  by (induction xs) auto

lemma sort_key_map: "sort_key fst (map (map_prod id f) kvs) = map (map_prod id f) (sort_key fst kvs)"
  by (induction kvs) (simp_all only: list.map sort_key_simps insort_key_map)

lemma object_of_sort:
  fixes kvs :: "(bytes \<times> 'b) list"
  assumes "distinct (map fst kvs)"
  shows "object_of (map (map_prod id f) (sort_key fst kvs)) = JObject (fmap_of_list (map (map_prod id f) kvs))"
proof -
  have "distinct (map fst (rev (sort_key fst kvs)))"
    using assms by (simp add: distinct_map rev_map)
  then have "map_of (rev (sort_key fst kvs)) = map_of kvs"
    using assms by (simp add: map_of_inject_set)
  moreover have "map_of (map (map_prod id f) xs) = map_option f \<circ> map_of xs" for xs :: "(bytes \<times> 'b) list"
    by (induction xs) auto
  ultimately have "fmap_of_list (map (map_prod id f) (rev (sort_key fst kvs))) = fmap_of_list (map (map_prod id f) kvs)"
    by (intro fmap_ext) (simp add: fmlookup_of_list)
  then show ?thesis by (simp add: object_of_def rev_map)
qed

lemma collect_all:
  fixes f :: "'a \<Rightarrow> ('b, 'e) result"
  assumes "\<And>x. x \<in> set xs \<Longrightarrow> \<exists>b. f x = Ok b \<and> R b (g x)"
  shows "\<exists>bs. collect (map f xs) = Ok bs \<and> list_all2 R bs (map g xs)"
  using assms
proof (induction xs)
  case Nil
  then show ?case by simp
next
  case (Cons x xs)
  then obtain b bs where "f x = Ok b" "R b (g x)" "collect (map f xs) = Ok bs" "list_all2 R bs (map g xs)"
    by (metis list.set_intros)
  then show ?case by simp
qed

text \<open>Base64 is written as it is.\<close>

definition plain_char :: "char \<Rightarrow> bool" where
  "plain_char c \<longleftrightarrow> (let x = of_char c :: nat in 32 \<le> x \<and> x < 128 \<and> x \<notin> {34, 38, 60, 62, 92})"

lemma plain_special:
  "\<not> plain_char backslash" "\<not> plain_char dquote" "\<not> plain_char (CHR ''<'')" "\<not> plain_char (CHR ''>'')"
  "\<not> plain_char (CHR ''&'')" "\<not> plain_char (CHR 0x0A)" "\<not> plain_char (CHR 0x0D)" "\<not> plain_char (CHR 0x09)"
  by (simp_all add: plain_char_def backslash_def dquote_def)

lemma plain_string: "list_all plain_char s \<Longrightarrow> valid_utf8 s \<and> json_escape s = s"
proof (induction s)
  case (Cons c s)
  then have c: "32 \<le> (of_char c :: nat)" "(of_char c :: nat) < 128" "plain_char c"
    by (simp_all add: plain_char_def Let_def)
  then have "escape_ascii c = [c]" using plain_special by (metis escape_ascii_def not_less)
  with Cons c show ?case by simp
qed simp

lemma plain_b64: "plain_char (b64_char n)"
proof -
  have plain: "plain_char (char_of m)"
    if "65 \<le> m \<and> m \<le> 90 \<or> 97 \<le> m \<and> m \<le> 122 \<or> 48 \<le> m \<and> m \<le> 57" for m :: nat
  proof -
    from that have "of_char (char_of m :: char) = m" by (auto simp: of_char_of)
    with that show ?thesis by (simp add: plain_char_def Let_def) linarith
  qed
  have "plain_char (CHR ''+'')" "plain_char (CHR 0x2F)" by (simp_all add: plain_char_def)
  with plain [of "65 + n"] plain [of "71 + n"] plain [of "n - 4"] show ?thesis
    by (simp add: b64_char_def) linarith
qed

lemma plain_base64: "list_all plain_char (base64 b)"
proof -
  have "plain_char (CHR ''='')" by (simp add: plain_char_def)
  then show ?thesis by (induction b rule: base64.induct) (simp_all add: Let_def plain_b64)
qed

lemma reads_float:
  assumes "shortest_digits ds p"
  obtains b where "json_float (FFin neg ds p) = (Ok b :: (bytes, 'e) result)" "reads b (JNum (float_value neg ds p))"
proof -
  define body where "body = (if ds \<noteq> [] \<and> (p \<le> -6 \<or> 22 \<le> p) then float_e ds p else float_f ds p)"
  have front: "body \<noteq> [] \<and> decimal_digit (hd body)"
  proof (cases ds)
    case Nil
    with assms show ?thesis by (simp add: body_def float_f_def shortest_digits_def)
  next
    case (Cons d r)
    with assms have "decimal_digit (digit d)" by (simp add: shortest_digits_def digit_value)
    with Cons show ?thesis
      by (cases "nat p") (auto simp: body_def float_e_def float_f_def Let_def hd_append)
  qed
  have "reads ((if neg then ''-'' else []) @ body) (JNum (float_value neg ds p))"
  proof (rule reads_number)
    show "read_number (((if neg then ''-'' else []) @ body) @ t) = Some (float_value neg ds p, t)" if "ends_value t" for t
    proof -
      have "ds \<noteq> [] \<and> body = float_e ds p \<or> body = float_f ds p" by (simp add: body_def)
      then show ?thesis
        using read_float_e [OF assms _ that, of neg] read_float_f [OF assms that, of neg] by (metis append_assoc)
    qed
  qed (use front in auto)
  then show thesis by (intro that) (simp_all add: body_def)
qed

lemma reads_int: "reads (dec_int i) (JNum (of_int i))"
proof (rule reads_number)
  show "dec_int i \<noteq> []" "hd (dec_int i) = CHR ''-'' \<or> decimal_digit (hd (dec_int i))"
    using dec_nat_digits [of "nat i"] by (cases "dec_nat (nat i)"; auto simp: dec_int_def)+
qed (rule read_int)

lemma json_marshal_reads:
  "json_ok v \<Longrightarrow> \<exists>b. json_marshal v = (Ok b :: (bytes, 'e) result) \<and> reads b (json_of v)"
proof (induction v)
  case (GInt w)
  show ?case using reads_int [of "sint w"] by simp
next
  case (GUint w)
  show ?case using reads_int [of "uint w"] by simp
next
  case (GFloat f)
  then obtain neg ds p where f: "f = FFin neg ds p" "shortest_digits ds p" by (cases f) auto
  from reads_float [OF f(2), of neg] obtain b where "json_float f = (Ok b :: (bytes, 'e) result)"
    "reads b (JNum (float_value neg ds p))" unfolding f(1) .
  with f(1) show ?case by simp
next
  case (GSlice vs)
  then have "\<exists>bs. collect (map json_marshal vs) = (Ok bs :: (_, 'e) result) \<and> list_all2 reads bs (map json_of vs)"
    by (intro collect_all) (auto simp: list_all_iff)
  then show ?case using reads_array by fastforce
next
  case (GMap kvs)
  let ?f = "json_marshal :: goval \<Rightarrow> (bytes, 'e) result"
  have "\<exists>b. json_member (map_prod id ?f kv) = Ok b \<and> reads_member b (map_prod id json_of kv)"
    if "kv \<in> set (sort_key fst kvs)" for kv
  proof -
    from that have kv: "kv \<in> set kvs" by simp
    with GMap.prems have ok: "valid_utf8 (fst kv)" "json_ok (snd kv)" by (auto simp: list_all_iff split_def)
    from GMap.IH [of kv "snd kv"] kv ok(2) obtain b where "?f (snd kv) = Ok b" "reads b (json_of (snd kv))"
      by (cases kv) fastforce
    with ok(1) show ?thesis by (simp add: json_member_def reads_member_def)
  qed
  then obtain bs where bs: "collect (map (json_member \<circ> map_prod id ?f) (sort_key fst kvs)) = Ok bs"
    "list_all2 reads_member bs (map (map_prod id json_of) (sort_key fst kvs))"
    using collect_all [of "sort_key fst kvs" "json_member \<circ> map_prod id ?f" reads_member "map_prod id json_of"]
    by auto
  from reads_object [OF bs(2)] GMap.prems bs(1) show ?case
    by (simp add: sort_key_map object_of_sort)
next
  case (GBytes b)
  show ?case using reads_string [of "base64 b"] plain_string [OF plain_base64] by (simp add: json_string_def)
qed (auto simp: reads_literal reads_string)

text \<open>What is written for a value is JSON for it.\<close>

lemma json_marshal_read:
  assumes "json_ok v"
  obtains b where "json_marshal v = (Ok b :: (bytes, 'e) result)" "\<And>w. read_json w b = Some (json_of v)"
  using json_marshal_reads [OF assms, where 'e = 'e] reads_json by blast

lemma json_marshal_inj:
  assumes "json_marshal v = (json_marshal w :: (bytes, 'e) result)" "json_ok v" "json_ok w"
  shows "json_of v = json_of w"
proof -
  obtain b where "json_marshal v = (Ok b :: (bytes, 'e) result)" "read_json False b = Some (json_of v)"
    using json_marshal_read [OF assms(2), where 'e = 'e] by blast
  moreover obtain b' where "json_marshal w = (Ok b' :: (bytes, 'e) result)" "read_json False b' = Some (json_of w)"
    using json_marshal_read [OF assms(3), where 'e = 'e] by blast
  ultimately show ?thesis using assms(1) by simp
qed

end
