(* ===== verification/Json_Text.thy ===== *)
theory Json_Text
  imports Json_Value
begin

text \<open>
  What the reader of \<open>Json_Value\<close> does with a text, whichever it is: a number or literal is read from
  its own characters, every call reads at least one character, and counting down from the length of
  the text that is read is enough.
\<close>

section \<open>Numbers and literals\<close>

definition bare :: "char \<Rightarrow> bool" where
  "bare c \<longleftrightarrow> \<not> is_space c \<and> c \<noteq> dquote"

lemma bare_chars [simp]:
  "bare (CHR ''-'')" "bare (CHR ''+'')" "bare (CHR ''.'')" "bare (CHR ''e'')" "bare (CHR ''E'')"
  "bare (CHR ''n'')" "bare (CHR ''u'')" "bare (CHR ''l'')" "bare (CHR ''t'')" "bare (CHR ''r'')" "bare (CHR ''f'')"
  "bare (CHR ''a'')" "bare (CHR ''s'')"
  by (simp_all add: bare_def is_space_def dquote_def)

lemma bare_digit: "decimal_digit c \<Longrightarrow> bare c"
  by (auto simp: bare_def)

lemma bare_digits: "list_all decimal_digit ds \<Longrightarrow> list_all bare ds"
  by (simp add: list_all_iff bare_digit)

lemma take_1_eq: "take (Suc 0) s = [c] \<longleftrightarrow> (\<exists>t. s = c # t)"
  by (cases s) auto

lemma read_digits_text:
  assumes "read_digits s = Some (ds, r)"
  shows "s = ds @ r" "ds \<noteq> []" "list_all decimal_digit ds"
  using assms by (auto simp: read_digits_def Let_def list_all_iff dest: set_takeWhileD split: if_splits)

lemma read_fraction_text:
  assumes "read_fraction s = Some (fr, r)"
  shows "s = (if fr = [] then [] else CHR ''.'' # fr) @ r" "list_all decimal_digit fr"
  using assms read_digits_text [of "tl s" fr r]
  by (auto simp: read_fraction_def take_1_eq split: if_splits)

lemma read_exponent_text:
  assumes "read_exponent s = Some (x, r)"
  obtains pre where "s = pre @ r" "list_all bare pre" "pre = [] \<or> hd pre \<in> {CHR ''e'', CHR ''E''}"
    "\<And>t. ends_value t \<Longrightarrow> read_exponent (pre @ t) = Some (x, t)"
proof (cases "take 1 s = ''e'' \<or> take 1 s = ''E''")
  case False
  with assms that [of "[]"] read_exponent_end show thesis by (auto simp: read_exponent_def)
next
  case True
  define u where "u = tl s"
  define neg where "neg \<longleftrightarrow> take 1 u = ''-''"
  define sign where "sign = (if neg then ''-'' else if take 1 u = ''+'' then ''+'' else [])"
  define c where "c = hd s"
  have c: "c \<in> {CHR ''e'', CHR ''E''}" "s = c # u" using True by (cases s; auto simp: u_def c_def)+
  have u: "u = sign @ drop (length sign) u" by (cases u) (simp_all add: sign_def neg_def)
  have rest: "(if neg \<or> take 1 u = ''+'' then tl u else u) = drop (length sign) u"
    by (cases u) (simp_all add: sign_def neg_def)
  have "read_exponent s = map_option (apfst (\<lambda>ds. if neg then - int (dec_value ds) else int (dec_value ds)))
      (read_digits (drop (length sign) u))"
    unfolding rest [symmetric] using True by (simp add: read_exponent_def Let_def u_def neg_def)
  with assms obtain ds where ds: "read_digits (drop (length sign) u) = Some (ds, r)"
    "x = (if neg then - int (dec_value ds) else int (dec_value ds))"
    by auto
  note digits = read_digits_text [OF ds(1)]
  from digits(2,3) obtain d ds' where d: "ds = d # ds'" "decimal_digit d" by (cases ds) auto
  show thesis
  proof (rule that [of "c # sign @ ds"])
    show "s = (c # sign @ ds) @ r" using u digits(1) c(2) by simp
    show "list_all bare (c # sign @ ds)" using c(1) bare_digits [OF digits(3)] by (auto simp: sign_def)
    show "read_exponent ((c # sign @ ds) @ t) = Some (x, t)" if "ends_value t" for t
      using c(1) read_digits_front [OF digits(2,3), of t] that ds(2) d
      by (auto simp: read_exponent_def Let_def sign_def)
  qed (use c(1) in auto)
qed

lemma read_number_text:
  assumes "read_number s = Some (x, r)"
  obtains pre where "s = pre @ r" "pre \<noteq> []" "list_all bare pre" "hd pre = CHR ''-'' \<or> decimal_digit (hd pre)"
    "\<And>t. ends_value t \<Longrightarrow> read_number (pre @ t) = Some (x, t)"
proof -
  define neg where "neg \<longleftrightarrow> take 1 s = ''-''"
  have s: "s = (if neg then ''-'' else []) @ (if neg then tl s else s)" by (cases s) (auto simp: neg_def)
  define u where "u = (if neg then tl s else s)"
  define sign :: rat where "sign = (if neg then - 1 else 1)"
  have "read_number s = Option.bind (read_digits u) (\<lambda>(ip, r1).
      if 1 < length ip \<and> hd ip = CHR ''0'' then None
      else Option.bind (read_fraction r1) (\<lambda>(fr, r2). Option.bind (read_exponent r2) (\<lambda>(x, r3).
        Some (sign * of_nat (dec_value (ip @ fr)) * 10 powi (x - int (length fr)), r3))))"
    unfolding read_number_def Let_def u_def neg_def sign_def ..
  with assms obtain ip fr y r1 r2 where ip: "read_digits u = Some (ip, r1)" "\<not> (1 < length ip \<and> hd ip = CHR ''0'')"
    and fr: "read_fraction r1 = Some (fr, r2)" and y: "read_exponent r2 = Some (y, r)"
    and x: "x = sign * of_nat (dec_value (ip @ fr)) * 10 powi (y - int (length fr))"
    by (auto simp: bind_eq_Some_conv split: if_splits)
  note ip' = read_digits_text [OF ip(1)] and fr' = read_fraction_text [OF fr]
  from y obtain pre where pre: "r2 = pre @ r" "list_all bare pre" "pre = [] \<or> hd pre \<in> {CHR ''e'', CHR ''E''}"
    "\<And>t. ends_value t \<Longrightarrow> read_exponent (pre @ t) = Some (y, t)" by (rule read_exponent_text) blast
  let ?p = "(if neg then ''-'' else []) @ ip @ (if fr = [] then [] else CHR ''.'' # fr) @ pre"
  show thesis
  proof (rule that [of ?p])
    show "s = ?p @ r" using s ip'(1) fr'(1) pre(1) unfolding u_def by simp
    show "list_all bare ?p" using bare_digits [OF ip'(3)] bare_digits [OF fr'(2)] pre(2) by simp
    show "read_number (?p @ t) = Some (x, t)" if t: "ends_value t" for t
    proof -
      have "after_digits (pre @ t) \<and> take 1 (pre @ t) \<noteq> ''.''"
      proof (cases pre)
        case Nil
        with ends_value_dot [OF t] t show ?thesis by simp
      next
        case (Cons d p)
        with pre(3) have "d = CHR ''e'' \<or> d = CHR ''E''" by simp
        then show ?thesis by (auto simp: Cons after_digits_def decimal_digit_def)
      qed
      then have "after_digits (pre @ t)" "take 1 (pre @ t) \<noteq> ''.''" by blast+
      from read_number_front [OF ip'(2,3) _ fr'(2) this pre(4) [OF t], of neg] ip(2) show ?thesis
        by (simp add: x sign_def)
    qed
  next
    show "hd ?p = CHR ''-'' \<or> decimal_digit (hd ?p)" using ip'(2,3) by (cases ip) auto
  qed (use ip'(2) in simp)
qed

lemma read_literal_text:
  assumes "read_literal s = Some (j, r)"
  obtains pre where "s = pre @ r" "pre \<noteq> []" "list_all bare pre"
    "\<And>t. ends_value t \<Longrightarrow> read_literal (pre @ t) = Some (j, t)"
proof -
  have word: "take 4 s = ''null'' \<Longrightarrow> s = ''null'' @ drop 4 s" "take 4 s = ''true'' \<Longrightarrow> s = ''true'' @ drop 4 s"
    "take 5 s = ''false'' \<Longrightarrow> s = ''false'' @ drop 5 s"
    by (metis append_take_drop_id)+
  have again: "read_literal (''null'' @ t) = Some (JNull, t)" "read_literal (''true'' @ t) = Some (JBool True, t)"
    "read_literal (''false'' @ t) = Some (JBool False, t)" for t
    by (simp_all add: read_literal.simps)
  consider "take 4 s = ''null''" "j = JNull" "r = drop 4 s" | "take 4 s = ''true''" "j = JBool True" "r = drop 4 s"
    | "take 5 s = ''false''" "j = JBool False" "r = drop 5 s" | x where "read_number s = Some (x, r)" "j = JNum x"
    using assms by (auto simp: read_literal.simps split: if_splits)
  then show thesis
  proof cases
    case 1
    with word(1) again(1) show thesis by (intro that [of "''null''"]) simp_all
  next
    case 2
    with word(2) again(2) show thesis by (intro that [of "''true''"]) simp_all
  next
    case 3
    with word(3) again(3) show thesis by (intro that [of "''false''"]) simp_all
  next
    case x: (4 x)
    from x(1) show thesis
    proof (rule read_number_text)
      fix pre
      assume pre: "s = pre @ r" "pre \<noteq> []" "list_all bare pre" "hd pre = CHR ''-'' \<or> decimal_digit (hd pre)"
        "\<And>t. ends_value t \<Longrightarrow> read_number (pre @ t) = Some (x, t)"
      obtain c p where c: "pre = c # p" using pre(2) by (cases pre) auto
      with pre(4) have "c \<noteq> CHR ''n''" "c \<noteq> CHR ''t''" "c \<noteq> CHR ''f''" by (auto simp: decimal_digit_def)
      then have "read_literal (pre @ t) = Some (j, t)" if "ends_value t" for t
        using pre(5) [OF that] by (simp add: read_literal.simps c x(2))
      with pre(1-3) show thesis by (rule that)
    qed
  qed
qed

section \<open>Every call reads a character\<close>

lemma read_chars_shorter: "read_chars s = Some (b, r) \<Longrightarrow> length r < length s"
proof (induction s arbitrary: b rule: read_chars.induct)
  case (2 c cs)
  then show ?case
    by (auto split: if_splits list.splits option.splits) (fastforce simp: less_Suc_eq)+
qed simp

lemma trim_length: "length (trim w s) \<le> length s"
  by (simp add: trim_def length_dropWhile_le)

lemma tl_length: "take 1 s = [c] \<Longrightarrow> length s = Suc (length (tl s))"
  by (cases s) auto

definition fuelled :: "(nat \<Rightarrow> string \<Rightarrow> ('a \<times> string) option) \<Rightarrow> string \<Rightarrow> 'a \<Rightarrow> string \<Rightarrow> bool" where
  "fuelled f s x r \<longleftrightarrow> length r < length s \<and> (\<forall>m. length s \<le> m + length r \<longrightarrow> f m s = Some (x, r))"

lemma fuelledD: "fuelled f s x r \<Longrightarrow> length s \<le> m + length r \<Longrightarrow> f m s = Some (x, r)"
  by (simp add: fuelled_def)

lemma fuelled_shorter: "fuelled f s x r \<Longrightarrow> length r < length s"
  by (simp add: fuelled_def)

lemma fuelledI:
  assumes "length r < length s" "\<And>m. length s \<le> Suc m + length r \<Longrightarrow> f (Suc m) s = Some (x, r)"
  shows "fuelled f s x r"
proof -
  have "f m s = Some (x, r)" if "length s \<le> m + length r" for m
    using assms that by (cases m) auto
  with assms(1) show ?thesis by (simp add: fuelled_def)
qed

text \<open>What a call has read, by the kind of value at the front.\<close>

lemma read_value_cases:
  assumes "read_value w (Suc n) s = Some (j, r)"
  obtains (string) u b where "trim w s = dquote # u" "read_chars u = Some (b, r)" "j = JString b"
    | (no_element) u where "trim w s = CHR ''['' # u" "trim w u = CHR '']'' # r" "j = JArray []"
    | (array) u js where "trim w s = CHR ''['' # u" "take 1 (trim w u) \<noteq> '']''"
        "read_elements w n (trim w u) = Some (js, r)" "j = JArray js"
    | (no_member) u where "trim w s = CHR ''{'' # u" "trim w u = CHR ''}'' # r" "j = object_of []"
    | (object) u ms where "trim w s = CHR ''{'' # u" "take 1 (trim w u) \<noteq> ''}''"
        "read_members w n (trim w u) = Some (ms, r)" "j = object_of ms"
    | (literal) "take 1 (trim w s) \<notin> {[dquote], ''['', ''{''}" "read_literal (trim w s) = Some (j, r)"
  using assms by (auto simp: Let_def take_1_eq split: if_splits)

lemma read_elements_cases:
  assumes "read_elements w (Suc n) s = Some (js, r)"
  obtains (last) j q where "read_value w n s = Some (j, q)" "trim w q = CHR '']'' # r" "js = [j]"
    | (more) j q u js' where "read_value w n s = Some (j, q)" "trim w q = CHR '','' # u"
        "read_elements w n u = Some (js', r)" "js = j # js'"
  using assms by (auto simp: Let_def take_1_eq bind_eq_Some_conv split: if_splits)

lemma read_members_cases:
  assumes "read_members w (Suc n) s = Some (ms, r)"
  obtains (last) u k p x j q where "trim w s = dquote # u" "read_chars u = Some (k, p)" "trim w p = CHR '':'' # x"
        "read_value w n x = Some (j, q)" "trim w q = CHR ''}'' # r" "ms = [(k, j)]"
    | (more) u k p x j q y ms' where "trim w s = dquote # u" "read_chars u = Some (k, p)"
        "trim w p = CHR '':'' # x" "read_value w n x = Some (j, q)" "trim w q = CHR '','' # y"
        "read_members w n y = Some (ms', r)" "ms = (k, j) # ms'"
  using assms by (auto simp: Let_def take_1_eq bind_eq_Some_conv split: if_splits)

lemma trim_shorter: "trim w s = c # u \<Longrightarrow> length u < length s"
  using trim_length [of w s] by simp

lemma read_fuelled:
  shows "read_value w n s = Some (j, r) \<Longrightarrow> fuelled (read_value w) s j r"
    and "read_elements w n s = Some (js, r) \<Longrightarrow> fuelled (read_elements w) s js r"
    and "read_members w n s = Some (ms, r) \<Longrightarrow> fuelled (read_members w) s ms r"
proof (induction n arbitrary: s j js ms r)
  case (Suc n)
  note IH = Suc.IH
  {
    case 1
    then show ?case
    proof (cases rule: read_value_cases)
      case (string u b)
      with read_chars_shorter [OF string(2)] trim_shorter [OF string(1)] show ?thesis by (intro fuelledI) simp_all
    next
      case (no_element u)
      with trim_shorter [OF no_element(1)] trim_shorter [OF no_element(2)] show ?thesis by (intro fuelledI) (simp_all add: Let_def)
    next
      case (array u js)
      note inner = IH(2) [OF array(3)]
      show ?thesis
        using fuelled_shorter [OF inner] fuelledD [OF inner] trim_shorter [OF array(1)] trim_length [of w u] array
        by (intro fuelledI) simp_all
    next
      case (no_member u)
      with trim_shorter [OF no_member(1)] trim_shorter [OF no_member(2)] show ?thesis by (intro fuelledI) (simp_all add: Let_def)
    next
      case (object u ms)
      note inner = IH(3) [OF object(3)]
      show ?thesis
        using fuelled_shorter [OF inner] fuelledD [OF inner] trim_shorter [OF object(1)] trim_length [of w u] object
        by (intro fuelledI) simp_all
    next
      case literal
      from literal(2) obtain pre where "trim w s = pre @ r" "pre \<noteq> []" by (rule read_literal_text) blast
      moreover from this have "length r < length s" using trim_length [of w s] by (cases pre) auto
      ultimately show ?thesis using literal by (intro fuelledI) (auto simp: Let_def)
    qed
  next
    case 2
    then show ?case
    proof (cases rule: read_elements_cases)
      case (last j q)
      note head = IH(1) [OF last(1)]
      show ?thesis
        using fuelled_shorter [OF head] fuelledD [OF head] trim_shorter [OF last(2)] last
        by (intro fuelledI) simp_all
    next
      case (more j q u js')
      note head = IH(1) [OF more(1)] and rest = IH(2) [OF more(3)]
      show ?thesis
        using fuelled_shorter [OF head] fuelledD [OF head] fuelled_shorter [OF rest] fuelledD [OF rest]
          trim_shorter [OF more(2)] more
        by (intro fuelledI) simp_all
    qed
  next
    case 3
    then show ?case
    proof (cases rule: read_members_cases)
      case (last u k p x j q)
      note head = IH(1) [OF last(4)]
      show ?thesis
        using fuelled_shorter [OF head] fuelledD [OF head] trim_shorter [OF last(1)] read_chars_shorter [OF last(2)]
          trim_shorter [OF last(3)] trim_shorter [OF last(5)] last
        by (intro fuelledI) simp_all
    next
      case (more u k p x j q y ms')
      note head = IH(1) [OF more(4)] and rest = IH(3) [OF more(6)]
      show ?thesis
        using fuelled_shorter [OF head] fuelledD [OF head] fuelled_shorter [OF rest] fuelledD [OF rest]
          trim_shorter [OF more(1)] read_chars_shorter [OF more(2)] trim_shorter [OF more(3)] trim_shorter [OF more(5)] more
        by (intro fuelledI) simp_all
    qed
  }
qed simp_all

end
