(* ===== verification/Json_Space.thy ===== *)
theory Json_Space
  imports Json_Text
begin

text \<open>
  What the compaction of \<open>encoding/json\<close> does to a document: \<open>squeeze\<close> is its specification without
  the scanner, which drops white space outside of strings and escapes some characters inside, and the
  reader of \<open>Json_Value\<close> finds the same value in both texts.
\<close>

section \<open>Compaction without a scanner\<close>

definition html_char :: "char \<Rightarrow> bool" where
  "html_char c \<longleftrightarrow> c = CHR ''<'' \<or> c = CHR ''>'' \<or> c = CHR ''&''"

text \<open>The flag says whether the text starts inside a string.\<close>

fun squeeze :: "bool \<Rightarrow> bytes \<Rightarrow> bytes" where
  "squeeze q [] = []"
| "squeeze False (c # cs) = (if is_space c then squeeze False cs else c # squeeze (c = dquote) cs)"
| "squeeze True (c # cs) =
     (if c = dquote then c # squeeze False cs
      else if c = backslash then (case cs of [] \<Rightarrow> [c] | d # ds \<Rightarrow> c # d # squeeze True ds)
      else if html_char c then escape_u00 c @ squeeze True cs
      else if line_separator (c # cs) then escape_separator (c # cs) @ squeeze True (drop 2 cs)
      else c # squeeze True cs)"

lemma compact_emit_0:
  "compact_emit 0 (c # cs) = (if html_char c then (0, escape_u00 c)
     else if line_separator (c # cs) then (2, escape_separator (c # cs)) else (0, [c]))"
  by (simp add: compact_emit_def html_char_def)

text \<open>Scanner states outside of strings, and those in an escape sequence.\<close>

fun outside :: "scan_state \<Rightarrow> bool" where
  "outside (Lit cs) \<longleftrightarrow> set cs \<subseteq> set ''rueals''"
| "outside st \<longleftrightarrow>
     st \<notin> {InString, InStringEsc, InStringEscU, InStringEscU1, InStringEscU12, InStringEscU123, ScanError}"

definition hex_digits_left :: "scan_state \<Rightarrow> bool" where
  "hex_digits_left st \<longleftrightarrow> st \<in> {InStringEscU, InStringEscU1, InStringEscU12, InStringEscU123}"

text \<open>
  A step outside of strings, unless it fails, drops white space, keeps any other byte, none of which is
  ever escaped, and enters a string at a quote.
\<close>

definition token_step :: "char \<Rightarrow> scanner \<times> scan_op \<Rightarrow> bool" where
  "token_step c r \<longleftrightarrow> sc_step (fst r) = ScanError \<or>
     snd r = (if is_space c then Skip else Keep) \<and>
     (if c = dquote then sc_step (fst r) = InString else outside (sc_step (fst r))) \<and>
     (is_space c \<or> \<not> html_char c \<and> c \<noteq> CHR 0xE2)"

definition token_char :: "char \<Rightarrow> bool" where
  "token_char c \<longleftrightarrow> \<not> is_space c \<and> \<not> html_char c \<and> c \<noteq> CHR 0xE2"

lemma token_chars [simp]:
  "token_char dquote" "token_char (CHR '','')" "token_char (CHR '':'')" "token_char (CHR ''['')"
  "token_char (CHR '']'')" "token_char (CHR ''{'')" "token_char (CHR ''}'')" "token_char (CHR ''-'')"
  "token_char (CHR ''+'')" "token_char (CHR ''.'')" "token_char (CHR ''e'')" "token_char (CHR ''E'')"
  "token_char (CHR ''0'')" "token_char (CHR ''t'')" "token_char (CHR ''f'')" "token_char (CHR ''n'')"
  by (simp_all add: token_char_def is_space_def html_char_def dquote_def)

lemma token_letter: "c \<in> set ''truefalsenull'' \<Longrightarrow> token_char c \<and> c \<noteq> dquote"
  by (auto simp: token_char_def is_space_def html_char_def dquote_def)

lemma token_is_digit: "is_digit c \<Longrightarrow> token_char c \<and> c \<noteq> dquote"
  by (auto simp: token_char_def html_char_def is_digit_def is_space_def dquote_def)

lemma space_dquote [simp]: "is_space c \<Longrightarrow> c \<noteq> dquote"
  by auto

lemma token_step_simps [simp]:
  "token_step c (s, Fail) \<longleftrightarrow> sc_step s = ScanError"
  "token_step c (s, Skip) \<longleftrightarrow> sc_step s = ScanError \<or> is_space c \<and> outside (sc_step s)"
  "token_step c (s, Keep) \<longleftrightarrow> sc_step s = ScanError \<or>
     token_char c \<and> (if c = dquote then sc_step s = InString else outside (sc_step s))"
  by (auto simp: token_step_def token_char_def)

lemma token_goto: "token_char c \<Longrightarrow> c \<noteq> dquote \<Longrightarrow> outside st \<Longrightarrow> token_step c (goto st s)"
  by (simp add: goto_def)

lemma token_fail [simp]: "token_step c (scan_fail s)"
  by (simp add: scan_fail_def)

lemma token_push [simp]: "token_char c \<Longrightarrow> c \<noteq> dquote \<Longrightarrow> outside st \<Longrightarrow> token_step c (push_state p st s)"
  by (simp add: push_state_def Let_def)

lemma token_pop [simp]: "token_char c \<Longrightarrow> c \<noteq> dquote \<Longrightarrow> token_step c (pop_state s)"
  by (simp add: pop_state_def Let_def)

lemma token_digit: "is_digit c \<Longrightarrow> outside st \<Longrightarrow> token_step c (goto st s)"
  using token_is_digit by (simp add: token_goto)

lemma token_end_top: "outside (sc_step s) \<Longrightarrow> token_step c (end_top s c)"
  by (simp add: end_top_def)

lemma token_end_value: "token_step c (end_value s c)"
  by (cases "sc_stack s") (simp_all add: end_value_def token_end_top token_goto split: parse_state.split)

lemma token_begin_value: "outside (sc_step s) \<Longrightarrow> token_step c (begin_value s c)"
  using token_digit [of c Num1 s]
  by (simp add: begin_value_def token_goto) (simp add: goto_def)

lemma token_begin_string: "outside (sc_step s) \<Longrightarrow> token_step c (begin_string s c)"
  by (simp add: begin_string_def) (simp add: goto_def)

lemma token_num0: "token_step c (num0 s c)"
  by (simp add: num0_def token_goto token_end_value)

lemma token_e_sign: "token_step c (e_sign s c)"
  by (simp add: e_sign_def token_digit)

lemma token_scan_step:
  assumes "outside (sc_step s)"
  shows "token_step c (scan_step s c)"
proof (cases "sc_step s")
  case BeginValueOrEmpty
  with token_end_value token_begin_value [of s c] show ?thesis by (simp add: scan_step_def)
next
  case BeginStringOrEmpty
  with token_end_value token_begin_string [of s c] show ?thesis by (simp add: scan_step_def)
next
  case (Lit cs)
  show ?thesis
  proof (cases cs)
    case Nil
    with Lit show ?thesis by (simp add: scan_step_def)
  next
    case (Cons x xs)
    with Lit assms have x: "x \<in> set ''truefalsenull''" and xs: "outside (Lit xs)" by auto
    from token_letter [OF x] have "token_step x (goto st s)" if "outside st" for st using that by (simp add: token_goto)
    with Lit Cons xs show ?thesis by (simp add: scan_step_def)
  qed
next
  case Neg
  then show ?thesis using token_digit by (simp add: scan_step_def token_goto)
next
  case Num1
  then show ?thesis using token_digit token_num0 by (simp add: scan_step_def)
next
  case Dot
  then show ?thesis using token_digit by (simp add: scan_step_def)
next
  case Dot0
  then show ?thesis using token_end_value token_is_digit [of c] by (simp add: scan_step_def token_goto)
next
  case NumE
  then show ?thesis using token_e_sign by (simp add: scan_step_def token_goto)
next
  case NumE0
  then show ?thesis using token_end_value token_is_digit [of c] by (simp add: scan_step_def)
qed (use assms in \<open>simp_all add: scan_step_def token_begin_value token_begin_string token_end_value token_end_top
    token_num0 token_e_sign\<close>)

section \<open>Compaction is squeezing\<close>

lemma compact_from_error: "sc_step s = ScanError \<Longrightarrow> compact_from s k src = (s', out) \<Longrightarrow> sc_step s' = ScanError"
  by (cases src) (auto simp: scan_step_def split: prod.splits)

text \<open>What is still to come, in each state of the scanner; \<open>k\<close> bytes are written already.\<close>

definition to_come :: "scan_state \<Rightarrow> nat \<Rightarrow> bytes \<Rightarrow> bytes" where
  "to_come st k src =
     (if outside st then squeeze False src
      else if st = InStringEsc then (case src of [] \<Rightarrow> [] | d # ds \<Rightarrow> d # squeeze True ds)
      else squeeze True (drop k src))"

definition pending_bytes :: "scan_state \<Rightarrow> nat \<Rightarrow> bytes \<Rightarrow> bool" where
  "pending_bytes st k src \<longleftrightarrow> (outside st \<or> st = InString \<or> st = InStringEsc \<or> hex_digits_left st) \<and> (k = 0 \<or> st = InString \<and> k \<le> length src \<and> list_all (\<lambda>c. 128 \<le> (of_char c :: nat)) (take k src))"

lemma emit_plain:
  "\<not> html_char c \<Longrightarrow> c \<noteq> CHR 0xE2 \<Longrightarrow> compact_emit 0 (c # cs) = (0, [c])"
  by (simp add: compact_emit_0 line_separator_def)

lemma escape_bytes:
  "c \<in> {CHR ''b'', CHR ''f'', CHR ''n'', CHR ''r'', CHR ''t'', backslash, CHR 0x2F, dquote, CHR ''u''} \<Longrightarrow>
     \<not> html_char c \<and> c \<noteq> CHR 0xE2"
  by (auto simp: html_char_def backslash_def dquote_def)

lemma is_hex_bytes: "is_hex c \<Longrightarrow> \<not> html_char c \<and> c \<noteq> CHR 0xE2 \<and> c \<noteq> dquote \<and> c \<noteq> backslash"
  by (auto simp: html_char_def backslash_def dquote_def is_hex_def is_digit_def)

lemma squeeze_plain:
  "\<not> html_char c \<Longrightarrow> c \<noteq> CHR 0xE2 \<Longrightarrow> c \<noteq> dquote \<Longrightarrow> c \<noteq> backslash \<Longrightarrow> squeeze True (c # cs) = c # squeeze True cs"
  by (simp add: line_separator_def)

lemma space_bytes: "is_space c \<Longrightarrow> \<not> html_char c \<and> c \<noteq> CHR 0xE2"
  by (auto simp: html_char_def is_space_def)

lemma compact_step_outside:
  assumes "scan_step s c = (s1, v)" "sc_step s1 \<noteq> ScanError" "outside (sc_step s)"
  shows "v \<noteq> Fail \<and> compact_emit 0 (c # cs) = (0, [c]) \<and> (outside (sc_step s1) \<or> sc_step s1 = InString) \<and>
    squeeze False (c # cs) = (if v = Keep then [c] else []) @ to_come (sc_step s1) 0 cs"
proof (cases v)
  case Fail
  then show ?thesis using token_scan_step [OF assms(3), of c] assms(1,2) by simp
next
  case Skip
  then show ?thesis using token_scan_step [OF assms(3), of c] assms(1,2) space_bytes
    by (simp add: emit_plain to_come_def)
next
  case Keep
  then have "token_char c" "if c = dquote then sc_step s1 = InString else outside (sc_step s1)"
    using token_scan_step [OF assms(3), of c] assms(1,2) by auto
  then have "compact_emit 0 (c # cs) = (0, [c])" "\<not> is_space c"
    "c = dquote \<and> sc_step s1 = InString \<or> c \<noteq> dquote \<and> outside (sc_step s1)"
    by (auto simp: token_char_def intro: emit_plain split: if_splits)
  with Keep show ?thesis by (auto simp: to_come_def)
qed

lemma compact_step_string:
  assumes "scan_step s c = (s1, v)" "sc_step s1 \<noteq> ScanError" "sc_step s = InString"
    "compact_emit k (c # cs) = (k1, e)" "pending_bytes InString k (c # cs)"
  shows "v \<noteq> Fail \<and> pending_bytes (sc_step s1) k1 cs \<and>
    squeeze True (drop k (c # cs)) = (if v = Keep then e else []) @ to_come (sc_step s1) k1 cs"
proof (cases k)
  case (Suc m)
  with assms(5) have "128 \<le> (of_char c :: nat)" "m \<le> length cs" "list_all (\<lambda>c. 128 \<le> (of_char c :: nat)) (take m cs)"
    by (simp_all add: pending_bytes_def)
  moreover from this(1) have "c \<noteq> dquote" "c \<noteq> backslash" by (auto simp: dquote_def backslash_def)
  ultimately show ?thesis
    using assms Suc by (auto simp: scan_step_def compact_emit_def pending_bytes_def to_come_def)
next
  case 0
  show ?thesis
  proof (cases "c = dquote \<or> c = backslash")
    case True
    with assms(1,3) have s1: "v = Keep" "sc_step s1 = (if c = dquote then EndValue else InStringEsc)"
      by (auto simp: scan_step_def goto_def)
    have "compact_emit k (c # cs) = (0, [c])" using True 0 escape_bytes [of c] by (auto intro: emit_plain)
    with assms(4) s1 0 True show ?thesis
      by (cases "c = dquote") (simp_all add: pending_bytes_def to_come_def split: list.split)
  next
    case False
    with assms(1-3) have s1: "s1 = s" "v = Keep" by (auto simp: scan_step_def scan_fail_def split: if_splits)
    have "pending_bytes InString 2 cs" if "line_separator (c # cs)"
      using that by (rule separator_cases) (auto simp: pending_bytes_def)
    with False assms(3,4) 0 show ?thesis
      by (auto simp: s1 compact_emit_0 pending_bytes_def to_come_def split: if_splits)
  qed
qed

lemma compact_step:
  assumes "scan_step s c = (s1, v)" "compact_emit k (c # cs) = (k1, e)" "sc_step s1 \<noteq> ScanError"
    "pending_bytes (sc_step s) k (c # cs)"
  shows "v \<noteq> Fail \<and> pending_bytes (sc_step s1) k1 cs \<and>
    to_come (sc_step s) k (c # cs) = (if v = Keep then e else []) @ to_come (sc_step s1) k1 cs"
proof -
  consider "outside (sc_step s)" | "sc_step s = InString" | "sc_step s = InStringEsc" | "hex_digits_left (sc_step s)"
    using assms(4) by (auto simp: pending_bytes_def)
  then show ?thesis
  proof cases
    case 1
    then have k: "k = 0" using assms(4) by (auto simp: pending_bytes_def)
    show ?thesis
      using compact_step_outside [OF assms(1,3) 1, of cs] assms(2) 1 by (simp add: k pending_bytes_def to_come_def) blast
  next
    case 2
    then show ?thesis
      using compact_step_string [OF assms(1,3) 2 assms(2)] assms(4) by (simp add: to_come_def)
  next
    case 3
    then have "k = 0" using assms(4) by (simp add: pending_bytes_def)
    define simple where "simple \<longleftrightarrow>
      c \<in> {CHR ''b'', CHR ''f'', CHR ''n'', CHR ''r'', CHR ''t'', backslash, CHR 0x2F, dquote}"
    have step: "scan_step s c = (if simple then goto InString s else if c = CHR ''u'' then goto InStringEscU s else scan_fail s)"
      using 3 by (simp add: scan_step_def simple_def)
    with assms(1,3) have s1: "v = Keep" "sc_step s1 = InString \<or> sc_step s1 = InStringEscU" "simple \<or> c = CHR ''u''"
      by (auto simp: goto_def scan_fail_def split: if_splits)
    have "c \<in> {CHR ''b'', CHR ''f'', CHR ''n'', CHR ''r'', CHR ''t'', backslash, CHR 0x2F, dquote, CHR ''u''}"
      using s1(3) unfolding simple_def by blast
    then have "compact_emit k (c # cs) = (0, [c])"
      using escape_bytes emit_plain unfolding \<open>k = 0\<close> by metis
    moreover have "to_come (sc_step s1) 0 cs = squeeze True cs" "pending_bytes (sc_step s1) 0 cs"
      using s1(2) by (auto simp: to_come_def pending_bytes_def hex_digits_left_def)
    ultimately show ?thesis using assms(2) 3 s1(1) by (simp add: to_come_def)
  next
    case 4
    then have k: "k = 0" and s: "to_come (sc_step s) 0 (c # cs) = squeeze True (c # cs)"
      using assms(4) by (auto simp: pending_bytes_def hex_digits_left_def to_come_def)
    from 4 have "scan_step s c \<in> (\<lambda>st. hex_step st s c) ` {InString, InStringEscU1, InStringEscU12, InStringEscU123}"
      by (cases "sc_step s"; simp add: hex_digits_left_def scan_step_def)
    then obtain st where "scan_step s c = hex_step st s c" "st = InString \<or> hex_digits_left st"
      by (auto simp: hex_digits_left_def)
    with assms(1,3) have "is_hex c" "v = Keep" "sc_step s1 = InString \<or> hex_digits_left (sc_step s1)"
      by (auto simp: hex_step_def goto_def scan_fail_def split: if_splits)
    moreover from this(3) have "to_come (sc_step s1) 0 cs = squeeze True cs"
      by (auto simp: hex_digits_left_def to_come_def)
    ultimately show ?thesis
      using s assms(2) is_hex_bytes [of c] squeeze_plain [of c cs]
      by (simp add: k emit_plain pending_bytes_def) blast
  qed
qed

lemma compact_from_squeeze:
  assumes "compact_from s k src = (s', out)" "sc_step s' \<noteq> ScanError" "pending_bytes (sc_step s) k src"
  shows "out = to_come (sc_step s) k src"
  using assms
proof (induction src arbitrary: s k out)
  case Nil
  then show ?case by (auto simp: to_come_def)
next
  case (Cons c cs)
  obtain s1 v where step: "scan_step s c = (s1, v)" by fastforce
  obtain k1 e where emit: "compact_emit k (c # cs) = (k1, e)" by fastforce
  have ok: "sc_step s1 \<noteq> ScanError"
    using Cons.prems(1,2) compact_from_error step emit
    by (cases v) (auto split: prod.splits)
  note next_step = compact_step [OF step emit ok Cons.prems(3)]
  obtain out1 where rest: "compact_from s1 k1 cs = (s', out1)" and out: "out = (if v = Keep then e else []) @ out1"
    using Cons.prems(1) step emit next_step by (cases v) (auto split: prod.splits)
  from Cons.IH [OF rest Cons.prems(2)] next_step show ?case by (simp add: out)
qed

lemma json_compact_squeeze: "json_compact b = Some out \<Longrightarrow> out = squeeze False b"
proof -
  assume run: "json_compact b = Some out"
  then obtain s where s: "compact_from new_scanner 0 b = (s, out)" "scan_eof s"
    by (auto simp: json_compact_def split: prod.splits if_splits)
  then have "sc_step s \<noteq> ScanError" by (auto simp: scan_eof_def)
  from compact_from_squeeze [OF s(1) this] show ?thesis
    by (simp add: pending_bytes_def to_come_def new_scanner_def)
qed

section \<open>The same document\<close>

lemma trim_head: "trim True s = c # u \<Longrightarrow> \<not> is_space c"
  using hd_dropWhile [of is_space s] by (simp add: trim_def)

lemma squeeze_trim [simp]: "squeeze False (trim True s) = squeeze False s"
  by (induction s) (simp_all add: trim_def)

lemma squeeze_front: "trim True s = c # u \<Longrightarrow> squeeze False s = c # squeeze (c = dquote) u"
  using squeeze_trim [of s] trim_head [of s c u] by simp

lemma squeeze_empty: "trim True s = [] \<Longrightarrow> squeeze False s = []"
  using squeeze_trim [of s] by simp

lemma trim_squeeze [simp]: "trim w (squeeze False s) = squeeze False s"
  using squeeze_front squeeze_empty trim_head by (cases "trim True s") auto

lemma take_1_squeeze: "take 1 (squeeze False s) = take 1 (trim True s)"
  using squeeze_front squeeze_empty by (cases "trim True s") auto

lemma ends_value_squeeze: "ends_value (trim True r) \<Longrightarrow> ends_value (squeeze False r)"
  using squeeze_front squeeze_empty by (cases "trim True r") (auto simp: ends_value_def)

lemma squeeze_bare: "list_all bare pre \<Longrightarrow> squeeze False (pre @ t) = pre @ squeeze False t"
  by (induction pre) (simp_all add: bare_def)

lemma hex_value_plain:
  assumes "hex_value c = Some x"
  shows "\<not> html_char c \<and> c \<noteq> CHR 0xE2 \<and> c \<noteq> dquote \<and> c \<noteq> backslash"
proof -
  have differs: "c \<noteq> d" if "hex_value d = None" for d using that assms by auto
  have "c \<noteq> CHR ''<''" "c \<noteq> CHR ''>''" "c \<noteq> CHR ''&''" "c \<noteq> CHR 0xE2" "c \<noteq> dquote" "c \<noteq> backslash"
    by (rule differs, simp add: hex_value_def dquote_def backslash_def)+
  then show ?thesis by (simp add: html_char_def)
qed

lemma squeeze_escape: "squeeze True (backslash # d # ds) = backslash # d # squeeze True ds"
  by simp

lemma stands_for_html: "html_char c \<Longrightarrow> stands_for (escape_u00 c) [c]"
  using stands_for_ascii [of c] by (auto simp: html_char_def escape_ascii_def backslash_def dquote_def)

lemma stands_for_squeeze:
  "stands_for p d \<Longrightarrow> read_chars t = Some (b, r) \<Longrightarrow> read_chars (p @ t) = Some (d @ b, r)"
  by (simp add: stands_for_def)

lemma read_chars_squeeze: "read_chars s = Some (b, r) \<Longrightarrow> read_chars (squeeze True s) = Some (b, squeeze False r)"
proof (induction "length s" arbitrary: s b rule: less_induct)
  case less
  note IH = less.hyps and read = less.prems
  obtain c cs where s: "s = c # cs" using read by (cases s) auto
  consider "c = dquote" | "c = backslash" | "c \<noteq> dquote" "c \<noteq> backslash" "html_char c"
    | "line_separator s" | "c \<noteq> dquote" "c \<noteq> backslash" "\<not> html_char c" "\<not> line_separator s" by blast
  then show ?case
  proof cases
    case 1
    with read show ?thesis by (simp add: s)
  next
    case 2
    then obtain e t where cs: "cs = e # t" using read by (cases cs) (simp_all add: s)
    show ?thesis
    proof (cases "e = CHR ''u''")
      case True
      then obtain h1 h2 h3 h4 t' d b' where t: "t = h1 # h2 # h3 # h4 # t'" "Option.bind (hex4 h1 h2 h3 h4) utf8 = Some d"
        "read_chars t' = Some (b', r)" "b = d @ b'"
        using read 2 by (auto simp: s cs split: list.splits option.splits)
      from t(2) obtain x1 x2 x3 x4 where hex: "hex_value h1 = Some x1" "hex_value h2 = Some x2"
        "hex_value h3 = Some x3" "hex_value h4 = Some x4"
        by (auto simp: hex4_def split: option.splits)
      have plain: "squeeze True (h # u) = h # squeeze True u" if "hex_value h = Some x" for h x u
        using hex_value_plain [OF that] squeeze_plain by blast
      have "read_chars (squeeze True t') = Some (b', squeeze False r)"
        using IH [OF _ t(3)] by (simp add: s cs t(1))
      moreover have "squeeze True s = [backslash, CHR ''u'', h1, h2, h3, h4] @ squeeze True t'"
        by (simp only: s cs t(1) 2 True squeeze_escape plain [OF hex(1)] plain [OF hex(2)] plain [OF hex(3)]
            plain [OF hex(4)] append.simps)
      ultimately show ?thesis
        using stands_for_squeeze [OF stands_for_unicode [OF t(2)]] t(4) by simp
    next
      case False
      then obtain d b' where t: "simple_escape e = Some d" "read_chars t = Some (b', r)" "b = d # b'"
        using read 2 by (auto simp: s cs split: option.splits)
      have "read_chars (squeeze True t) = Some (b', squeeze False r)" using IH [OF _ t(2)] by (simp add: s cs)
      from stands_for_squeeze [OF stands_for_simple [OF t(1)] this] 2 t(3) show ?thesis by (simp add: s cs)
    qed
  next
    case 3
    with read obtain b' where b: "read_chars cs = Some (b', r)" "b = c # b'" by (auto simp: s split: if_splits)
    have "read_chars (squeeze True cs) = Some (b', squeeze False r)" using IH [OF _ b(1)] by (simp add: s)
    from stands_for_squeeze [OF stands_for_html [OF 3(3)] this] 3 b(2) show ?thesis by (simp add: s)
  next
    case 4
    then show ?thesis
    proof (cases rule: separator_cases)
      case (1 t x)
      then obtain b' where b: "read_chars t = Some (b', r)" "b = [CHR 0xE2, CHR 0x80, x] @ b'"
        using read by (auto simp: dquote_def backslash_def)
      have "read_chars (squeeze True t) = Some (b', squeeze False r)" using IH [OF _ b(1)] by (simp add: 1)
      moreover have "rune_len s = 3" using 1 by (auto simp: rune_len_def continuation_def)
      moreover have "squeeze True s = escape_separator s @ squeeze True t"
        using 4 by (simp add: 1(1) dquote_def backslash_def html_char_def)
      ultimately show ?thesis
        using stands_for_squeeze [OF stands_for_separator [OF 4]] b(2) by (simp add: 1(1))
    qed
  next
    case 5
    with read obtain b' where b: "read_chars cs = Some (b', r)" "b = c # b'" "\<not> of_char c < (32 :: nat)"
      by (auto simp: s split: if_splits)
    have "read_chars (squeeze True cs) = Some (b', squeeze False r)" using IH [OF _ b(1)] by (simp add: s)
    with 5 b(2,3) show ?thesis by (simp add: s)
  qed
qed

lemma read_squeeze:
  shows "read_value True n s = Some (j, r) \<Longrightarrow> ends_value (trim True r) \<Longrightarrow>
      read_value w n (squeeze False s) = Some (j, squeeze False r)"
    and "read_elements True n s = Some (js, r) \<Longrightarrow> read_elements w n (squeeze False s) = Some (js, squeeze False r)"
    and "read_members True n s = Some (ms, r) \<Longrightarrow> read_members w n (squeeze False s) = Some (ms, squeeze False r)"
proof (induction n arbitrary: s j js ms r)
  case (Suc n)
  note IH = Suc.IH
  {
    case 1
    from 1(1) show ?case
    proof (cases rule: read_value_cases)
      case (string u b)
      with squeeze_front [OF string(1)] read_chars_squeeze [OF string(2)] show ?thesis by simp
    next
      case (no_element u)
      with squeeze_front [OF no_element(1)] squeeze_front [OF no_element(2)] show ?thesis by simp
    next
      case (array u js)
      with squeeze_front [OF array(1)] take_1_squeeze [of u] IH(2) [OF array(3)] show ?thesis by simp
    next
      case (no_member u)
      with squeeze_front [OF no_member(1)] squeeze_front [OF no_member(2)] show ?thesis by simp
    next
      case (object u ms)
      with squeeze_front [OF object(1)] take_1_squeeze [of u] IH(3) [OF object(3)] show ?thesis by simp
    next
      case literal
      from literal(2) obtain pre where pre: "trim True s = pre @ r" "pre \<noteq> []" "list_all bare pre"
        "\<And>t. ends_value t \<Longrightarrow> read_literal (pre @ t) = Some (j, t)" by (rule read_literal_text) blast
      have "squeeze False s = pre @ squeeze False r"
        using squeeze_bare [OF pre(3)] squeeze_trim [of s] by (simp add: pre(1))
      then have "read_literal (squeeze False s) = Some (j, squeeze False r)"
        using pre(4) [OF ends_value_squeeze [OF 1(2)]] by simp
      moreover have "take 1 (squeeze False s) \<notin> {[dquote], ''['', ''{''}"
        using literal(1) unfolding take_1_squeeze .
      ultimately show ?thesis by (simp add: Let_def)
    qed
  next
    case 2
    then show ?case
    proof (cases rule: read_elements_cases)
      case (last j q)
      with squeeze_front [OF last(2)] IH(1) [OF last(1)] show ?thesis by simp
    next
      case (more j q u js')
      with squeeze_front [OF more(2)] IH(1) [OF more(1)] IH(2) [OF more(3)] show ?thesis by simp
    qed
  next
    case 3
    then show ?case
    proof (cases rule: read_members_cases)
      case (last u k p x j q)
      with squeeze_front [OF last(1)] read_chars_squeeze [OF last(2)] squeeze_front [OF last(3)] IH(1) [OF last(4)]
        squeeze_front [OF last(5)] show ?thesis by simp
    next
      case (more u k p x j q y ms')
      with squeeze_front [OF more(1)] read_chars_squeeze [OF more(2)] squeeze_front [OF more(3)] IH(1) [OF more(4)]
        squeeze_front [OF more(5)] IH(3) [OF more(6)] show ?thesis by simp
    qed
  }
qed simp_all

text \<open>A document and its compact form have the same value; the compact form needs no white space.\<close>

lemma json_compact_read:
  assumes "json_compact b = Some out" "read_json True b = Some j"
  shows "read_json w out = Some j"
proof -
  from assms(2) obtain r where r: "read_value True (length b) b = Some (j, r)" "trim True r = []"
    by (auto simp: read_json_def split: option.splits if_splits)
  have "read_value w (length b) out = Some (j, [])"
    using read_squeeze(1) [OF r(1), of w] r(2) json_compact_squeeze [OF assms(1)] squeeze_empty [OF r(2)] by simp
  from fuelledD [OF read_fuelled(1) [OF this], of "length out"] show ?thesis by (simp add: read_json_def)
qed

end
