(* ===== verification/Gvk.thy ===== *)
theory Gvk
  imports Demo_Env Json_Space
begin

text \<open>
  \<open>internal/controllers/srl/utilsgvk.go\<close>: the entry of the system cache that asks the worker to
  create, update or delete a resource.
\<close>

section \<open>The code\<close>

text \<open>\<open>managed.ExternalObservation\<close>, as far as it is read; \<open>None\<close> is a nil slice.\<close>

record external_observation =
  ob_Updates :: "gnmi_update option list option"
  ob_Deletes :: "gnmi_path option list option"

text \<open>\<open>json.Marshal\<close> of a \<open>runtime.RawExtension\<close>: its own bytes, checked and compacted.\<close>

definition marshaler_error :: "'e error \<Rightarrow> 'e error" where
  "marshaler_error e = ErrWrap e ''json: error calling MarshalJSON for type runtime.RawExtension''"

definition marshal_properties :: "('e, 'z) gvk_env_scheme \<Rightarrow> raw_extension \<Rightarrow> (string, 'e) result" where
  "marshal_properties E x =
     (case RawMarshalJSON E x of
        Inl e \<Rightarrow> Err (marshaler_error e)
      | Inr b \<Rightarrow> (case json_compact b of
            None \<Rightarrow> Err (marshaler_error (ErrNew ''invalid JSON''))
          | Some s \<Rightarrow> Ok s))"

definition getSpec :: "('e, 'z) gvk_env_scheme \<Rightarrow> managed \<Rightarrow> (string, 'e) result" where
  "getSpec E mg =
     try_then (expect_SrlConfig mg)
       (\<lambda>cr. wrap errJSONMarshal (marshal_properties E (sp_Properties (cr_Spec cr))))"

definition getPaths :: "('e, 'z) gvk_env_scheme \<Rightarrow> gnmi_path option list \<Rightarrow> string list" where
  "getPaths E gnmiPaths = fold (\<lambda>p paths. paths @ [GnmiPath2XPath E p True]) gnmiPaths []"

definition put_update ::
  "('e, 'z) gvk_env_scheme \<Rightarrow> gnmi_update option \<Rightarrow> (string, gvk_update) fmap \<Rightarrow>
     ((string, gvk_update) fmap, 'e) result" where
  "put_update E u updates =
     (let xpath = GnmiPath2XPath E (GetPath u) True
      in try_then (ext (GetValue E (GetVal u)))
        (\<lambda>v. try_then (json_marshal v)
          (\<lambda>val. Ok (fmupd xpath \<lparr>gu_Path = Some xpath, gu_Value = Some val\<rparr> updates))))"

definition getUpdates ::
  "('e, 'z) gvk_env_scheme \<Rightarrow> gnmi_update option list \<Rightarrow> ((string, gvk_update) fmap, 'e) result" where
  "getUpdates E gnmiUpdates = for_each (put_update E) gnmiUpdates fmempty"

definition gvk_path :: "string \<Rightarrow> gnmi_path" where
  "gvk_path gvkName =
     empty_path\<lparr>p_Elem := [Some \<lparr>pe_Name = ''gvk'', pe_Key = fmupd ''name'' gvkName fmempty\<rparr>]\<rparr>"

definition getGvkUpate ::
  "('e, 'z) gvk_env_scheme \<Rightarrow> managed \<Rightarrow> external_observation \<Rightarrow> resource_action \<Rightarrow>
     (gnmi_update option list, 'e) result" where
  "getGvkUpate E mg obs action =
     (let gvkName = GetGvkName E mg
      in try_then (getSpec E mg) (\<lambda>spec.
         try_then (case ob_Updates obs of None \<Rightarrow> Ok fmempty | Some us \<Rightarrow> getUpdates E us) (\<lambda>updates.
           let deletes = (case ob_Deletes obs of None \<Rightarrow> [] | Some ds \<Rightarrow> getPaths E ds);
               gvkData = \<lparr>gvk_Name = Some gvkName, gvk_Action = action, gvk_Path = mg_RootPaths mg,
                 gvk_Status = Status_PENDING, gvk_Reason = Some [], gvk_Spec = Some spec,
                 gvk_Delete = deletes, gvk_Update = updates, gvk_Attempt = Some 0\<rparr>
           in try_then (ext (EmitGvk E gvkData)) (\<lambda>nddpJson.
                Ok [Some \<lparr>u_Path = Some (gvk_path gvkName), u_Val = Some (JsonVal nddpJson)\<rparr>]))))"

section \<open>The updates of an entry\<close>

text \<open>The value string of one update.\<close>

definition update_value :: "('e, 'z) gvk_env_scheme \<Rightarrow> gnmi_update option \<Rightarrow> (string, 'e) result" where
  "update_value E u = try_then (ext (GetValue E (GetVal u))) json_marshal"

definition update_xpath :: "('e, 'z) gvk_env_scheme \<Rightarrow> gnmi_update option \<Rightarrow> string" where
  "update_xpath E u = GnmiPath2XPath E (GetPath u) True"

lemma put_update_eq:
  "put_update E u m = try_then (update_value E u)
     (\<lambda>v. Ok (fmupd (update_xpath E u) \<lparr>gu_Path = Some (update_xpath E u), gu_Value = Some v\<rparr> m))"
  by (simp add: put_update_def update_value_def update_xpath_def Let_def try_then_assoc)

lemma getPaths_eq: "getPaths E ps = map (\<lambda>p. GnmiPath2XPath E p True) ps"
  by (simp add: getPaths_def fold_snoc)

lemma json_marshal_not_Panic [simp]: "json_marshal v \<noteq> (Panic p :: (bytes, 'e) result)"
proof (induction v)
  case (GFloat f)
  show ?case by (cases f) simp_all
next
  case (GSlice vs)
  have "collect (map json_marshal vs) \<noteq> (Panic p :: (bytes list, 'e) result)"
    using GSlice by (induction vs) (auto simp: result_simps)
  then show ?case by (simp add: try_then_Panic_iff)
next
  case (GMap kvs)
  let ?rs = "map json_member (sort_key fst (map (map_prod id json_marshal) kvs))"
  have "collect rs \<noteq> (Panic p :: (bytes list, 'e) result)" if "Panic p \<notin> set rs" for rs
    using that by (induction rs) (auto simp: result_simps)
  moreover have "json_marshal (snd kv) \<noteq> (Panic p :: (bytes, 'e) result)" if "kv \<in> set kvs" for kv
    using GMap [OF that, of "snd kv"] by (cases kv) simp
  then have "json_member (map_prod id json_marshal kv) \<noteq> (Panic p :: (bytes, 'e) result)"
    if "kv \<in> set kvs" for kv
    using that by (simp add: json_member_def try_then_Panic_iff)
  then have "Panic p \<notin> set (?rs :: (bytes, 'e) result list)"
    unfolding set_map set_sort by (metis (no_types, lifting) imageE)
  ultimately show ?case by (simp add: try_then_Panic_iff)
qed simp_all

lemma update_value_not_Panic [simp]: "update_value E u \<noteq> Panic p"
  by (simp add: update_value_def try_then_Panic_iff)

lemma put_updates_Ok:
  assumes "\<And>u. u \<in> set us \<Longrightarrow> update_value E u = Ok (val u)"
  shows "for_each (put_update E) us m =
    Ok (fold (\<lambda>u. fmupd (update_xpath E u)
          \<lparr>gu_Path = Some (update_xpath E u), gu_Value = Some (val u)\<rparr>) us m)"
  by (rule for_each_pure) (simp add: put_update_eq assms)

lemma lookup_fold_fmupd:
  "fmlookup (fold (\<lambda>u. fmupd (f u) (g u)) us m) x =
     (case find (\<lambda>u. f u = x) (rev us) of None \<Rightarrow> fmlookup m x | Some u \<Rightarrow> Some (g u))"
proof (induction us arbitrary: m)
  case Nil
  then show ?case by simp
next
  case (Cons u us)
  then show ?case by (auto simp: find_append split: option.splits)
qed

text \<open>
  C16. \<open>getUpdates\<close> keeps one entry per path, and the last update of a path decides: when every value
  converts, looking up a path gives the value of the last update of that path, under that very
  path, and a path without an update is absent.  Otherwise the error of the first update that does
  not convert is returned.
\<close>

theorem getUpdates_last_wins:
  "(\<forall>val. (\<forall>u \<in> set us. update_value E u = Ok (val u)) \<longrightarrow>
      (\<exists>m. getUpdates E us = Ok m \<and>
         (\<forall>x. fmlookup m x = map_option (\<lambda>u. \<lparr>gu_Path = Some x, gu_Value = Some (val u)\<rparr>)
            (find (\<lambda>u. update_xpath E u = x) (rev us))))) \<and>
   (\<forall>e. getUpdates E us = Err e \<longleftrightarrow>
      (\<exists>u. find (\<lambda>u. \<forall>v. update_value E u \<noteq> Ok v) us = Some u \<and> update_value E u = Err e))"
proof (intro conjI allI impI)
  fix val assume "\<forall>u \<in> set us. update_value E u = Ok (val u)"
  then have "getUpdates E us = Ok (fold (\<lambda>u. fmupd (update_xpath E u)
      \<lparr>gu_Path = Some (update_xpath E u), gu_Value = Some (val u)\<rparr>) us fmempty)"
    by (simp add: getUpdates_def put_updates_Ok)
  then show "\<exists>m. getUpdates E us = Ok m \<and>
      (\<forall>x. fmlookup m x = map_option (\<lambda>u. \<lparr>gu_Path = Some x, gu_Value = Some (val u)\<rparr>)
         (find (\<lambda>u. update_xpath E u = x) (rev us)))"
    by (auto simp: lookup_fold_fmupd dest: find_SomeD split: option.splits)
next
  fix e show "getUpdates E us = Err e \<longleftrightarrow>
      (\<exists>u. find (\<lambda>u. \<forall>v. update_value E u \<noteq> Ok v) us = Some u \<and> update_value E u = Err e)"
    unfolding getUpdates_def by (rule for_each_Err_iff) (rule put_update_eq)
qed

theorem getUpdates_last_wins_witness:
  "\<exists>m. getUpdates demo_env [Some \<lparr>u_Path = Some demo_leaf_path, u_Val = Some (StringVal ''a'')\<rparr>,
       Some \<lparr>u_Path = Some demo_leaf_path, u_Val = Some (StringVal ''b'')\<rparr>] = Ok m \<and>
     fmlookup m ''/leaf'' = Some \<lparr>gu_Path = Some ''/leaf'', gu_Value = Some [CHR 34, CHR 0x62, CHR 34]\<rparr>"
proof -
  let ?u = "\<lambda>v. Some \<lparr>u_Path = Some demo_leaf_path, u_Val = Some (StringVal v)\<rparr>"
  let ?val = "\<lambda>u. CHR 34 # GetStringVal (GetVal u) @ [CHR 34]"
  have vals: "\<forall>u \<in> set [?u ''a'', ?u ''b'']. update_value demo_env u = Ok (?val u)"
    by (simp add: update_value_def) code_simp
  have path: "update_xpath demo_env (?u v) = ''/leaf''" for v
    by (simp add: update_xpath_def demo_xpath_def demo_leaf_path_def)
  obtain m where "getUpdates demo_env [?u ''a'', ?u ''b''] = Ok m"
    "\<forall>x. fmlookup m x = map_option (\<lambda>u. \<lparr>gu_Path = Some x, gu_Value = Some (?val u)\<rparr>)
       (find (\<lambda>u. update_xpath demo_env u = x) (rev [?u ''a'', ?u ''b'']))"
    using getUpdates_last_wins [THEN conjunct1, THEN spec, THEN mp, OF vals] by blast
  then show ?thesis by (simp add: path)
qed

section \<open>The entry\<close>

interpretation spec_string: device_operation "getSpec E" for E
  by unfold_locales (simp add: getSpec_def expect_SrlConfig_def)

interpretation gvk_entry: device_operation "\<lambda>mg. getGvkUpate E mg obs action" for E obs action
  by unfold_locales (simp add: getGvkUpate_def getSpec_def expect_SrlConfig_def)

definition observed_updates :: "external_observation \<Rightarrow> gnmi_update option list" where
  "observed_updates obs = (case ob_Updates obs of None \<Rightarrow> [] | Some us \<Rightarrow> us)"

definition observed_deletes :: "external_observation \<Rightarrow> gnmi_path option list" where
  "observed_deletes obs = (case ob_Deletes obs of None \<Rightarrow> [] | Some ds \<Rightarrow> ds)"

text \<open>A nil slice of an observation counts as an empty one.\<close>

lemma getGvkUpate_eq:
  "getGvkUpate E mg obs action =
     try_then (getSpec E mg) (\<lambda>spec.
     try_then (getUpdates E (observed_updates obs)) (\<lambda>updates.
     try_then (ext (EmitGvk E \<lparr>gvk_Name = Some (GetGvkName E mg), gvk_Action = action,
         gvk_Path = mg_RootPaths mg, gvk_Status = Status_PENDING, gvk_Reason = Some [],
         gvk_Spec = Some spec, gvk_Delete = getPaths E (observed_deletes obs),
         gvk_Update = updates, gvk_Attempt = Some 0\<rparr>)) (\<lambda>js.
       Ok [Some \<lparr>u_Path = Some (gvk_path (GetGvkName E mg)), u_Val = Some (JsonVal js)\<rparr>])))"
  unfolding getGvkUpate_def Let_def
  by (intro try_then_cong)
     (auto simp: observed_updates_def observed_deletes_def getUpdates_def getPaths_def
       split: option.splits)

lemma getUpdates_not_Panic [simp]: "getUpdates E us \<noteq> Panic p"
proof -
  have "for_each (put_update E) us m \<noteq> Panic p" for m
    by (induction us arbitrary: m) (auto simp: put_update_eq result_simps)
  then show ?thesis by (simp add: getUpdates_def)
qed

lemma getUpdates_entry:
  assumes "getUpdates E us = Ok m" "fmlookup m x = Some gu"
  shows "\<exists>u v. u \<in> set us \<and> update_xpath E u = x \<and> update_value E u = Ok v \<and>
    gu = \<lparr>gu_Path = Some x, gu_Value = Some v\<rparr>"
proof -
  let ?I = "\<lambda>m. \<forall>x gu. fmlookup m x = Some gu \<longrightarrow> (\<exists>u v. u \<in> set us \<and> update_xpath E u = x \<and>
      update_value E u = Ok v \<and> gu = \<lparr>gu_Path = Some x, gu_Value = Some v\<rparr>)"
  have "?I t" if "u \<in> set us" "?I s" "put_update E u s = Ok t" for u s t
    using that by (fastforce simp: put_update_eq result_simps split: if_splits)
  then have "?I m"
    using for_each_invariant [of "put_update E" us fmempty m ?I] assms(1)
    by (simp add: getUpdates_def)
  with assms(2) show ?thesis by blast
qed

lemma getGvkUpate_run:
  fixes E :: "('e, 'z) gvk_env_scheme"
  assumes "getGvkUpate E mg obs action = Ok ups"
  obtains cr spec m g js where "mg = ManagedSrl cr" "getSpec E mg = (Ok spec :: (string, 'e) result)"
    "getUpdates E (observed_updates obs) = (Ok m :: (_, 'e) result)" "EmitGvk E g = Inr js"
    "ups = [Some \<lparr>u_Path = Some (gvk_path (GetGvkName E mg)), u_Val = Some (JsonVal js)\<rparr>]"
    "g = \<lparr>gvk_Name = Some (GetGvkName E mg), gvk_Action = action,
         gvk_Path = GetRootPaths cr, gvk_Status = Status_PENDING, gvk_Reason = Some [],
         gvk_Spec = Some spec, gvk_Delete = getPaths E (observed_deletes obs),
         gvk_Update = m, gvk_Attempt = Some 0\<rparr>"
proof -
  obtain cr where "mg = ManagedSrl cr" using assms by (rule gvk_entry.returns_device [THEN exE])
  with assms that show thesis by (auto simp: getGvkUpate_eq result_simps)
qed

text \<open>
  The JSON document that the properties of a resource are.  \<open>MarshalJSON\<close> of a \<open>RawExtension\<close> is
  documented to answer its raw bytes.
\<close>

definition spec_document :: "('e, 'z) gvk_env_scheme \<Rightarrow> srl_config \<Rightarrow> json \<Rightarrow> bool" where
  "spec_document E cr doc \<longleftrightarrow> (\<exists>b. re_Raw (sp_Properties (cr_Spec cr)) = Some b \<and>
     RawMarshalJSON E (sp_Properties (cr_Spec cr)) = Inr b \<and> read_json True b = Some doc)"

lemma raw_bytes_document: "spec_document E cr doc \<Longrightarrow> read_json True (raw_bytes cr) = Some doc"
  by (auto simp: spec_document_def raw_bytes_def)

lemma getSpec_document:
  assumes "spec_document E cr doc" "getSpec E (ManagedSrl cr) = Ok spec"
  shows "read_json w spec = Some doc"
proof -
  obtain b where b: "RawMarshalJSON E (sp_Properties (cr_Spec cr)) = Inr b" "read_json True b = Some doc"
    using assms(1) by (auto simp: spec_document_def)
  with assms(2) have "json_compact b = Some spec"
    by (auto simp: getSpec_def marshal_properties_def result_simps split: option.splits)
  then show ?thesis using b(2) by (rule json_compact_read)
qed

text \<open>In the example the spec \<open>{}\<close> is its own compact form.\<close>

lemma demo_spec: "getSpec (demo_env\<lparr>EmitGvk := emit\<rparr>) (demo_with ''{}'') = Ok ''{}''"
  by (simp add: getSpec_def marshal_properties_def demo_with_def) code_simp

lemma demo_env_spec: "getSpec demo_env (demo_with ''{}'') = Ok ''{}''"
  using demo_spec [of "EmitGvk demo_env"] by simp

lemma demo_entry_update:
  "getGvkUpate demo_env (demo_with ''{}'') \<lparr>ob_Updates = None, ob_Deletes = ds\<rparr> action =
     Ok [Some \<lparr>u_Path = Some (gvk_path ''gvk''), u_Val = Some (JsonVal ''{}'')\<rparr>]"
  by (simp add: getGvkUpate_def demo_env_spec)




text \<open>
  An unusual resource or observation never crashes the controller here: building the entry ends
  with a value or an error, and a nil slice of an observation is treated as an empty one.
\<close>

lemma getGvkUpate_total:
  "getGvkUpate E mg obs action \<noteq> Panic p \<and>
   getGvkUpate E mg \<lparr>ob_Updates = None, ob_Deletes = None\<rparr> action =
     getGvkUpate E mg \<lparr>ob_Updates = Some [], ob_Deletes = Some []\<rparr> action"
proof
  have "getSpec E mg \<noteq> Panic p"
    by (cases mg) (auto simp: getSpec_def marshal_properties_def split: sum.splits option.splits)
  then show "getGvkUpate E mg obs action \<noteq> Panic p"
    by (simp add: getGvkUpate_eq result_simps)
qed (simp add: getGvkUpate_eq observed_updates_def observed_deletes_def)



end
