(* ===== verification/Validator.thy ===== *)
theory Validator
  imports Demo_Env
begin

text \<open>
  The validator of \<open>internal/controllers/srl/srlconfig_controller.go\<close>: what it reports to the
  reconciler about a resource, from the system cache and the running configuration.  A config
  struct that the code mutates in place is passed on as a new value; what it mutates are structs it
  has just built or copied, which nothing else refers to.  Logging is left out.
\<close>

section \<open>Observations\<close>

record cr_observation =
  co_Exhausted :: bool
  co_Exists :: bool
  co_Pending :: bool
  co_Failed :: bool
  co_Message :: string

definition zero_observation :: cr_observation where
  "zero_observation = \<lparr>co_Exhausted = False, co_Exists = False, co_Pending = False,
     co_Failed = False, co_Message = []\<rparr>"

record spec_observation =
  so_Success :: bool
  so_Message :: string

text \<open>Deletes and updates as they read through the returned pointers.\<close>

record spec_diff_observation =
  sd_Deletes :: "gnmi_path option list"
  sd_Updates :: "gnmi_update option list"

record actual_diff_observation =
  ad_HasData :: bool
  ad_IsUpToDate :: bool
  ad_Deletes :: "gnmi_path option list"
  ad_Updates :: "gnmi_update option list"

section \<open>The code\<close>

definition GetCrStatus ::
  "('e, 'z) gvk_env_scheme \<Rightarrow> managed \<Rightarrow> system_device option \<Rightarrow> (cr_observation, 'e) result" where
  "GetCrStatus E mg systemCfg =
     try_then (deref systemCfg) (\<lambda>sys.
     try_then (deref (sd_Cache sys)) (\<lambda>cache.
     try_then (deref (sc_Exhausted cache)) (\<lambda>exhausted.
       if exhausted \<noteq> 0 then Ok (zero_observation\<lparr>co_Exhausted := True\<rparr>)
       else (case fmlookup (sd_Gvk sys) (GetGvkName E mg) of
           None \<Rightarrow> Ok (zero_observation\<lparr>co_Exists := False\<rparr>)
         | Some gp \<Rightarrow>
             try_then (deref gp) (\<lambda>g.
             (case gvk_Status g of
                Status_PENDING \<Rightarrow> Ok (zero_observation\<lparr>co_Exists := True, co_Pending := True\<rparr>)
              | Status_FAILED \<Rightarrow>
                  try_then (deref (gvk_Reason g)) (\<lambda>reason.
                    Ok (zero_observation\<lparr>co_Exists := True, co_Failed := True, co_Message := reason\<rparr>))
              | Status_Other n \<Rightarrow> Ok (zero_observation\<lparr>co_Exists := True\<rparr>)))))))"

definition ValidateCrSpecUpdate ::
  "('s, 'r, 'e, 'z) model_env_scheme \<Rightarrow> managed \<Rightarrow> bytes \<Rightarrow> (spec_observation, 'e) result" where
  "ValidateCrSpecUpdate E mg runningCfg =
     try_then (expect_SrlConfig mg) (\<lambda>cr.
     try_then (ext (NewConfigStruct E runningCfg True)) (\<lambda>runGoStruct.
     try_then (ext (NewConfigStruct E (raw_bytes cr) False)) (\<lambda>specGoStruct.
     try_then (ext (MergeStructInto E runGoStruct specGoStruct [MergeOverwriteExistingFields]))
       (\<lambda>runGoStruct.
       (case Validate E runGoStruct [] of
          Some err \<Rightarrow> Ok \<lparr>so_Success = False, so_Message = error_text E err\<rparr>
        | None \<Rightarrow> Ok \<lparr>so_Success = True, so_Message = []\<rparr>)))))"

text \<open>The two loops of \<open>ValidateCrSpecDelete\<close>.\<close>

definition add_root_paths ::
  "('s, 'r, 'e, 'z) model_env_scheme \<Rightarrow> notification option list \<Rightarrow> ('r, 'e) result" where
  "add_root_paths E notifications =
     for_each (\<lambda>n. for_each (\<lambda>dp rp. try_then (deref dp)
         (\<lambda>u. Ok (AddUpdatePath E rp (u_Path u) (u_Val u)))) (GetUpdate n))
       notifications (CreateRootConfigElement E)"

definition delete_paths ::
  "('s, 'r, 'e, 'z) model_env_scheme \<Rightarrow> gnmi_path option list \<Rightarrow> 's \<Rightarrow> ('s, 'e) result" where
  "delete_paths E = for_each (\<lambda>p s. ext (DeleteNode E s p))"

definition ValidateCrSpecDelete ::
  "('s, 'r, 'e, 'z) model_env_scheme \<Rightarrow> managed \<Rightarrow> bytes \<Rightarrow> (spec_observation, 'e) result" where
  "ValidateCrSpecDelete E mg runningCfg =
     try_then (expect_SrlConfig mg) (\<lambda>cr.
     try_then (ext (NewConfigStruct E runningCfg True)) (\<lambda>runGoStruct.
     try_then (ext (NewConfigStruct E (raw_bytes cr) False)) (\<lambda>specGoStruct.
     try_then (ext (TogNMINotifications E specGoStruct 0)) (\<lambda>notifications.
     try_then (add_root_paths E notifications) (\<lambda>rp.
     try_then (delete_paths E (HierarchyRootPaths E rp) runGoStruct) (\<lambda>runGoStruct.
       let runGoStruct = PruneEmptyBranches E runGoStruct
       in (case Validate E runGoStruct [LeafrefOptions False] of
             Some err \<Rightarrow> Ok \<lparr>so_Success = False, so_Message = error_text E err\<rparr>
           | None \<Rightarrow> Ok \<lparr>so_Success = True, so_Message = []\<rparr>)))))))"

definition GetCrSpecDiff ::
  "('s, 'r, 'e, 'z) model_env_scheme \<Rightarrow> managed \<Rightarrow> system_device option \<Rightarrow>
     (spec_diff_observation, 'e) result" where
  "GetCrSpecDiff E mg systemCfg =
     try_then (expect_SrlConfig mg) (\<lambda>cr.
     try_then (deref systemCfg) (\<lambda>sys.
       (case fmlookup (sd_Gvk sys) (GetGvkName E mg) of
          None \<Rightarrow> Ok \<lparr>sd_Deletes = [], sd_Updates = []\<rparr>
        | Some gp \<Rightarrow>
            try_then (ext (NewConfigStruct E (raw_bytes cr) False)) (\<lambda>srcConfig.
            try_then (deref gp) (\<lambda>g.
            try_then (deref (gvk_Spec g)) (\<lambda>spec.
            try_then (ext (NewConfigStruct E spec False)) (\<lambda>specConfig.
            try_then (ext (Diff E specConfig srcConfig)) (\<lambda>(n, h).
            try_then (validateNotification n h) (\<lambda>((deletes, updates), h').
              Ok \<lparr>sd_Deletes = map (read_path h') deletes,
                  sd_Updates = map (read_update h') updates\<rparr>)))))))))"

definition GetCrActualDiff ::
  "('s, 'r, 'e, 'z) model_env_scheme \<Rightarrow> managed \<Rightarrow> bytes \<Rightarrow> (actual_diff_observation, 'e) result" where
  "GetCrActualDiff E mg runningCfg =
     try_then (expect_SrlConfig mg) (\<lambda>cr.
     try_then (ext (NewConfigStruct E runningCfg False)) (\<lambda>srcConfig.
     try_then (ext (NewConfigStruct E (raw_bytes cr) False)) (\<lambda>specConfig.
     try_then (ext (DeepCopy E srcConfig)) (\<lambda>srcConfigTmp.
     try_then (if is_device E srcConfigTmp then Ok srcConfigTmp else Panic TypeAssertion) (\<lambda>newConfig.
     try_then (ext (MergeStructInto E newConfig specConfig [])) (\<lambda>newConfig.
     try_then (ext (Diff E srcConfig newConfig)) (\<lambda>(n, h).
     try_then (validateNotification n h) (\<lambda>((deletes, updates), h').
       Ok \<lparr>ad_HasData = True, ad_IsUpToDate = (length deletes = 0 \<and> length updates = 0),
           ad_Deletes = map (read_path h') deletes,
           ad_Updates = map (read_update h') updates\<rparr>))))))))"

text \<open>\<open>getRootPaths\<close> of \<open>utils.go\<close> and the method that calls it; \<open>now\<close> is the clock.\<close>

definition getRootPaths ::
  "('s, 'r, 'e, 'z) model_env_scheme \<Rightarrow> notification option \<Rightarrow> (gnmi_path option list, 'e) result" where
  "getRootPaths E x = Ok (HierarchyRootPaths E (HierarchyFromGnmiUpdate E x))"

definition ValidatorRootPaths ::
  "('s, 'r, 'e, 'z) model_env_scheme \<Rightarrow> int \<Rightarrow> managed \<Rightarrow> (string list, 'e) result" where
  "ValidatorRootPaths E now mg =
     try_then (expect_SrlConfig mg) (\<lambda>cr.
     try_then (ext (JsonUnmarshaler E (raw_bytes cr))) (\<lambda>srldevice.
     try_then (ext (TogNMINotifications E srldevice now)) (\<lambda>gnmiNotifications.
     try_then (go_index gnmiNotifications 0) (\<lambda>n.
     try_then (getRootPaths E n) (\<lambda>crRootPaths.
       Ok (fold (\<lambda>p rootPaths. rootPaths @ [GnmiPath2XPath E p True]) crRootPaths []))))))"

section \<open>Operations on a device resource\<close>

interpretation spec_update: device_operation "\<lambda>mg. ValidateCrSpecUpdate E mg running" for E running
  by unfold_locales (simp add: ValidateCrSpecUpdate_def expect_SrlConfig_def)

interpretation spec_delete: device_operation "\<lambda>mg. ValidateCrSpecDelete E mg running" for E running
  by unfold_locales (simp add: ValidateCrSpecDelete_def expect_SrlConfig_def)

interpretation spec_diff: device_operation "\<lambda>mg. GetCrSpecDiff E mg sys" for E sys
  by unfold_locales (simp add: GetCrSpecDiff_def expect_SrlConfig_def)

interpretation actual_diff: device_operation "\<lambda>mg. GetCrActualDiff E mg running" for E running
  by unfold_locales (simp add: GetCrActualDiff_def expect_SrlConfig_def)

interpretation validator_paths: device_operation "\<lambda>mg. ValidatorRootPaths E now mg" for E now
  by unfold_locales (simp add: ValidatorRootPaths_def expect_SrlConfig_def)

section \<open>Validating a spec\<close>

definition verdict :: "('e error \<Rightarrow> string) \<Rightarrow> 'e error option \<Rightarrow> spec_observation" where
  "verdict explain r = (case r of Some err \<Rightarrow> \<lparr>so_Success = False, so_Message = explain err\<rparr>
     | None \<Rightarrow> \<lparr>so_Success = True, so_Message = []\<rparr>)"

text \<open>
  Both spec checks build a candidate configuration and validate it: an error while building it is
  an error of the check, an invalid candidate is a negative answer.
\<close>

locale spec_checker = cand: device_operation candidate
  for candidate :: "managed \<Rightarrow> ('s, 'e) result" +
  fixes check :: "managed \<Rightarrow> (spec_observation, 'e) result"
    and invalid :: "'s \<Rightarrow> 'e error option" and explain :: "'e error \<Rightarrow> string"
  assumes answers: "candidate mg = Ok s \<Longrightarrow> check mg = Ok (verdict explain (invalid s))"
    and fails: "candidate mg = Err e \<Longrightarrow> check mg = Err e"
    and panics: "candidate mg = Panic p \<Longrightarrow> check mg = Panic p"
begin

lemma Success_iff:
  "(\<exists>obs. check mg = Ok obs \<and> so_Success obs) \<longleftrightarrow> (\<exists>s. candidate mg = Ok s \<and> invalid s = None)"
  using answers [of mg] fails [of mg] panics [of mg]
  by (cases "candidate mg") (auto simp: verdict_def split: option.splits)

lemma failure_explained:
  "check mg = Ok obs \<Longrightarrow> \<not> so_Success obs \<Longrightarrow>
     \<exists>s err. candidate mg = Ok s \<and> invalid s = Some err \<and> so_Message obs = explain err"
  using answers [of mg] fails [of mg] panics [of mg]
  by (cases "candidate mg") (auto simp: verdict_def split: option.splits)

lemma Err_iff: "check mg = Err e \<longleftrightarrow> candidate mg = Err e"
  using answers [of mg] fails [of mg] panics [of mg] by (cases "candidate mg") auto

lemma check_foreign: "as_SrlConfig mg = None \<Longrightarrow> check mg = Err (ErrNew errUnexpectedDevice)"
  by (rule fails) (rule cand.foreign)

end

sublocale spec_checker \<subseteq> checked: device_operation check
  by unfold_locales (rule check_foreign)

text \<open>The running configuration overlaid with the spec.\<close>

definition update_candidate ::
  "('s, 'r, 'e, 'z) model_env_scheme \<Rightarrow> bytes \<Rightarrow> managed \<Rightarrow> ('s, 'e) result" where
  "update_candidate E running mg =
     try_then (expect_SrlConfig mg) (\<lambda>cr.
     try_then (ext (NewConfigStruct E running True)) (\<lambda>r.
     try_then (ext (NewConfigStruct E (raw_bytes cr) False)) (\<lambda>s.
       ext (MergeStructInto E r s [MergeOverwriteExistingFields]))))"

text \<open>The running configuration without the nodes at the root paths of the spec.\<close>

fun delete_all :: "('s \<Rightarrow> gnmi_path option \<Rightarrow> 'e error + 's) \<Rightarrow> gnmi_path option list \<Rightarrow> 's \<Rightarrow> 'e error + 's" where
  "delete_all del [] s = Inr s"
| "delete_all del (p # ps) s = (case del s p of Inl e \<Rightarrow> Inl e | Inr s' \<Rightarrow> delete_all del ps s')"

definition spec_updates :: "notification option list \<Rightarrow> gnmi_update option list" where
  "spec_updates ns = concat (map GetUpdate ns)"

definition spec_hierarchy ::
  "('s, 'r, 'e, 'z) model_env_scheme \<Rightarrow> gnmi_update option list \<Rightarrow> 'r" where
  "spec_hierarchy E us = foldl (\<lambda>rp u. AddUpdatePath E rp (GetPath u) (GetVal u)) (CreateRootConfigElement E) us"

definition delete_candidate ::
  "('s, 'r, 'e, 'z) model_env_scheme \<Rightarrow> bytes \<Rightarrow> managed \<Rightarrow> ('s, 'e) result" where
  "delete_candidate E running mg =
     try_then (expect_SrlConfig mg) (\<lambda>cr.
     try_then (ext (NewConfigStruct E running True)) (\<lambda>r.
     try_then (ext (NewConfigStruct E (raw_bytes cr) False)) (\<lambda>s.
     try_then (ext (TogNMINotifications E s 0)) (\<lambda>ns.
     if None \<in> set (spec_updates ns) then Panic NilDereference
     else try_then (ext (delete_all (DeleteNode E)
              (HierarchyRootPaths E (spec_hierarchy E (spec_updates ns))) r))
            (\<lambda>d. Ok (PruneEmptyBranches E d))))))"

lemma for_each_concat:
  "for_each (\<lambda>n. for_each f (g n)) ns s = for_each f (concat (map g ns)) s"
  by (induction ns arbitrary: s) (simp_all add: for_each_append cong: try_then_cong)

lemma add_updates_eq:
  "for_each (\<lambda>dp rp. try_then (deref dp) (\<lambda>u. Ok (AddUpdatePath E rp (u_Path u) (u_Val u)))) us rp =
     (if None \<in> set us then Panic NilDereference
      else Ok (foldl (\<lambda>rp u. AddUpdatePath E rp (GetPath u) (GetVal u)) rp us))"
proof (induction us arbitrary: rp)
  case Nil
  then show ?case by simp
next
  case (Cons u us)
  then show ?case by (cases u) auto
qed

lemma add_root_paths_eq:
  "add_root_paths E ns = (if None \<in> set (spec_updates ns) then Panic NilDereference
     else Ok (spec_hierarchy E (spec_updates ns)))"
  by (simp add: add_root_paths_def for_each_concat add_updates_eq spec_updates_def spec_hierarchy_def)

lemma delete_paths_eq: "delete_paths E ps s = ext (delete_all (DeleteNode E) ps s)"
proof (induction ps arbitrary: s)
  case Nil
  then show ?case by (simp add: delete_paths_def)
next
  case (Cons p ps)
  then show ?case by (cases "DeleteNode E s p") (simp_all add: delete_paths_def)
qed

lemma verdict_Ok:
  "(case r of Some err \<Rightarrow> Ok \<lparr>so_Success = False, so_Message = explain err\<rparr>
     | None \<Rightarrow> Ok \<lparr>so_Success = True, so_Message = []\<rparr>) = Ok (verdict explain r)"
  by (cases r) (simp_all add: verdict_def)

lemma ValidateCrSpecUpdate_eq:
  "ValidateCrSpecUpdate E mg running =
     try_then (update_candidate E running mg) (\<lambda>s. Ok (verdict (error_text E) (Validate E s [])))"
  by (simp add: ValidateCrSpecUpdate_def update_candidate_def verdict_Ok try_then_assoc)

lemma ValidateCrSpecDelete_eq:
  "ValidateCrSpecDelete E mg running =
     try_then (delete_candidate E running mg)
       (\<lambda>s. Ok (verdict (error_text E) (Validate E s [LeafrefOptions False])))"
  unfolding ValidateCrSpecDelete_def delete_candidate_def try_then_assoc
  by (intro try_then_cong refl)
     (auto simp: add_root_paths_eq delete_paths_eq verdict_Ok Let_def try_then_assoc)

interpretation update_check: spec_checker "update_candidate E running"
    "\<lambda>mg. ValidateCrSpecUpdate E mg running" "\<lambda>s. Validate E s []" "error_text E" for E running
  by unfold_locales (simp_all add: ValidateCrSpecUpdate_eq update_candidate_def expect_SrlConfig_def)

interpretation delete_check: spec_checker "delete_candidate E running"
    "\<lambda>mg. ValidateCrSpecDelete E mg running" "\<lambda>s. Validate E s [LeafrefOptions False]" "error_text E"
    for E running
  by unfold_locales (simp_all add: ValidateCrSpecDelete_eq delete_candidate_def expect_SrlConfig_def)

text \<open>
  C9. An update is accepted exactly when the running configuration and the spec both parse, the spec
  can be merged over the running configuration, overwriting it, and the merged configuration is
  valid; and whenever the answer is negative it carries the text of that validation error.
\<close>

theorem ValidateCrSpecUpdate_accepts:
  "((\<exists>obs. ValidateCrSpecUpdate E mg running = Ok obs \<and> so_Success obs) \<longleftrightarrow>
     (\<exists>cr r s m. mg = ManagedSrl cr \<and> NewConfigStruct E running True = Inr r \<and>
        NewConfigStruct E (raw_bytes cr) False = Inr s \<and>
        MergeStructInto E r s [MergeOverwriteExistingFields] = Inr m \<and> Validate E m [] = None)) \<and>
   (\<forall>obs. ValidateCrSpecUpdate E mg running = Ok obs \<and> \<not> so_Success obs \<longrightarrow>
     (\<exists>m err. update_candidate E running mg = Ok m \<and> Validate E m [] = Some err \<and>
        so_Message obs = error_text E err))"
proof -
  have cand: "update_candidate E running mg = Ok m \<longleftrightarrow>
      (\<exists>cr r s. mg = ManagedSrl cr \<and> NewConfigStruct E running True = Inr r \<and>
        NewConfigStruct E (raw_bytes cr) False = Inr s \<and>
        MergeStructInto E r s [MergeOverwriteExistingFields] = Inr m)" for m
    by (cases mg) (auto simp: update_candidate_def result_simps)
  show ?thesis
    using update_check.Success_iff [of E mg running] update_check.failure_explained [of E mg running]
    by (auto simp: cand)
qed

theorem ValidateCrSpecUpdate_accepts_witness:
  "(\<exists>obs. ValidateCrSpecUpdate demo_env (demo_with ''{new}'') ''{old}'' = Ok obs \<and> so_Success obs) \<and>
   (\<exists>obs. ValidateCrSpecUpdate demo_env (demo_with ''{invalid}'') ''{old}'' = Ok obs \<and>
      so_Message obs = ''invalid'')"
proof
  show "\<exists>obs. ValidateCrSpecUpdate demo_env (demo_with ''{new}'') ''{old}'' = Ok obs \<and> so_Success obs"
    using ValidateCrSpecUpdate_accepts [of demo_env "demo_with ''{new}''" "''{old}''"]
    by (simp add: demo_with_def demo_parse_def raw_bytes_def)
  have "ValidateCrSpecUpdate demo_env (demo_with ''{invalid}'') ''{old}'' =
      Ok \<lparr>so_Success = False, so_Message = ''invalid''\<rparr>"
    by (simp add: ValidateCrSpecUpdate_def demo_parse_def)
  then show "\<exists>obs. ValidateCrSpecUpdate demo_env (demo_with ''{invalid}'') ''{old}'' = Ok obs \<and>
      so_Message obs = ''invalid''" by simp
qed

text \<open>
  C10. A deletion is judged on the running configuration without the root paths of the spec: for a
  spec whose notifications hold no nil update, the outcome is the verdict, with strict leaf
  references, on the running configuration from which exactly the nodes at those root paths are
  deleted, in order, and empty branches pruned; the first deletion that fails is the result.
\<close>

theorem ValidateCrSpecDelete_outcome:
  assumes "NewConfigStruct E running True = Inr r"
    and "NewConfigStruct E (raw_bytes cr) False = Inr s"
    and "TogNMINotifications E s 0 = Inr ns" and "None \<notin> set (spec_updates ns)"
  shows "ValidateCrSpecDelete E (ManagedSrl cr) running =
    (case delete_all (DeleteNode E) (HierarchyRootPaths E (spec_hierarchy E (spec_updates ns))) r of
       Inl e \<Rightarrow> Err e
     | Inr d \<Rightarrow> Ok (verdict (error_text E)
         (Validate E (PruneEmptyBranches E d) [LeafrefOptions False])))"
  using assms
  by (cases "delete_all (DeleteNode E) (HierarchyRootPaths E (spec_hierarchy E (spec_updates ns))) r")
     (simp_all add: ValidateCrSpecDelete_eq delete_candidate_def)

theorem ValidateCrSpecDelete_outcome_witness:
  "ValidateCrSpecDelete demo_env (demo_with ''{x}'') ''{x}'' = Ok \<lparr>so_Success = True, so_Message = []\<rparr>"
  unfolding demo_with_def
  by (subst ValidateCrSpecDelete_outcome [where r = "DConf (Some ''{x}'')" and s = "DConf (Some ''{x}'')"
        and ns = "[Some \<lparr>n_Timestamp = 0, n_Update = [Some \<lparr>u_Path = Some demo_leaf_path,
            u_Val = Some (StringVal ''{x}'')\<rparr>], n_Delete = []\<rparr>]"])
     (simp_all add: demo_parse_def raw_bytes_def spec_updates_def spec_hierarchy_def verdict_def)

section \<open>Status of a resource\<close>

definition entry_status :: "gvk option option \<Rightarrow> (cr_observation, 'e) result" where
  "entry_status entry = (case entry of
      None \<Rightarrow> Ok zero_observation
    | Some None \<Rightarrow> Panic NilDereference
    | Some (Some g) \<Rightarrow>
        (case gvk_Status g of
           Status_PENDING \<Rightarrow> Ok (zero_observation\<lparr>co_Exists := True, co_Pending := True\<rparr>)
         | Status_FAILED \<Rightarrow> (case gvk_Reason g of None \<Rightarrow> Panic NilDereference
             | Some m \<Rightarrow> Ok (zero_observation\<lparr>co_Exists := True, co_Failed := True, co_Message := m\<rparr>))
         | Status_Other n \<Rightarrow> Ok (zero_observation\<lparr>co_Exists := True\<rparr>)))"

lemma GetCrStatus_eq:
  "GetCrStatus E mg (Some sys) =
     try_then (deref (sd_Cache sys)) (\<lambda>c. try_then (deref (sc_Exhausted c)) (\<lambda>x.
       if x \<noteq> 0 then Ok (zero_observation\<lparr>co_Exhausted := True\<rparr>)
       else entry_status (fmlookup (sd_Gvk sys) (GetGvkName E mg))))"
  unfolding GetCrStatus_def entry_status_def deref.simps try_then.simps
  by (intro try_then_cong refl if_cong)
     (auto simp: zero_observation_def split: option.split resource_status.split)

text \<open>A status depends on the cache and on the resource's own entry only.\<close>

lemma GetCrStatus_frame:
  "sd_Cache sys' = sd_Cache sys \<Longrightarrow>
   fmlookup (sd_Gvk sys') (GetGvkName E mg) = fmlookup (sd_Gvk sys) (GetGvkName E mg) \<Longrightarrow>
   GetCrStatus E mg (Some sys') = GetCrStatus E mg (Some sys)"
  by (simp only: GetCrStatus_eq)

lemma GetCrStatus_Ok_cases:
  fixes E :: "('e, 'z) gvk_env_scheme"
  assumes "GetCrStatus E mg (Some sys) = Ok obs"
  obtains "obs = zero_observation\<lparr>co_Exhausted := True\<rparr>"
  | "entry_status (fmlookup (sd_Gvk sys) (GetGvkName E mg)) = (Ok obs :: (_, 'e) result)"
  using assms by (auto simp: GetCrStatus_eq result_simps split: if_splits)

lemma entry_status_Ok:
  assumes "entry_status entry = Ok obs"
  shows "\<not> co_Exhausted obs \<and> (co_Pending obs \<or> co_Failed obs \<longrightarrow> co_Exists obs) \<and>
    \<not> (co_Pending obs \<and> co_Failed obs) \<and> (co_Exists obs \<longleftrightarrow> entry \<noteq> None) \<and>
    (\<forall>g. entry = Some (Some g) \<longrightarrow>
       (co_Pending obs \<longleftrightarrow> gvk_Status g = Status_PENDING) \<and>
       (co_Failed obs \<longleftrightarrow> gvk_Status g = Status_FAILED) \<and>
       (co_Failed obs \<longrightarrow> gvk_Reason g = Some (co_Message obs))) \<and>
    (\<not> co_Failed obs \<longrightarrow> co_Message obs = [])"
  using assms by (auto simp: entry_status_def zero_observation_def
      split: option.splits resource_status.splits)

lemma entry_status_Panic [simp]:
  "entry_status entry = Panic p \<longleftrightarrow> p = NilDereference \<and>
     (entry = Some None \<or> (\<exists>g. entry = Some (Some g) \<and> gvk_Status g = Status_FAILED \<and> gvk_Reason g = None))"
  by (auto simp: entry_status_def split: option.splits resource_status.splits)

lemma entry_status_not_Err [simp]: "entry_status entry \<noteq> Err e"
  by (auto simp: entry_status_def split: option.splits resource_status.splits)

lemma GetCrStatus_shape:
  assumes "GetCrStatus E mg (Some sys) = Ok obs"
  shows "(co_Exhausted obs \<longrightarrow> obs = zero_observation\<lparr>co_Exhausted := True\<rparr>) \<and>
    (co_Pending obs \<or> co_Failed obs \<longrightarrow> co_Exists obs) \<and> \<not> (co_Pending obs \<and> co_Failed obs) \<and>
    (co_Exists obs \<longleftrightarrow> \<not> co_Exhausted obs \<and> GetGvkName E mg |\<in>| fmdom (sd_Gvk sys)) \<and>
    (\<forall>g. fmlookup (sd_Gvk sys) (GetGvkName E mg) = Some (Some g) \<and> \<not> co_Exhausted obs \<longrightarrow>
       (co_Pending obs \<longleftrightarrow> gvk_Status g = Status_PENDING) \<and>
       (co_Failed obs \<longleftrightarrow> gvk_Status g = Status_FAILED) \<and>
       (co_Failed obs \<longrightarrow> gvk_Reason g = Some (co_Message obs))) \<and>
    (\<not> co_Failed obs \<longrightarrow> co_Message obs = [])"
  using assms
proof (cases rule: GetCrStatus_Ok_cases)
  case 1
  then show ?thesis by (simp add: zero_observation_def)
next
  case 2
  note e = entry_status_Ok [OF 2]
  then have "\<not> co_Exhausted obs"
    and "co_Exists obs \<longleftrightarrow> GetGvkName E mg |\<in>| fmdom (sd_Gvk sys)"
    by (simp_all add: fmlookup_dom_iff)
  with e show ?thesis by (elim conjE, intro conjI allI impI) blast+
qed

text \<open>
  C14. The status observation is consistent and is about the resource alone: an exhausted cache hides
  everything else; a pending or failed resource exists; pending and failed exclude each other; only
  a failed resource has a message, the reason the worker stored; and two system configurations with
  the same exhaustion and the same entry for this resource give the same observation.
\<close>

theorem GetCrStatus_consistent:
  assumes "GetCrStatus E mg (Some sys) = Ok obs"
  shows "(co_Exhausted obs \<longrightarrow> obs = zero_observation\<lparr>co_Exhausted := True\<rparr>) \<and>
    (co_Pending obs \<or> co_Failed obs \<longrightarrow> co_Exists obs) \<and> \<not> (co_Pending obs \<and> co_Failed obs) \<and>
    (co_Exists obs \<longleftrightarrow> \<not> co_Exhausted obs \<and> GetGvkName E mg |\<in>| fmdom (sd_Gvk sys)) \<and>
    (\<forall>g. fmlookup (sd_Gvk sys) (GetGvkName E mg) = Some (Some g) \<and> \<not> co_Exhausted obs \<longrightarrow>
       (co_Pending obs \<longleftrightarrow> gvk_Status g = Status_PENDING) \<and>
       (co_Failed obs \<longleftrightarrow> gvk_Status g = Status_FAILED) \<and>
       (co_Failed obs \<longrightarrow> gvk_Reason g = Some (co_Message obs))) \<and>
    (\<not> co_Failed obs \<longrightarrow> co_Message obs = []) \<and>
    (\<forall>sys'. sd_Cache sys' = sd_Cache sys \<and>
       fmlookup (sd_Gvk sys') (GetGvkName E mg) = fmlookup (sd_Gvk sys) (GetGvkName E mg) \<longrightarrow>
       GetCrStatus E mg (Some sys') = Ok obs)"
  using GetCrStatus_shape [OF assms] GetCrStatus_frame [of _ sys E mg] assms
  by (intro conjI allI impI) (simp_all only: simp_thms)

definition demo_failed :: system_device where
  "demo_failed = demo_device\<lparr>sd_Gvk := fmupd ''gvk''
     (Some ((demo_entry_of ''{}'')\<lparr>gvk_Status := Status_FAILED, gvk_Reason := Some ''no link''\<rparr>)) fmempty\<rparr>"

theorem GetCrStatus_consistent_witness:
  "\<exists>obs. GetCrStatus demo_env (demo_with ''{}'') (Some demo_failed) = Ok obs \<and>
     co_Exists obs \<and> co_Failed obs \<and> co_Message obs = ''no link''"
proof -
  obtain obs where obs: "GetCrStatus demo_env (demo_with ''{}'') (Some demo_failed) = Ok obs"
    by (simp add: GetCrStatus_def demo_failed_def demo_device_def)
  with GetCrStatus_consistent [OF obs] show ?thesis
    by (auto simp: demo_failed_def demo_device_def GetCrStatus_def zero_observation_def)
qed

text \<open>
  C39. \<open>GetCrStatus\<close> returns no error, and it panics in exactly these cases: the system
  configuration, its cache or the cache's counter is nil, or the cache is not exhausted and the
  resource's entry is nil or failed without a reason.  In particular it panics on the nil
  configuration with which \<open>GetSystemConfig\<close> reports a worker that is not ready.
\<close>

theorem GetCrStatus_panics_iff:
  "(\<forall>e. GetCrStatus E mg sc \<noteq> Err e) \<and>
   ((\<exists>p. GetCrStatus E mg sc = Panic p) \<longleftrightarrow>
     (case sc of None \<Rightarrow> True
      | Some sys \<Rightarrow> (case sd_Cache sys of None \<Rightarrow> True
          | Some c \<Rightarrow> (case sc_Exhausted c of None \<Rightarrow> True
              | Some x \<Rightarrow> x = 0 \<and> (case fmlookup (sd_Gvk sys) (GetGvkName E mg) of None \<Rightarrow> False
                  | Some None \<Rightarrow> True
                  | Some (Some g) \<Rightarrow> gvk_Status g = Status_FAILED \<and> gvk_Reason g = None)))))"
proof (cases sc)
  case None
  then show ?thesis by (simp add: GetCrStatus_def)
next
  case (Some sys)
  have err: "GetCrStatus E mg sc \<noteq> Err e" for e
    by (auto simp: Some GetCrStatus_eq result_simps)
  have "(\<exists>p. GetCrStatus E mg sc = Panic p) \<longleftrightarrow>
      sd_Cache sys = None \<or> (\<exists>c. sd_Cache sys = Some c \<and> (sc_Exhausted c = None \<or>
        sc_Exhausted c = Some 0 \<and>
        (\<exists>p. entry_status (fmlookup (sd_Gvk sys) (GetGvkName E mg)) = (Panic p :: (_, 'a) result))))"
    by (auto simp: Some GetCrStatus_eq result_simps)
  with err show ?thesis
    by (simp add: Some split: option.splits)
qed

end
