(* ===== verification/Validator_Diff.thy ===== *)
theory Validator_Diff
  imports Validator
begin

text \<open>
  What the diffs of the validator say: \<open>GetCrSpecDiff\<close> (the spec against the one the worker was
  last asked for), \<open>GetCrActualDiff\<close> (the spec against the running configuration) and
  \<open>GetRootPaths\<close>.
\<close>

text \<open>Deletes and updates of a diff after \<open>validateNotification\<close>, on plain paths.\<close>

definition cleaned_deletes :: "notif_ptrs \<Rightarrow> heap \<Rightarrow> gnmi_path option list" where
  "cleaned_deletes n h = map (\<lambda>p. map_option trim_path (read_path h p)) (np_Delete n)"

definition cleaned_updates :: "notif_ptrs \<Rightarrow> heap \<Rightarrow> gnmi_update option list" where
  "cleaned_updates n h = map (\<lambda>u. map_option trim_update (read_update h u)) (np_Update n)"

definition no_change :: "notif_ptrs \<Rightarrow> bool" where
  "no_change n \<longleftrightarrow> np_Delete n = [] \<and> np_Update n = []"

lemma cleaned_empty [simp]:
  "cleaned_deletes n h = [] \<longleftrightarrow> np_Delete n = []" "cleaned_updates n h = [] \<longleftrightarrow> np_Update n = []"
  by (simp_all add: cleaned_deletes_def cleaned_updates_def)

lemma validateNotification_cleaned:
  assumes "separate n h" "validateNotification n h = (Ok ((ds, us), g) :: (_, 'e) result)"
  shows "map (read_path g) ds = cleaned_deletes n h \<and> map (read_update g) us = cleaned_updates n h"
proof -
  obtain g' where g': "validateNotification n h = (Ok ((np_Delete n, np_Update n), g') :: (_, 'e) result)"
    "map (read_path g') (np_Delete n) = cleaned_deletes n h"
    "map (read_update g') (np_Update n) = cleaned_updates n h"
    using validateNotification_reads [OF assms(1)]
    unfolding cleaned_deletes_def cleaned_updates_def by metis
  with assms(2) show ?thesis by simp
qed

section \<open>The spec against the running configuration\<close>

lemma GetCrActualDiff_run:
  fixes E :: "('s, 'r, 'e, 'z) model_env_scheme"
  assumes "GetCrActualDiff E mg running = Ok obs"
  obtains cr src spec tmp new n h ds us g where "mg = ManagedSrl cr"
    "NewConfigStruct E running False = Inr src" "NewConfigStruct E (raw_bytes cr) False = Inr spec"
    "DeepCopy E src = Inr tmp" "is_device E tmp" "MergeStructInto E tmp spec [] = Inr new"
    "Diff E src new = Inr (n, h)"
    "validateNotification n h = (Ok ((ds, us), g) :: (_, 'e) result)"
    "obs = \<lparr>ad_HasData = True, ad_IsUpToDate = (length ds = 0 \<and> length us = 0),
       ad_Deletes = map (read_path g) ds, ad_Updates = map (read_update g) us\<rparr>"
  using assms
  by (cases mg) (auto simp: GetCrActualDiff_def result_simps split: prod.splits if_splits)

text \<open>
  C12. An answer of \<open>GetCrActualDiff\<close> is the diff from the running configuration to that configuration
  with the spec merged in, both parsed; it always has data, it is up to date exactly when the two do
  not differ, and unless the diff shares paths between its entries, the reported deletes and updates
  are that diff's, with paths that end in a list key cut back to the list entry.
\<close>

theorem GetCrActualDiff_reports:
  assumes "GetCrActualDiff E mg running = Ok obs"
  shows "ad_HasData obs \<and> (\<exists>cr src spec tmp new n h. mg = ManagedSrl cr \<and>
     NewConfigStruct E running False = Inr src \<and> NewConfigStruct E (raw_bytes cr) False = Inr spec \<and>
     DeepCopy E src = Inr tmp \<and> MergeStructInto E tmp spec [] = Inr new \<and>
     Diff E src new = Inr (n, h) \<and> (ad_IsUpToDate obs \<longleftrightarrow> no_change n) \<and>
     (separate n h \<longrightarrow> ad_Deletes obs = cleaned_deletes n h \<and> ad_Updates obs = cleaned_updates n h))"
  using assms
proof (cases rule: GetCrActualDiff_run)
  case (1 cr src spec tmp new n h ds us g)
  have "ds = [] \<and> us = [] \<longleftrightarrow> no_change n"
    using diff.same_entries [OF 1(8)] by (auto simp: no_change_def)
  with 1 validateNotification_cleaned [OF _ 1(8)] show ?thesis
    by (auto intro!: exI [of _ cr])
qed

theorem GetCrActualDiff_reports_witness:
  "\<exists>obs. GetCrActualDiff demo_env (demo_with ''{new}'') ''{}'' = Ok obs \<and>
     \<not> ad_IsUpToDate obs \<and> ad_Updates obs = [Some \<lparr>u_Path = Some demo_leaf_path,
       u_Val = Some (StringVal ''{new}'')\<rparr>]"
proof -
  have sep: "separate \<lparr>np_Update = [Some 0], np_Delete = []\<rparr> (demo_diff_heap v)" for v
    by (simp add: separate_def demo_diff_heap_def)
  obtain g where "validateNotification \<lparr>np_Update = [Some 0], np_Delete = []\<rparr>
      (demo_diff_heap ''{new}'') = (Ok (([], [Some 0]), g) :: (_, unit) result)"
    by (rule validateNotification_reads [OF sep]) simp
  then obtain obs where obs: "GetCrActualDiff demo_env (demo_with ''{new}'') ''{}'' = Ok obs"
    by (simp add: GetCrActualDiff_def demo_parse_def)
  have leaf: "trim_update \<lparr>u_Path = Some demo_leaf_path, u_Val = v\<rparr> =
      \<lparr>u_Path = Some demo_leaf_path, u_Val = v\<rparr>" for v
    by (simp add: trim_update_def demo_leaf_path_def names_list_key_def)
  from GetCrActualDiff_reports [OF obs] show ?thesis
    unfolding obs
    by (auto simp: demo_with_def demo_parse_def raw_bytes_def no_change_def sep [unfolded demo_diff_heap_def] cleaned_updates_def
        read_update_def read_path_def leaf demo_diff_heap_def)
qed

section \<open>A configuration that drifted\<close>

text \<open>
  \<open>leaf\<close> reads the scalar leaves of a config struct.  \<open>ygot\<close> documents that \<open>MergeStructInto\<close>
  without options fails when the structs have different values for a leaf, and that \<open>DeepCopy\<close>
  copies.
\<close>

definition rejects_conflicts ::
  "('s, 'r, 'e, 'z) model_env_scheme \<Rightarrow> ('s \<Rightarrow> string \<Rightarrow> string option) \<Rightarrow> bool" where
  "rejects_conflicts E leaf \<longleftrightarrow> (\<forall>d s k v w. leaf d k = Some v \<and> leaf s k = Some w \<and> v \<noteq> w \<longrightarrow>
     (\<exists>e. MergeStructInto E d s [] = Inl e))"

definition copies_leaves ::
  "('s, 'r, 'e, 'z) model_env_scheme \<Rightarrow> ('s \<Rightarrow> string \<Rightarrow> string option) \<Rightarrow> bool" where
  "copies_leaves E leaf \<longleftrightarrow> (\<forall>s c. DeepCopy E s = Inr c \<longrightarrow> leaf c = leaf s)"

text \<open>
  C19. A drifted leaf is an error, not a difference: when the running configuration has another
  value than the spec for some leaf, \<open>GetCrActualDiff\<close> gives no observation at all, because it
  merges the spec without \<open>MergeOverwriteExistingFields\<close>.  So whatever it reports as an update is
  for leaves the running configuration does not have yet.
\<close>

theorem GetCrActualDiff_drift:
  assumes "rejects_conflicts E leaf" and "copies_leaves E leaf"
    and "NewConfigStruct E running False = Inr src"
    and "NewConfigStruct E (raw_bytes cr) False = Inr spec"
    and "leaf src k = Some v" and "leaf spec k = Some w" and "v \<noteq> w"
  shows "GetCrActualDiff E (ManagedSrl cr) running \<noteq> Ok obs"
proof
  assume "GetCrActualDiff E (ManagedSrl cr) running = Ok obs"
  then obtain tmp new where "DeepCopy E src = Inr tmp" and merge: "MergeStructInto E tmp spec [] = Inr new"
    using assms(3,4) by (auto elim: GetCrActualDiff_run)
  then have "leaf tmp k = Some v" using assms(2,5) by (auto simp: copies_leaves_def)
  with assms(1,6,7) merge show False by (force simp: rejects_conflicts_def)
qed

fun demo_leaf_value :: "demo_struct \<Rightarrow> string \<Rightarrow> string option" where
  "demo_leaf_value (DConf v) k = v"
| "demo_leaf_value (DSys d) k = None"

theorem GetCrActualDiff_drift_witness:
  "(\<forall>obs. GetCrActualDiff demo_env (demo_with ''{new}'') ''{old}'' \<noteq> Ok obs) \<and>
   (\<exists>obs. ValidateCrSpecUpdate demo_env (demo_with ''{new}'') ''{old}'' = Ok obs \<and> so_Success obs)"
proof
  have "rejects_conflicts demo_env demo_leaf_value"
    unfolding rejects_conflicts_def
  proof (intro allI impI)
    fix d s k v w
    assume "demo_leaf_value d k = Some v \<and> demo_leaf_value s k = Some w \<and> v \<noteq> w"
    then show "\<exists>e. MergeStructInto demo_env d s [] = Inl e" by (cases d; cases s) auto
  qed
  moreover have "copies_leaves demo_env demo_leaf_value" by (simp add: copies_leaves_def)
  ultimately show "\<forall>obs. GetCrActualDiff demo_env (demo_with ''{new}'') ''{old}'' \<noteq> Ok obs"
    unfolding demo_with_def
    by (intro allI, rule GetCrActualDiff_drift
        [where leaf = demo_leaf_value and src = "DConf (Some ''{old}'')"
          and spec = "DConf (Some ''{new}'')" and k = "[]"
          and v = "''{old}''" and w = "''{new}''"])
       (simp_all add: demo_parse_def raw_bytes_def)
qed (simp add: ValidateCrSpecUpdate_def demo_parse_def)

section \<open>The spec against the one asked for\<close>

text \<open>
  C18. \<open>GetCrSpecDiff\<close> compares the spec with the one stored in the resource's own cache entry, from
  stored to new: without an entry there is nothing to report, with one the deletes and updates are
  those of the diff.  Neither the running configuration nor other resources' entries play a part.
\<close>

theorem GetCrSpecDiff_reports:
  fixes E :: "('s, 'r, 'e, 'z) model_env_scheme"
  assumes "GetCrSpecDiff E mg (Some sys) = Ok obs"
  shows "case fmlookup (sd_Gvk sys) (GetGvkName E mg) of
      None \<Rightarrow> sd_Deletes obs = [] \<and> sd_Updates obs = []
    | Some entry \<Rightarrow> (\<exists>cr g stored old new n h. mg = ManagedSrl cr \<and> entry = Some g \<and>
        gvk_Spec g = Some stored \<and> NewConfigStruct E stored False = Inr old \<and>
        NewConfigStruct E (raw_bytes cr) False = Inr new \<and> Diff E old new = Inr (n, h) \<and>
        (sd_Deletes obs = [] \<and> sd_Updates obs = [] \<longleftrightarrow> no_change n) \<and>
        (separate n h \<longrightarrow> sd_Deletes obs = cleaned_deletes n h \<and> sd_Updates obs = cleaned_updates n h))"
proof -
  obtain cr where cr: "mg = ManagedSrl cr" using assms by (rule spec_diff.returns_device [THEN exE])
  show ?thesis
  proof (cases "fmlookup (sd_Gvk sys) (GetGvkName E mg)")
    case None
    then show ?thesis using assms cr by (auto simp: GetCrSpecDiff_def)
  next
    case (Some entry)
    then obtain new g stored old n h ds us g' where run: "entry = Some g"
      "NewConfigStruct E (raw_bytes cr) False = Inr new" "gvk_Spec g = Some stored"
      "NewConfigStruct E stored False = Inr old" "Diff E old new = Inr (n, h)"
      "validateNotification n h = (Ok ((ds, us), g') :: (_, 'e) result)"
      "obs = \<lparr>sd_Deletes = map (read_path g') ds, sd_Updates = map (read_update g') us\<rparr>"
      using assms cr by (auto simp: GetCrSpecDiff_def result_simps split: prod.splits)
    have "ds = [] \<and> us = [] \<longleftrightarrow> no_change n"
      using diff.same_entries [OF run(6)] by (auto simp: no_change_def)
    with run cr Some validateNotification_cleaned [OF _ run(6)] show ?thesis by auto
  qed
qed

definition demo_stored :: "string \<Rightarrow> system_device" where
  "demo_stored spec = demo_device\<lparr>sd_Gvk := fmupd ''gvk'' (Some (demo_entry_of spec)) fmempty\<rparr>"

theorem GetCrSpecDiff_reports_witness:
  "\<exists>obs. GetCrSpecDiff demo_env (demo_with ''{new}'') (Some (demo_stored ''{old}'')) = Ok obs \<and>
     sd_Deletes obs = [] \<and> sd_Updates obs \<noteq> []"
proof -
  have sep: "separate \<lparr>np_Update = [Some 0], np_Delete = []\<rparr> (demo_diff_heap v)" for v
    by (simp add: separate_def demo_diff_heap_def)
  obtain g where "validateNotification \<lparr>np_Update = [Some 0], np_Delete = []\<rparr>
      (demo_diff_heap ''{new}'') = (Ok (([], [Some 0]), g) :: (_, unit) result)"
    by (rule validateNotification_reads [OF sep]) simp
  then obtain obs where obs: "GetCrSpecDiff demo_env (demo_with ''{new}'') (Some (demo_stored ''{old}'')) = Ok obs"
    by (simp add: GetCrSpecDiff_def demo_parse_def demo_stored_def demo_entry_of_def)
  from GetCrSpecDiff_reports [OF obs] show ?thesis
    unfolding obs
    by (auto simp: demo_with_def demo_stored_def demo_entry_of_def demo_parse_def raw_bytes_def
        no_change_def sep cleaned_deletes_def)
qed

section \<open>Root paths of a spec\<close>

text \<open>
  The root paths of a spec are the XPaths of the roots in the hierarchy of its first
  notification, in order.  The only errors are those of parsing the spec and of turning it into
  notifications; and a spec that yields no notification at all is a panic.
\<close>

lemma ValidatorRootPaths_outcome:
  "ValidatorRootPaths E now (ManagedSrl cr) = (case JsonUnmarshaler E (raw_bytes cr) of
       Inl e \<Rightarrow> Err e
     | Inr s \<Rightarrow> (case TogNMINotifications E s now of
         Inl e \<Rightarrow> Err e
       | Inr [] \<Rightarrow> Panic IndexOutOfRange
       | Inr (n # ns) \<Rightarrow> Ok (map (\<lambda>p. GnmiPath2XPath E p True)
           (HierarchyRootPaths E (HierarchyFromGnmiUpdate E n)))))"
  by (auto simp: ValidatorRootPaths_def getRootPaths_def go_index_def fold_snoc
      split: sum.splits list.splits)

end
