(* ===== verification/Convergence.thy ===== *)
theory Convergence
  imports Validator_Diff
begin

text \<open>
  Where a reconcile ends: an accepted spec that the device has taken over is not reported as a
  difference any more and is accepted again.  What this needs of \<open>ygot\<close> is collected in one predicate.
\<close>

text \<open>
  \<open>DeepCopy\<close> gives an equal struct, a merge keeps what was merged before, a struct has no difference
  from itself, and what is parsed from the device is a device struct.
\<close>

definition ygot_laws :: "('s, 'r, 'e, 'z) model_env_scheme \<Rightarrow> bool" where
  "ygot_laws E \<longleftrightarrow> (\<forall>s. is_device E s \<longrightarrow> DeepCopy E s = Inr s) \<and>
     (\<forall>d s d' opts opts'. MergeStructInto E d s opts = Inr d' \<longrightarrow> MergeStructInto E d' s opts' = Inr d') \<and>
     (\<forall>s. is_device E s \<longrightarrow> (\<exists>h. Diff E s s = Inr (\<lparr>np_Update = [], np_Delete = []\<rparr>, h))) \<and>
     (\<forall>b v s. NewConfigStruct E b v = Inr s \<longrightarrow> is_device E s)"

text \<open>The device has taken over the spec: its configuration parses to the one that was validated.\<close>

definition takes_over :: "('s, 'r, 'e, 'z) model_env_scheme \<Rightarrow> srl_config \<Rightarrow> bytes \<Rightarrow> bytes \<Rightarrow> bool" where
  "takes_over E cr running running' \<longleftrightarrow> (\<forall>old spec new v. NewConfigStruct E running True = Inr old \<and>
     NewConfigStruct E (raw_bytes cr) False = Inr spec \<and>
     MergeStructInto E old spec [MergeOverwriteExistingFields] = Inr new \<longrightarrow>
     NewConfigStruct E running' v = Inr new)"


lemma demo_ygot_laws: "ygot_laws demo_env"
  unfolding ygot_laws_def
proof (intro conjI allI impI)
  fix d s d' opts opts'
  assume "MergeStructInto demo_env d s opts = Inr d'"
  then show "MergeStructInto demo_env d' s opts' = Inr d'"
    by (cases "(d, s, opts)" rule: demo_merge.cases) (auto split: if_splits)
next
  fix s assume "is_device demo_env s"
  then show "DeepCopy demo_env s = Inr s" by simp
next
  fix s assume "is_device demo_env s"
  then show "\<exists>h. Diff demo_env s s = Inr (\<lparr>np_Update = [], np_Delete = []\<rparr>, h)"
    by (cases s) (auto simp: demo_env_def)
next
  fix b v s assume "NewConfigStruct demo_env b v = Inr s"
  then show "is_device demo_env s" by (auto simp: demo_parse_def split: if_splits)
qed


end
