(* ===== verification/Device.thy ===== *)
theory Device
  imports Gvk
begin

text \<open>
  The external client of \<open>internal/controllers/srl/srlconfig_controller.go\<close>: it asks the worker
  over gNMI to create, update or delete a resource and reads the system cache and the running
  configuration back.  \<open>'w\<close> is everything behind the gNMI connection; every method leaves it as the
  calls it makes leave it.
\<close>

section \<open>Writing the entry of a resource\<close>

definition no_request :: set_request where
  "no_request = \<lparr>sr_Prefix = None, sr_Delete = [], sr_Replace = [], sr_Update = []\<rparr>"

text \<open>\<open>_, err = e.client.Set(ctx, req)\<close>\<close>

definition call_Set ::
  "('s, 'r, 'w, 'e, 'z) client_env_scheme \<Rightarrow> set_request \<Rightarrow> ('w, unit, 'e) action" where
  "call_Set E req w = (let (err, w') = client_Set E w req in (check_err err, w'))"

definition wrapping :: "string \<Rightarrow> ('w, 'a, 'e) action \<Rightarrow> ('w, 'a, 'e) action" where
  "wrapping msg m w = (let (r, w') = m w in (wrap msg r, w'))"

definition Create ::
  "('s, 'r, 'w, 'e, 'z) client_env_scheme \<Rightarrow> managed \<Rightarrow> external_observation \<Rightarrow> ('w, unit, 'e) action" where
  "Create E mg obs =
     and_then (pure (wrap errCreateDevice (getGvkUpate E mg obs Action_CREATE))) (\<lambda>updates.
     and_then (pure (deref (mg_TargetReference mg))) (\<lambda>ref.
     let crTarget = GetNamespacedName E (mg_Namespace mg) (ref_Name ref);
         req = no_request\<lparr>sr_Prefix := Some (empty_path\<lparr>p_Target := crTarget, p_Origin := origin_System E\<rparr>),
           sr_Replace := updates\<rparr>
     in wrapping errCreateDevice (call_Set E req)))"

definition Update ::
  "('s, 'r, 'w, 'e, 'z) client_env_scheme \<Rightarrow> managed \<Rightarrow> external_observation \<Rightarrow> ('w, unit, 'e) action" where
  "Update E mg obs =
     and_then (pure (wrap errCreateDevice (getGvkUpate E mg obs Action_UPDATE))) (\<lambda>updates.
     and_then (pure (deref (mg_TargetReference mg))) (\<lambda>ref.
     let crTarget = GetNamespacedName E (mg_Namespace mg) (ref_Name ref);
         req = no_request\<lparr>sr_Prefix := Some (empty_path\<lparr>p_Target := crTarget, p_Origin := origin_System E\<rparr>),
           sr_Replace := updates\<rparr>
     in wrapping errUpdateDevice (call_Set E req)))"

definition Delete ::
  "('s, 'r, 'w, 'e, 'z) client_env_scheme \<Rightarrow> managed \<Rightarrow> external_observation \<Rightarrow> ('w, unit, 'e) action" where
  "Delete E mg obs =
     and_then (pure (wrap errCreateDevice (getGvkUpate E mg obs Action_DELETE))) (\<lambda>updates.
     and_then (pure (deref (mg_TargetReference mg))) (\<lambda>ref.
     let crTarget = GetNamespacedName E (mg_Namespace mg) (ref_Name ref);
         req = no_request\<lparr>sr_Prefix := Some (empty_path\<lparr>p_Target := crTarget, p_Origin := origin_System E\<rparr>),
           sr_Replace := updates\<rparr>
     in wrapping errDeleteDevice (call_Set E req)))"

definition Close :: "('s, 'r, 'w, 'e, 'z) client_env_scheme \<Rightarrow> 'w \<Rightarrow> 'w" where
  "Close E w = client_Close E w"

section \<open>Reading the cache back\<close>

text \<open>
  \<open>resp, err := e.client.Get(ctx, req)\<close>; both results are kept, because the code goes on with the
  response it got together with an error.
\<close>

definition call_Get ::
  "('s, 'r, 'w, 'e, 'z) client_env_scheme \<Rightarrow> get_request \<Rightarrow>
     ('w, get_response option \<times> 'e error option, 'e) action" where
  "call_Get E req w = (let (answer, w') = client_Get E w req in (Ok answer, w'))"

definition is_unavailable ::
  "('s, 'r, 'w, 'e, 'z) client_env_scheme \<Rightarrow> 'e error option \<Rightarrow> bool" where
  "is_unavailable E err = (case err of None \<Rightarrow> False
     | Some er \<Rightarrow> (let (code, ok) = status_FromError E er in ok \<and> code = Unavailable))"

definition GetSystemConfig ::
  "('s, 'r, 'w, 'e, 'z) client_env_scheme \<Rightarrow> managed \<Rightarrow> ('w, system_device option, 'e) action" where
  "GetSystemConfig E mg =
     and_then (pure (deref (mg_TargetReference mg))) (\<lambda>ref.
     let crTarget = GetNamespacedName E (mg_Namespace mg) (ref_Name ref);
         reqSystemCache = \<lparr>gr_Prefix = Some (empty_path\<lparr>p_Target := crTarget, p_Origin := origin_System E\<rparr>),
           gr_Path = [Some empty_path], gr_Encoding = JSON\<rparr>
     in and_then (call_Get E reqSystemCache) (\<lambda>(resp, err). pure
       (if is_unavailable E err then Ok None
        else if length (GetNotification resp) = 0 then Ok None
        else try_then
          (if length (GetNotification resp) \<noteq> 0 \<and> length (GetUpdate (GetNotification resp ! 0)) \<noteq> 0
           then try_then (deref (GetUpdate (GetNotification resp ! 0) ! 0)) (\<lambda>u.
                try_then (wrap errJSONMarshal (ext (GetValue E (u_Val u)))) (\<lambda>v.
                  Ok (if v = GNil then None else Some v)))
           else Ok (Some GNil)) (\<lambda>found.
          (case found of
             None \<Rightarrow> Ok None
           | Some systemCache \<Rightarrow>
               try_then (json_marshal systemCache) (\<lambda>systemData.
               try_then (ext (SystemConfigStruct E systemData True)) (\<lambda>goStruct.
                 (case as_system_device E goStruct of
                    None \<Rightarrow> Err (ErrNew ''wrong object nddp'')
                  | Some nddpDevice \<Rightarrow> Ok (Some nddpDevice)))))))))"

text \<open>The bytes are a slice: \<open>None\<close> is the nil slice.\<close>

definition GetRunningConfig ::
  "('s, 'r, 'w, 'e, 'z) client_env_scheme \<Rightarrow> managed \<Rightarrow> ('w, bytes option, 'e) action" where
  "GetRunningConfig E mg =
     and_then (pure (deref (mg_TargetReference mg))) (\<lambda>ref.
     let crTarget = GetNamespacedName E (mg_Namespace mg) (ref_Name ref);
         reqRunningConfig = \<lparr>gr_Prefix = Some (empty_path\<lparr>p_Target := crTarget, p_Origin := origin_Config E\<rparr>),
           gr_Path = [Some empty_path], gr_Encoding = JSON\<rparr>
     in and_then (call_Get E reqRunningConfig) (\<lambda>(resp, err). pure
       (if is_unavailable E err then Ok None
        else if length (GetNotification resp) = 0 then Ok None
        else try_then
          (if length (GetNotification resp) \<noteq> 0 \<and> length (GetUpdate (GetNotification resp ! 0)) \<noteq> 0
           then try_then (deref (GetUpdate (GetNotification resp ! 0) ! 0)) (\<lambda>u.
                try_then (wrap errJSONMarshal (ext (GetValue E (u_Val u)))) (\<lambda>v.
                  Ok (if v = GNil then None else Some v)))
           else Ok (Some GNil)) (\<lambda>found.
          (case found of
             None \<Rightarrow> Ok None
           | Some runningConfig \<Rightarrow>
               try_then (json_marshal runningConfig) (\<lambda>data. Ok (Some data)))))))"

section \<open>The contract of a write\<close>

text \<open>
  The three writes build the entry, look at the target reference and send one request; \<open>msg\<close> is what
  a refused request is reported as.
\<close>

locale entry_writer =
  fixes build :: "managed \<Rightarrow> 'o \<Rightarrow> ('u, 'e) result"
    and send :: "managed \<Rightarrow> reference \<Rightarrow> 'u \<Rightarrow> 'w \<Rightarrow> 'e error option \<times> 'w"
    and msg :: string
    and put :: "managed \<Rightarrow> 'o \<Rightarrow> ('w, unit, 'e) action"
  assumes outcome: "put mg obs w = (case build mg obs of
      Err e \<Rightarrow> (Err (ErrWrap e errCreateDevice), w)
    | Panic p \<Rightarrow> (Panic p, w)
    | Ok u \<Rightarrow> (case mg_TargetReference mg of
          None \<Rightarrow> (Panic NilDereference, w)
        | Some ref \<Rightarrow> (case send mg ref u w of
              (None, w') \<Rightarrow> (Ok (), w') | (Some e, w') \<Rightarrow> (Err (ErrWrap e msg), w'))))"
begin

lemma success_iff:
  "put mg obs w = (Ok (), w') \<longleftrightarrow> (\<exists>u ref. build mg obs = Ok u \<and>
     mg_TargetReference mg = Some ref \<and> send mg ref u w = (None, w'))"
  by (auto simp: outcome split: result.splits option.splits prod.splits)

lemma unbuilt: "build mg obs = Err e \<Longrightarrow> put mg obs w = (Err (ErrWrap e errCreateDevice), w)"
  by (simp add: outcome)

lemma refused:
  "build mg obs = Ok u \<Longrightarrow> mg_TargetReference mg = Some ref \<Longrightarrow> send mg ref u w = (Some e, w') \<Longrightarrow>
     put mg obs w = (Err (ErrWrap e msg), w')"
  by (simp add: outcome)

lemma no_target:
  "build mg obs = Ok u \<Longrightarrow> mg_TargetReference mg = None \<Longrightarrow> put mg obs w = (Panic NilDereference, w)"
  by (simp add: outcome)

lemma panics:
  "put mg obs w = (Panic p, w') \<Longrightarrow> build mg obs = Panic p \<or> mg_TargetReference mg = None"
  by (auto simp: outcome split: result.splits option.splits prod.splits)

text \<open>The worker hears of a put at most once.\<close>

lemma at_most_one_request:
  "snd (put mg obs w) = w \<or> (\<exists>u ref. build mg obs = Ok u \<and> mg_TargetReference mg = Some ref \<and>
     snd (put mg obs w) = snd (send mg ref u w))"
  by (auto simp: outcome split: result.splits option.splits prod.splits)

end

definition entry_request ::
  "('s, 'r, 'w, 'e, 'z) client_env_scheme \<Rightarrow> managed \<Rightarrow> reference \<Rightarrow> gnmi_update option list \<Rightarrow> set_request" where
  "entry_request E mg ref ups = \<lparr>sr_Prefix = Some \<lparr>p_Origin = origin_System E, p_Elem = [],
       p_Target = GetNamespacedName E (mg_Namespace mg) (ref_Name ref)\<rparr>,
     sr_Delete = [], sr_Replace = ups, sr_Update = []\<rparr>"

definition send_entry ::
  "('s, 'r, 'w, 'e, 'z) client_env_scheme \<Rightarrow> managed \<Rightarrow> reference \<Rightarrow> gnmi_update option list \<Rightarrow>
     'w \<Rightarrow> 'e error option \<times> 'w" where
  "send_entry E mg ref ups w = client_Set E w (entry_request E mg ref ups)"

lemma write_eq:
  "and_then (pure (wrap errCreateDevice b)) (\<lambda>ups. and_then (pure (deref (mg_TargetReference mg)))
     (\<lambda>ref. wrapping msg (call_Set E (entry_request E mg ref ups)))) w =
   (case b of
      Err e \<Rightarrow> (Err (ErrWrap e errCreateDevice), w)
    | Panic p \<Rightarrow> (Panic p, w)
    | Ok u \<Rightarrow> (case mg_TargetReference mg of
          None \<Rightarrow> (Panic NilDereference, w)
        | Some ref \<Rightarrow> (case send_entry E mg ref u w of
              (None, w') \<Rightarrow> (Ok (), w') | (Some e, w') \<Rightarrow> (Err (ErrWrap e msg), w'))))"
  by (auto simp: wrapping_def call_Set_def send_entry_def
      split: result.splits option.splits prod.splits)

lemma writes_eq:
  "Create E mg obs = and_then (pure (wrap errCreateDevice (getGvkUpate E mg obs Action_CREATE)))
     (\<lambda>ups. and_then (pure (deref (mg_TargetReference mg)))
        (\<lambda>ref. wrapping errCreateDevice (call_Set E (entry_request E mg ref ups))))"
  "Update E mg obs = and_then (pure (wrap errCreateDevice (getGvkUpate E mg obs Action_UPDATE)))
     (\<lambda>ups. and_then (pure (deref (mg_TargetReference mg)))
        (\<lambda>ref. wrapping errUpdateDevice (call_Set E (entry_request E mg ref ups))))"
  "Delete E mg obs = and_then (pure (wrap errCreateDevice (getGvkUpate E mg obs Action_DELETE)))
     (\<lambda>ups. and_then (pure (deref (mg_TargetReference mg)))
        (\<lambda>ref. wrapping errDeleteDevice (call_Set E (entry_request E mg ref ups))))"
  by (simp_all add: Create_def Update_def Delete_def entry_request_def no_request_def
      empty_path_def Let_def)

interpretation create: entry_writer "\<lambda>mg obs. getGvkUpate E mg obs Action_CREATE" "send_entry E"
    errCreateDevice "Create E" for E
  by unfold_locales (simp only: writes_eq write_eq)

interpretation update: entry_writer "\<lambda>mg obs. getGvkUpate E mg obs Action_UPDATE" "send_entry E"
    errUpdateDevice "Update E" for E
  by unfold_locales (simp only: writes_eq write_eq)

interpretation delete: entry_writer "\<lambda>mg obs. getGvkUpate E mg obs Action_DELETE" "send_entry E"
    errDeleteDevice "Delete E" for E
  by unfold_locales (simp only: writes_eq write_eq)

text \<open>Each write with its action and the message of a refused request.\<close>

definition writes ::
  "('s, 'r, 'w, 'e, 'z) client_env_scheme \<Rightarrow>
     ((managed \<Rightarrow> external_observation \<Rightarrow> ('w, unit, 'e) action) \<times> resource_action \<times> string) list" where
  "writes E = [(Create E, Action_CREATE, errCreateDevice), (Update E, Action_UPDATE, errUpdateDevice),
     (Delete E, Action_DELETE, errDeleteDevice)]"

lemma writes_entry_writer:
  "(put, action, msg) \<in> set (writes E) \<Longrightarrow>
     entry_writer (\<lambda>mg obs. getGvkUpate E mg obs action) (send_entry E) msg put"
  by (auto simp: writes_def
      intro: create.entry_writer_axioms update.entry_writer_axioms delete.entry_writer_axioms)

text \<open>
  C2. A write that succeeds has made exactly one request of the worker: to replace the resource's own
  entry in the system tree of the resource's target, and nothing else, by an emitted entry with the
  action of the write, the status pending and the compacted spec; and whenever the entry can be built
  and the worker accepts that request, the write succeeds.
\<close>

theorem write_succeeds_iff:
  assumes "(put, action, msg) \<in> set (writes E)"
  shows "put mg obs w = (Ok (), w') \<longleftrightarrow>
    (\<exists>cr ref spec g js. mg = ManagedSrl cr \<and> GetTargetReference cr = Some ref \<and>
       getSpec E mg = Ok spec \<and> EmitGvk E g = Inr js \<and> gvk_Action g = action \<and>
       gvk_Status g = Status_PENDING \<and> gvk_Spec g = Some spec \<and>
       getGvkUpate E mg obs action =
         Ok [Some \<lparr>u_Path = Some (gvk_path (GetGvkName E mg)), u_Val = Some (JsonVal js)\<rparr>] \<and>
       client_Set E w \<lparr>sr_Prefix = Some \<lparr>p_Origin = origin_System E, p_Elem = [],
           p_Target = GetNamespacedName E (cr_Namespace cr) (ref_Name ref)\<rparr>, sr_Delete = [],
         sr_Replace = [Some \<lparr>u_Path = Some (gvk_path (GetGvkName E mg)), u_Val = Some (JsonVal js)\<rparr>],
         sr_Update = []\<rparr> = (None, w'))"
  (is "_ \<longleftrightarrow> ?sent")
proof -
  have "put mg obs w = (Ok (), w') \<longleftrightarrow> (\<exists>u ref. getGvkUpate E mg obs action = Ok u \<and>
      mg_TargetReference mg = Some ref \<and> send_entry E mg ref u w = (None, w'))"
    by (rule entry_writer.success_iff [OF writes_entry_writer [OF assms]])
  also have "\<dots> \<longleftrightarrow> ?sent"
  proof
    assume "\<exists>u ref. getGvkUpate E mg obs action = Ok u \<and>
      mg_TargetReference mg = Some ref \<and> send_entry E mg ref u w = (None, w')"
    then obtain u ref where u: "getGvkUpate E mg obs action = Ok u"
      and ref: "mg_TargetReference mg = Some ref" "send_entry E mg ref u w = (None, w')" by blast
    from u show ?sent
    proof (cases rule: getGvkUpate_run)
      case (1 cr spec m g js)
      with u ref show ?thesis
        by (intro exI [of _ cr] exI [of _ ref] exI [of _ spec] exI [of _ g] exI [of _ js])
           (simp add: send_entry_def entry_request_def)
    qed
  qed (auto simp: send_entry_def entry_request_def)
  finally show ?thesis .
qed

theorem write_succeeds_iff_witness:
  "\<exists>w' g js. Delete demo_env (demo_with ''{}'') \<lparr>ob_Updates = None, ob_Deletes = None\<rparr> demo_world =
     (Ok (), w') \<and> EmitGvk demo_env g = Inr js \<and> gvk_Action g = Action_DELETE"
proof -
  let ?obs = "\<lparr>ob_Updates = None, ob_Deletes = None\<rparr>"
  have entry: "getGvkUpate demo_env (demo_with ''{}'') ?obs Action_DELETE =
      Ok [Some \<lparr>u_Path = Some (gvk_path ''gvk''), u_Val = Some (JsonVal ''{}'')\<rparr>]"
    by (rule demo_entry_update)
  then obtain w' where run: "Delete demo_env (demo_with ''{}'') ?obs demo_world = (Ok (), w')"
    by (auto simp: delete.success_iff send_entry_def demo_set_def demo_world_def)
  have "(Delete demo_env, Action_DELETE, errDeleteDevice) \<in> set (writes demo_env)"
    by (simp add: writes_def)
  from write_succeeds_iff [OF this, THEN iffD1, OF run] run show ?thesis by blast
qed

text \<open>
  C35. When the entry cannot be built the worker is not contacted, and all three writes say that the
  device could not be created, also an update and a deletion; a request the worker refuses is
  reported under the name of the write that made it.
\<close>

theorem write_failures:
  assumes "(put, action, msg) \<in> set (writes E)"
  shows "(getGvkUpate E mg obs action = Err e \<longrightarrow>
       put mg obs w = (Err (ErrWrap e ''cannot create Device''), w)) \<and>
     (getGvkUpate E mg obs action = Ok ups \<and> mg_TargetReference mg = Some ref \<and>
        client_Set E w (entry_request E mg ref ups) = (Some e, w') \<longrightarrow>
       put mg obs w = (Err (ErrWrap e msg), w'))"
  using entry_writer.unbuilt [OF writes_entry_writer [OF assms], of mg obs e w]
    entry_writer.refused [OF writes_entry_writer [OF assms], of mg obs ups ref w e w']
  by (simp add: errCreateDevice_def send_entry_def)

text \<open>Deleting a resource whose spec is not JSON.\<close>

theorem write_failures_witness:
  "Delete demo_env (demo_with ''{'') \<lparr>ob_Updates = None, ob_Deletes = None\<rparr> demo_world =
     (Err (ErrWrap (ErrWrap (marshaler_error (ErrNew ''invalid JSON'')) errJSONMarshal)
        ''cannot create Device''), demo_world)"
proof -
  have "getSpec demo_env (demo_with ''{'') =
      Err (ErrWrap (marshaler_error (ErrNew ''invalid JSON'')) errJSONMarshal)"
    by (simp add: getSpec_def marshal_properties_def demo_with_def) code_simp
  then have "getGvkUpate demo_env (demo_with ''{'') \<lparr>ob_Updates = None, ob_Deletes = None\<rparr> Action_DELETE =
      Err (ErrWrap (marshaler_error (ErrNew ''invalid JSON'')) errJSONMarshal)"
    by (simp add: getGvkUpate_def)
  moreover have "(Delete demo_env, Action_DELETE, errDeleteDevice) \<in> set (writes demo_env)"
    by (simp add: writes_def)
  ultimately show ?thesis by (rule write_failures [THEN conjunct1, THEN mp, rotated])
qed

section \<open>The contract of a read\<close>

text \<open>
  What both reads make of the answer of the worker: nothing yet (\<open>None\<close>), or the value of the first
  update of the first notification, which is nil when that notification has no update.
\<close>

definition first_value ::
  "('s, 'r, 'w, 'e, 'z) client_env_scheme \<Rightarrow> get_response option \<times> 'e error option \<Rightarrow>
     (goval option, 'e) result" where
  "first_value E answer =
     (if is_unavailable E (snd answer) then Ok None
      else case GetNotification (fst answer) of
        [] \<Rightarrow> Ok None
      | n # _ \<Rightarrow> (case GetUpdate n of
          [] \<Rightarrow> Ok (Some GNil)
        | None # _ \<Rightarrow> Panic NilDereference
        | Some u # _ \<Rightarrow> (case GetValue E (u_Val u) of
            Inl e \<Rightarrow> Err (ErrWrap e errJSONMarshal)
          | Inr v \<Rightarrow> Ok (if v = GNil then None else Some v))))"

text \<open>One \<open>Get\<close>, whose answer is decoded; the world is left as the \<open>Get\<close> left it.\<close>

locale gnmi_reader =
  fixes request :: "managed \<Rightarrow> reference \<Rightarrow> get_request"
    and get :: "'w \<Rightarrow> get_request \<Rightarrow> 'b \<times> 'w"
    and first :: "'b \<Rightarrow> (goval option, 'e) result"
    and decode :: "goval \<Rightarrow> ('a, 'e) result"
    and read :: "managed \<Rightarrow> ('w, 'a option, 'e) action"
  assumes outcome: "read mg w = (case mg_TargetReference mg of
      None \<Rightarrow> (Panic NilDereference, w)
    | Some ref \<Rightarrow> (case get w (request mg ref) of (answer, w') \<Rightarrow>
        (try_then (first answer) (\<lambda>found. case found of
            None \<Rightarrow> Ok None | Some v \<Rightarrow> try_then (decode v) (\<lambda>a. Ok (Some a))), w')))"
begin

lemma nothing_yet:
  "mg_TargetReference mg = Some ref \<Longrightarrow> get w (request mg ref) = (answer, w') \<Longrightarrow>
     first answer = Ok None \<Longrightarrow> read mg w = (Ok None, w')"
  by (simp add: outcome)

lemma decoded:
  "mg_TargetReference mg = Some ref \<Longrightarrow> get w (request mg ref) = (answer, w') \<Longrightarrow>
     first answer = Ok (Some v) \<Longrightarrow> read mg w = (try_then (decode v) (\<lambda>a. Ok (Some a)), w')"
  by (simp add: outcome)

lemma found:
  "read mg w = (Ok (Some a), w') \<Longrightarrow> \<exists>ref answer v. mg_TargetReference mg = Some ref \<and>
     get w (request mg ref) = (answer, w') \<and> first answer = Ok (Some v) \<and> decode v = Ok a"
  by (auto simp: outcome result_simps split: option.splits prod.splits)

lemma fails:
  "read mg w = (Err e, w') \<Longrightarrow> \<exists>ref answer. mg_TargetReference mg = Some ref \<and>
     get w (request mg ref) = (answer, w') \<and>
     (first answer = Err e \<or> (\<exists>v. first answer = Ok (Some v) \<and> decode v = Err e))"
  by (auto simp: outcome result_simps split: option.splits prod.splits)

lemma panics:
  "mg_TargetReference mg = Some ref \<Longrightarrow> read mg w = (Panic p, w') \<Longrightarrow> \<exists>answer.
     get w (request mg ref) = (answer, w') \<and>
     (first answer = Panic p \<or> (\<exists>v. first answer = Ok (Some v) \<and> decode v = Panic p))"
  by (auto simp: outcome result_simps split: option.splits prod.splits)

end

definition read_request ::
  "('s, 'r, 'w, 'e, 'z) client_env_scheme \<Rightarrow> string \<Rightarrow> managed \<Rightarrow> reference \<Rightarrow> get_request" where
  "read_request E origin mg ref = \<lparr>gr_Prefix = Some \<lparr>p_Origin = origin, p_Elem = [],
       p_Target = GetNamespacedName E (mg_Namespace mg) (ref_Name ref)\<rparr>,
     gr_Path = [Some empty_path], gr_Encoding = JSON\<rparr>"

definition decode_system ::
  "('s, 'r, 'w, 'e, 'z) client_env_scheme \<Rightarrow> goval \<Rightarrow> (system_device, 'e) result" where
  "decode_system E v =
     try_then (json_marshal v) (\<lambda>data. try_then (ext (SystemConfigStruct E data True)) (\<lambda>s.
       (case as_system_device E s of None \<Rightarrow> Err (ErrNew ''wrong object nddp'') | Some d \<Rightarrow> Ok d)))"

lemma first_value_eq:
  "first_value E (resp, err) =
   (if is_unavailable E err then Ok None
    else if length (GetNotification resp) = 0 then Ok None
    else if length (GetNotification resp) \<noteq> 0 \<and> length (GetUpdate (GetNotification resp ! 0)) \<noteq> 0
      then try_then (deref (GetUpdate (GetNotification resp ! 0) ! 0)) (\<lambda>u.
           try_then (wrap errJSONMarshal (ext (GetValue E (u_Val u)))) (\<lambda>v.
             Ok (if v = GNil then None else Some v)))
      else Ok (Some GNil))"
  by (auto simp: first_value_def split: list.splits option.splits sum.splits)

interpretation system_reader: gnmi_reader "read_request E (origin_System E)" "client_Get E"
    "first_value E" "decode_system E" "GetSystemConfig E" for E
  by unfold_locales
     (auto simp: GetSystemConfig_def call_Get_def and_then_def first_value_eq decode_system_def
        read_request_def empty_path_def try_then_assoc Let_def
        split: option.splits prod.splits intro!: try_then_cong)

interpretation config_reader: gnmi_reader "read_request E (origin_Config E)" "client_Get E"
    "first_value E" json_marshal "GetRunningConfig E" for E
  by unfold_locales
     (auto simp: GetRunningConfig_def call_Get_def and_then_def first_value_eq
        read_request_def empty_path_def Let_def
        split: option.splits prod.splits)

text \<open>
  C38. A read never reports a failed request: when \<open>Get\<close> fails without a response, whatever the
  error, both reads answer nil without an error, which is how the code signals a worker that is not
  ready; only \<open>Unavailable\<close> was meant to be signalled so.
\<close>

theorem reads_swallow_errors:
  assumes "mg_TargetReference mg = Some ref"
    and "client_Get E w (read_request E (origin_System E) mg ref) = ((None, Some e1), w1)"
    and "client_Get E w (read_request E (origin_Config E) mg ref) = ((None, Some e2), w2)"
  shows "GetSystemConfig E mg w = (Ok None, w1) \<and> GetRunningConfig E mg w = (Ok None, w2)"
  using system_reader.nothing_yet [OF assms(1,2)] config_reader.nothing_yet [OF assms(1,3)]
  by (simp add: first_value_def)

theorem reads_swallow_errors_witness:
  "let E = demo_env\<lparr>status_FromError := \<lambda>e. (PermissionDenied, True)\<rparr>;
       w = demo_world\<lparr>dw_down := True\<rparr>
   in GetSystemConfig E (demo_with ''{}'') w = (Ok None, w) \<and> GetRunningConfig E (demo_with ''{}'') w = (Ok None, w)"
  unfolding Let_def
  by (rule reads_swallow_errors [where ref = "\<lparr>ref_Name = ''leaf1''\<rparr>" and ?e1.0 = "ErrExt ()" and ?e2.0 = "ErrExt ()"])
     (simp_all add: demo_get_def)

text \<open>
  C27. The running configuration is the value of the first update of the first notification, as JSON;
  later updates and notifications are ignored.  A nil value gives no bytes at all, but a notification
  without updates gives the four bytes \<open>null\<close>, as if the device had that configuration.
\<close>

theorem GetRunningConfig_outcome:
  assumes "mg_TargetReference mg = Some ref"
    and "client_Get E w (read_request E (origin_Config E) mg ref) =
      ((Some \<lparr>rsp_Notification = n # ns\<rparr>, err), w')"
    and "\<not> is_unavailable E err"
  shows "GetRunningConfig E mg w = (case GetUpdate n of
       [] \<Rightarrow> Ok (Some ''null'')
     | None # _ \<Rightarrow> Panic NilDereference
     | Some u # _ \<Rightarrow> (case GetValue E (u_Val u) of
         Inl e \<Rightarrow> Err (ErrWrap e errJSONMarshal)
       | Inr v \<Rightarrow> if v = GNil then Ok None else try_then (json_marshal v) (\<lambda>b. Ok (Some b))), w')"
  using assms
  by (simp add: config_reader.outcome first_value_def split: list.split option.split sum.split)

theorem GetRunningConfig_outcome_witness:
  "GetRunningConfig demo_env (demo_with ''{}'') demo_world =
     (Ok (Some (CHR 34 # ''conf'' @ [CHR 34])), demo_world)"
proof -
  have "json_marshal (GString ''conf'') = (Ok (CHR 34 # ''conf'' @ [CHR 34]) :: (bytes, unit) result)"
    by simp code_simp
  then show ?thesis
    by (subst GetRunningConfig_outcome [where ref = "\<lparr>ref_Name = ''leaf1''\<rparr>" and ns = "[]" and
          err = None and n = "Some \<lparr>n_Timestamp = 0,
            n_Update = [Some \<lparr>u_Path = None, u_Val = Some (StringVal ''conf'')\<rparr>], n_Delete = []\<rparr>"])
       (simp_all add: demo_get_def demo_world_def
          read_request_def is_unavailable_def)
qed



end
