(* ===== verification/Connect.thy ===== *)
theory Connect
  imports Device
begin

text \<open>
  \<open>connector\<close> of \<open>internal/controllers/srl/srlconfig_controller.go\<close>: how the reconciler gets an
  external client for a resource.  \<open>'k\<close> is the cluster as the Kubernetes client sees it and \<open>'c\<close> a
  gNMI client; the process environment is read through \<open>Getenv\<close>, which answers the empty string for
  an unset variable.
\<close>

section \<open>The code\<close>

text \<open>\<open>gnmitypes.TargetConfig\<close>: the fields that are set.  Durations are in nanoseconds.\<close>

record target_config =
  tc_Name :: string
  tc_Address :: string
  tc_Timeout :: int
  tc_SkipVerify :: "bool option"
  tc_TLSCA :: "string option"
  tc_TLSCert :: "string option"
  tc_TLSKey :: "string option"
  tc_Gzip :: "bool option"

record target_object =
  t_Name :: string
  t_Namespace :: string

record ('k, 'c, 'e) connector =
  usage_Track :: "'k \<Rightarrow> managed \<Rightarrow> 'e error option \<times> 'k"
  kube_Get :: "'k \<Rightarrow> string \<Rightarrow> string \<Rightarrow> 'e error + target_object"  \<comment> \<open>name and namespace\<close>
  GetEndpointAddress :: "'k \<Rightarrow> string \<Rightarrow> string \<Rightarrow> 'e error + string"
  GetTargetTag :: "string \<Rightarrow> string \<Rightarrow> string"
  Getenv :: "string \<Rightarrow> string"
  GnmiServerPort :: int
  CreateGNMIClient :: "target_config \<Rightarrow> 'e error + 'c"

record 'c external_device =
  xd_client :: 'c
  xd_targets :: "string list"

text \<open>\<open>fmt.Sprintf("%s.%s.%s.%s.%s:%d", ...)\<close>\<close>

definition worker_address :: "('k, 'c, 'e, 'z) connector_scheme \<Rightarrow> string" where
  "worker_address C =
     (let workerservice = Getenv C ''COMPOSITE_PROVIDER_NAME'' @ ''-'' @ ''worker-controller-grpc-svc''
      in workerservice @ ''.'' @ Getenv C ''POD_NAMESPACE'' @ ''.'' @ ''svc'' @ ''.'' @ ''cluster'' @ ''.'' @
         ''local'' @ '':'' @ dec_int (GnmiServerPort C))"

definition Connect ::
  "('k, 'c, 'e, 'z) connector_scheme \<Rightarrow> managed \<Rightarrow> ('k, 'c external_device, 'e) action" where
  "Connect C mg k =
     (case expect_SrlConfig mg of
        Err e \<Rightarrow> (Err e, k)
      | Panic p \<Rightarrow> (Panic p, k)
      | Ok cr \<Rightarrow>
          (let (err, k') = usage_Track C k mg
           in (try_then (wrap errTrackTCUsage (check_err err)) (\<lambda>_.
               try_then (deref (GetTargetReference cr)) (\<lambda>ref.
               try_then (wrap errGetTarget (ext (kube_Get C k' (ref_Name ref) (cr_Namespace cr)))) (\<lambda>t.
               try_then (if Getenv C ''SERVICE_DISCOVERY'' \<noteq> []
                 then wrap ''cannot get query from registrator''
                   (ext (GetEndpointAddress C k' (Getenv C ''SERVICE_NAME'')
                      (GetTargetTag C (t_Namespace t) (t_Name t))))
                 else Ok (worker_address C)) (\<lambda>address.
               let cfg = \<lparr>tc_Name = ref_Name ref, tc_Address = address, tc_Timeout = 10 * 10 ^ 9,
                     tc_SkipVerify = Some True, tc_TLSCA = Some [], tc_TLSCert = Some [],
                     tc_TLSKey = Some [], tc_Gzip = Some False\<rparr>
               in try_then (wrap errNewClient (ext (CreateGNMIClient C cfg))) (\<lambda>cl.
                  Ok \<lparr>xd_client = cl, xd_targets = [t_Name t]\<rparr>))))), k')))"

section \<open>Getting a client\<close>

text \<open>
  A client is handed out only for an \<open>SrlConfig\<close> whose use of its target was recorded first and
  whose target exists in the resource's own namespace; the client was made for the worker's service
  address, or for the address the registrator gives for that target when service discovery is on;
  and conversely these conditions give a client.
\<close>

lemma Connect_succeeds_iff:
  "Connect C mg k = (Ok x, k') \<longleftrightarrow>
     (\<exists>cr ref t address cl. mg = ManagedSrl cr \<and> usage_Track C k mg = (None, k') \<and>
        GetTargetReference cr = Some ref \<and>
        kube_Get C k' (ref_Name ref) (cr_Namespace cr) = Inr t \<and>
        (if Getenv C ''SERVICE_DISCOVERY'' = [] then address = worker_address C
         else GetEndpointAddress C k' (Getenv C ''SERVICE_NAME'')
           (GetTargetTag C (t_Namespace t) (t_Name t)) = Inr address) \<and>
        CreateGNMIClient C \<lparr>tc_Name = ref_Name ref, tc_Address = address, tc_Timeout = 10000000000,
          tc_SkipVerify = Some True, tc_TLSCA = Some [], tc_TLSCert = Some [], tc_TLSKey = Some [],
          tc_Gzip = Some False\<rparr> = Inr cl \<and>
        x = \<lparr>xd_client = cl, xd_targets = [t_Name t]\<rparr>)"
  by (cases mg; cases "Getenv C ''SERVICE_DISCOVERY'' = []")
    (auto simp: Connect_def result_simps Let_def split: prod.splits if_splits)

text \<open>A read of a resource with a target panics only on a nil update in the answer.\<close>

lemma first_value_panics:
  "first_value E (resp, err) = Panic p \<Longrightarrow> \<exists>rsp n ns us. resp = Some rsp \<and> rsp_Notification rsp = n # ns \<and>
     GetUpdate n = None # us \<and> p = NilDereference"
  by (cases resp) (auto simp: first_value_def split: if_splits list.splits option.splits sum.splits)

lemma decode_system_not_Panic: "decode_system E v \<noteq> Panic p"
  by (simp add: decode_system_def result_simps split: option.splits)

text \<open>
  C23. A client that \<open>Connect\<close> hands out is safe to use for its resource: the resource is an \<open>SrlConfig\<close>
  with a target whose use has been recorded and which exists in the resource's namespace; no write for
  the resource can then crash, whatever is observed and whatever the worker does, and a read can only
  crash on an answer whose first update is nil.
\<close>

theorem connected_client_safe:
  fixes E :: "('s, 'r, 'w, 'e, 'z) client_env_scheme"
  assumes "Connect C mg k = (Ok x, k')"
  shows "(\<exists>cr ref t. mg = ManagedSrl cr \<and> GetTargetReference cr = Some ref \<and> usage_Track C k mg = (None, k') \<and>
      kube_Get C k' (ref_Name ref) (cr_Namespace cr) = Inr t \<and> xd_targets x = [t_Name t]) \<and>
    (\<forall>put action msg obs w w' p. (put, action, msg) \<in> set (writes E) \<longrightarrow> put mg obs w \<noteq> (Panic p, w')) \<and>
    (\<forall>w p w'. GetSystemConfig E mg w = (Panic p, w') \<or> GetRunningConfig E mg w = (Panic p, w') \<longrightarrow>
       (\<exists>req rsp err n ns us. client_Get E w req = ((Some rsp, err), w') \<and> rsp_Notification rsp = n # ns \<and>
          GetUpdate n = None # us))"
proof -
  obtain cr ref t where cr: "mg = ManagedSrl cr" "GetTargetReference cr = Some ref" "usage_Track C k mg = (None, k')"
    "kube_Get C k' (ref_Name ref) (cr_Namespace cr) = Inr t" "xd_targets x = [t_Name t]"
    using assms by (auto simp: Connect_succeeds_iff)
  then have target: "mg_TargetReference mg = Some ref" by simp
  have "put mg obs w \<noteq> (Panic p, w')" if "(put, action, msg) \<in> set (writes E)" for put action msg obs w w' p
    using entry_writer.panics [OF writes_entry_writer [OF that]] getGvkUpate_total target by fastforce
  moreover have "\<exists>req rsp err n ns us. client_Get E w req = ((Some rsp, err), w') \<and> rsp_Notification rsp = n # ns \<and>
      GetUpdate n = None # us"
    if "GetSystemConfig E mg w = (Panic p, w') \<or> GetRunningConfig E mg w = (Panic p, w')" for w p w'
  proof -
    have "\<exists>req answer. client_Get E w req = (answer, w') \<and> first_value E answer = Panic p"
      using that
    proof
      assume "GetSystemConfig E mg w = (Panic p, w')"
      from system_reader.panics [OF target this] show ?thesis by (auto simp: decode_system_not_Panic)
    next
      assume "GetRunningConfig E mg w = (Panic p, w')"
      from config_reader.panics [OF target this] show ?thesis by auto
    qed
    then obtain req answer where get: "client_Get E w req = (answer, w')" "first_value E answer = Panic p" by blast
    then show ?thesis using first_value_panics [of E "fst answer" "snd answer" p] by (metis prod.collapse)
  qed
  ultimately show ?thesis using cr by blast
qed


text \<open>A cluster that counts tracked uses, with one target.\<close>

definition demo_connector :: "(nat, string, unit) connector" where
  "demo_connector = \<lparr>usage_Track = (\<lambda>k mg. (None, Suc k)),
     kube_Get = (\<lambda>k name ns. Inr \<lparr>t_Name = name, t_Namespace = ns\<rparr>),
     GetEndpointAddress = (\<lambda>k service tag. Inl (ErrExt ())), GetTargetTag = (\<lambda>ns name. ns @ name),
     Getenv = (\<lambda>v. []), GnmiServerPort = 9999, CreateGNMIClient = (\<lambda>cfg. Inr (tc_Address cfg))\<rparr>"


theorem connected_client_safe_witness:
  "\<exists>x. Connect demo_connector (demo_with ''{}'') 0 = (Ok x, 1) \<and> xd_targets x = [''leaf1''] \<and>
     Create demo_env (demo_with ''{}'') \<lparr>ob_Updates = None, ob_Deletes = None\<rparr> demo_world \<noteq> (Panic NilDereference, demo_world)"
proof -
  obtain x where x: "Connect demo_connector (demo_with ''{}'') 0 = (Ok x, 1)" "xd_targets x = [''leaf1'']"
    by (simp add: Connect_def demo_connector_def demo_with_def demo_config_def GetTargetReference_def)
  have member: "(Create demo_env, Action_CREATE, errCreateDevice) \<in> set (writes demo_env)" by (simp add: writes_def)
  show ?thesis using connected_client_safe [OF x(1), of demo_env] member x by blast
qed

end
