(* ===== verification/Client_Runs.thy ===== *)
theory Client_Runs
  imports Connect
begin

text \<open>
  Everything the external client can do to the worker over time: the calls of its methods, on any
  resources, in any order and with any outcome, as a step relation on the state of the worker.
\<close>

section \<open>Steps\<close>

inductive client_step ::
  "('s, 'r, 'w, 'e, 'z) client_env_scheme \<Rightarrow> 'w \<Rightarrow> 'w \<Rightarrow> bool"
  for E where
  step_Create: "Create E mg obs w = (r, w') \<Longrightarrow> client_step E w w'"
| step_Update: "Update E mg obs w = (r, w') \<Longrightarrow> client_step E w w'"
| step_Delete: "Delete E mg obs w = (r, w') \<Longrightarrow> client_step E w w'"
| step_GetSystemConfig: "GetSystemConfig E mg w = (d, w') \<Longrightarrow> client_step E w w'"
| step_GetRunningConfig: "GetRunningConfig E mg w = (b, w') \<Longrightarrow> client_step E w w'"
| step_Close: "Close E w = w' \<Longrightarrow> client_step E w w'"

inductive_cases client_stepE: "client_step E w w'"

inductive reaches ::
  "('s, 'r, 'w, 'e, 'z) client_env_scheme \<Rightarrow> 'w \<Rightarrow> 'w \<Rightarrow> bool"
  for E w where
  reaches_start: "reaches E w w"
| reaches_step: "reaches E w w' \<Longrightarrow> client_step E w' w'' \<Longrightarrow> reaches E w w''"

text \<open>The only request to change something: replace one entry of the cache in a system tree.\<close>

definition replaces_entry :: "('s, 'r, 'w, 'e, 'z) client_env_scheme \<Rightarrow> set_request \<Rightarrow> bool" where
  "replaces_entry E req \<longleftrightarrow> (\<exists>target name js. req = \<lparr>
     sr_Prefix = Some \<lparr>p_Origin = origin_System E, p_Elem = [], p_Target = target\<rparr>, sr_Delete = [],
     sr_Replace = [Some \<lparr>u_Path = Some (gvk_path name), u_Val = Some (JsonVal js)\<rparr>], sr_Update = []\<rparr>)"

text \<open>The only requests to read: the root of the system tree or the configuration of a target.\<close>

definition reads_tree :: "('s, 'r, 'w, 'e, 'z) client_env_scheme \<Rightarrow> get_request \<Rightarrow> bool" where
  "reads_tree E req \<longleftrightarrow> (\<exists>target origin. origin \<in> {origin_System E, origin_Config E} \<and> req = \<lparr>
     gr_Prefix = Some \<lparr>p_Origin = origin, p_Elem = [], p_Target = target\<rparr>,
     gr_Path = [Some empty_path], gr_Encoding = JSON\<rparr>)"

lemma entry_request_replaces:
  "getGvkUpate E mg obs action = Ok ups \<Longrightarrow> replaces_entry E (entry_request E mg ref ups)"
  by (erule getGvkUpate_run) (auto simp: replaces_entry_def entry_request_def)

lemma read_request_reads:
  "reads_tree E (read_request E (origin_System E) mg ref)"
  "reads_tree E (read_request E (origin_Config E) mg ref)"
  by (auto simp: reads_tree_def read_request_def)

text \<open>What a step does to the worker is one of these requests, a close, or nothing.\<close>

lemma write_effect:
  assumes "(put, action, msg) \<in> set (writes E)"
  shows "snd (put mg obs w) = w \<or>
    (\<exists>req. replaces_entry E req \<and> snd (put mg obs w) = snd (client_Set E w req))"
  using entry_writer.at_most_one_request [OF writes_entry_writer [OF assms], of mg obs w]
  unfolding send_entry_def by (blast intro: entry_request_replaces)

lemma read_effect:
  assumes "gnmi_reader (read_request E origin) (client_Get E) first decode read"
    and "origin \<in> {origin_System E, origin_Config E}"
  shows "snd (read mg w) = w \<or>
    (\<exists>req. reads_tree E req \<and> snd (read mg w) = snd (client_Get E w req))"
proof (cases "mg_TargetReference mg")
  case None
  then show ?thesis by (simp add: gnmi_reader.outcome [OF assms(1)])
next
  case (Some ref)
  have "reads_tree E (read_request E origin mg ref)"
    using assms(2) read_request_reads by auto
  moreover have "snd (read mg w) = snd (client_Get E w (read_request E origin mg ref))"
    by (simp add: gnmi_reader.outcome [OF assms(1)] Some split: prod.split)
  ultimately show ?thesis by blast
qed

lemma client_step_effect:
  assumes "client_step E w w'"
  shows "w' = w \<or> (\<exists>req. replaces_entry E req \<and> w' = snd (client_Set E w req)) \<or>
    (\<exists>req. reads_tree E req \<and> w' = snd (client_Get E w req)) \<or> w' = client_Close E w"
  using assms
proof (rule client_stepE)
  fix mg obs r
  assume "Create E mg obs w = (r, w')"
  then show ?thesis
    using write_effect [of "Create E" Action_CREATE errCreateDevice E mg obs w] by (auto simp: writes_def)
next
  fix mg obs r
  assume "Update E mg obs w = (r, w')"
  then show ?thesis
    using write_effect [of "Update E" Action_UPDATE errUpdateDevice E mg obs w] by (auto simp: writes_def)
next
  fix mg obs r
  assume "Delete E mg obs w = (r, w')"
  then show ?thesis
    using write_effect [of "Delete E" Action_DELETE errDeleteDevice E mg obs w] by (auto simp: writes_def)
next
  fix mg d
  assume "GetSystemConfig E mg w = (d, w')"
  then show ?thesis using read_effect [OF system_reader.gnmi_reader_axioms, of E mg w] by auto
next
  fix mg b
  assume "GetRunningConfig E mg w = (b, w')"
  then show ?thesis using read_effect [OF config_reader.gnmi_reader_axioms, of E mg w] by auto
qed (simp add: Close_def)

section \<open>Confinement\<close>

text \<open>
  C8. Whatever the reconciler does with its clients, over any resources and in any order, also when
  calls fail or crash, it only ever reads the two trees of a target and replaces single entries of
  the system cache: a property of the worker that survives these requests (and the closing of a
  connection) holds after every run in which it held at the start.
\<close>

theorem client_confined:
  assumes "reaches E w w'" and "holds w"
    and "\<And>w req. holds w \<Longrightarrow> replaces_entry E req \<Longrightarrow> holds (snd (client_Set E w req))"
    and "\<And>w req. holds w \<Longrightarrow> reads_tree E req \<Longrightarrow> holds (snd (client_Get E w req))"
    and "\<And>w. holds w \<Longrightarrow> holds (client_Close E w)"
  shows "holds w'"
  using assms(1)
proof (induction rule: reaches.induct)
  case reaches_start
  show ?case by (fact assms(2))
next
  case (reaches_step u u')
  from client_step_effect [OF reaches_step.hyps(2)] reaches_step.IH assms(3-5)
  show ?case by blast
qed

text \<open>With the worker of the example: its log has replacements of entries only.\<close>

theorem client_confined_witness:
  "\<exists>w. reaches demo_env demo_world w \<and> length (dw_log w) = 1 \<and>
     list_all (replaces_entry demo_env) (dw_log w)"
proof -
  let ?obs = "\<lparr>ob_Updates = None, ob_Deletes = None\<rparr>"
  obtain w where run: "Delete demo_env (demo_with ''{}'') ?obs demo_world = (Ok (), w)"
    and log: "length (dw_log w) = 1"
    by (auto simp: delete.success_iff demo_entry_update send_entry_def demo_set_def demo_world_def)
  have reach: "reaches demo_env demo_world w"
    by (rule reaches_step [OF reaches_start step_Delete [OF run]])
  have "list_all (replaces_entry demo_env) (dw_log w)"
    using reach
    by (rule client_confined) (auto simp: demo_world_def demo_set_def demo_get_def list_all_iff split: if_splits)
  with reach log show ?thesis by blast
qed

end
