(* ===== verification/Written.thy ===== *)
theory Written
  imports Device Validator_Diff Json_Value
begin

text \<open>
  What becomes of a difference on its way to the worker: the validator reports it, the managed
  reconciler hands the report to a write, and the write puts it into the entry of the resource, beside
  the spec.  The values and the spec of the entry are read back with the reference reader of
  \<open>Json_Value\<close>.
\<close>

section \<open>What \<open>getUpdates\<close> keeps\<close>

lemma getUpdates_values:
  assumes "getUpdates E us = Ok m"
  obtains val where "\<And>u. u \<in> set us \<Longrightarrow> update_value E u = Ok (val u)"
    "\<And>x. fmlookup m x = map_option (\<lambda>u. \<lparr>gu_Path = Some x, gu_Value = Some (val u)\<rparr>)
      (find (\<lambda>u. update_xpath E u = x) (rev us))"
proof -
  have "\<exists>v. update_value E u = Ok v" if "u \<in> set us" "for_each (put_update E) us s = Ok m" for u s
    using that by (induction us arbitrary: s) (auto simp: put_update_eq result_simps)
  then obtain val where val: "\<And>u. u \<in> set us \<Longrightarrow> update_value E u = Ok (val u)"
    using assms unfolding getUpdates_def by metis
  then have m: "m = fold (\<lambda>u. fmupd (update_xpath E u)
      \<lparr>gu_Path = Some (update_xpath E u), gu_Value = Some (val u)\<rparr>) us fmempty"
    using assms by (simp add: getUpdates_def put_updates_Ok)
  show thesis
    by (rule that [OF val]) (auto simp: m lookup_fold_fmupd dest: find_SomeD split: option.splits)
qed

lemma getUpdates_keeps:
  assumes "getUpdates E us = Ok m" "u \<in> set us"
    and "\<And>v. v \<in> set us \<Longrightarrow> update_xpath E v = update_xpath E u \<Longrightarrow> GetVal v = GetVal u"
  shows "\<exists>s. update_value E u = Ok s \<and>
    fmlookup m (update_xpath E u) = Some \<lparr>gu_Path = Some (update_xpath E u), gu_Value = Some s\<rparr>"
  using assms(1)
proof (rule getUpdates_values)
  fix val
  assume val: "\<And>u. u \<in> set us \<Longrightarrow> update_value E u = Ok (val u)"
    and m: "\<And>x. fmlookup m x = map_option (\<lambda>u. \<lparr>gu_Path = Some x, gu_Value = Some (val u)\<rparr>)
      (find (\<lambda>u. update_xpath E u = x) (rev us))"
  obtain v where v: "find (\<lambda>v. update_xpath E v = update_xpath E u) (rev us) = Some v"
    using assms(2) by (cases "find (\<lambda>v. update_xpath E v = update_xpath E u) (rev us)") (auto simp: find_None_iff)
  then have "v \<in> set us" "update_xpath E v = update_xpath E u" by (auto dest: find_SomeD)
  moreover from this assms(3) have "update_value E v = update_value E u" by (simp add: update_value_def)
  ultimately show ?thesis using val [OF assms(2)] val [of v] v by (simp add: m)
qed

text \<open>
  C17. A value that is written can be read back: for a path whose last update has a value that JSON
  can express (null, booleans, integers of 64 bits, signed or not, finite floats, strings of
  well-formed UTF-8 with all their control characters, quotes and line separators, and lists and maps
  of such values to any depth), the value string in the entry is JSON for that value: a strict reader
  takes all of it and finds the same numbers, strings, lists and, under the same keys, members.
\<close>

theorem written_value_reads_back:
  fixes E :: "('e, 'z) gvk_env_scheme"
  assumes "getUpdates E us = Ok m" and "find (\<lambda>u. update_xpath E u = x) (rev us) = Some u"
    and "GetValue E (GetVal u) = Inr v" and "json_ok v"
  shows "\<exists>gu s. fmlookup m x = Some gu \<and> gu_Path gu = Some x \<and> gu_Value gu = Some s \<and>
    read_json False s = Some (json_of v)"
  using assms(1)
proof (rule getUpdates_values)
  fix val
  assume val: "\<And>u. u \<in> set us \<Longrightarrow> update_value E u = Ok (val u)"
    and m: "\<And>x. fmlookup m x = map_option (\<lambda>u. \<lparr>gu_Path = Some x, gu_Value = Some (val u)\<rparr>)
      (find (\<lambda>u. update_xpath E u = x) (rev us))"
  obtain b where b: "json_marshal v = (Ok b :: (bytes, 'e) result)" "read_json False b = Some (json_of v)"
    using json_marshal_read [OF assms(4), where 'e = 'e] by blast
  have "u \<in> set us" using assms(2) by (auto dest: find_SomeD)
  from val [OF this] have "val u = b" using assms(3) b(1) by (simp add: update_value_def)
  with assms(2) b(2) show ?thesis by (simp add: m)
qed

text \<open>A list entry: an integer, a string with a quote, a tab and the line separator U+2028, a float and a list.\<close>

definition demo_list_entry :: goval where
  "demo_list_entry = GMap [(''mtu'', GInt 9232), (''flags'', GSlice [GBool True, GNil]),
     (''name'', GString [CHR 0x22, CHR 0x09, CHR 0xE2, CHR 0x80, CHR 0xA8, CHR ''<'']),
     (''gain'', GFloat (FFin True [2, 5] 0))]"

theorem written_value_reads_back_witness:
  "let E = demo_env\<lparr>GetValue := \<lambda>tv. Inr demo_list_entry\<rparr>;
       us = [Some \<lparr>u_Path = Some demo_leaf_path, u_Val = Some (JsonVal ''{ }'')\<rparr>]
   in \<exists>m gu t ms. getUpdates E us = Ok m \<and> fmlookup m ''/leaf'' = Some gu \<and> gu_Value gu = Some t \<and>
        read_json False t = Some (JObject ms) \<and> fmlookup ms ''gain'' = Some (JNum (- 1 / 4)) \<and>
        fmlookup ms ''flags'' = Some (JArray [JBool True, JNull])"
proof -
  let ?E = "demo_env\<lparr>GetValue := \<lambda>tv. Inr demo_list_entry\<rparr>"
  let ?u = "Some \<lparr>u_Path = Some demo_leaf_path, u_Val = Some (JsonVal ''{ }'')\<rparr>"
  have x: "update_xpath ?E ?u = ''/leaf''"
    by (simp add: update_xpath_def demo_xpath_def demo_leaf_path_def)
  have "valid_utf8 [CHR 0x22, CHR 0x09, CHR 0xE2, CHR 0x80, CHR 0xA8, CHR ''<'']" by code_simp
  then have ok: "json_ok demo_list_entry" by (simp add: demo_list_entry_def shortest_digits_def)
  then obtain m where m: "getUpdates ?E [?u] = Ok m"
    by (rule json_marshal_read [where 'e = unit]) (simp add: getUpdates_def put_update_eq update_value_def)
  have "\<exists>ms. json_of demo_list_entry = JObject ms \<and> fmlookup ms ''gain'' = Some (JNum (- 1 / 4)) \<and>
      fmlookup ms ''flags'' = Some (JArray [JBool True, JNull])"
    by (simp add: demo_list_entry_def fmlookup_of_list float_value_def power_int_def power2_eq_square)
  moreover from m have "\<exists>gu s. fmlookup m ''/leaf'' = Some gu \<and> gu_Path gu = Some ''/leaf'' \<and>
      gu_Value gu = Some s \<and> read_json False s = Some (json_of demo_list_entry)"
    by (rule written_value_reads_back [where u = ?u]) (simp_all add: x ok)
  ultimately show ?thesis using m unfolding Let_def by metis
qed

text \<open>
  In the other direction, the running configuration that is read is JSON for the value the worker
  answered.
\<close>

lemma running_config_is_json:
  fixes E :: "('s, 'r, 'w, 'e, 'z) client_env_scheme"
  assumes "GetRunningConfig E mg w = (Ok (Some b), w')"
  obtains ref ans v where "mg_TargetReference mg = Some ref"
    "client_Get E w (read_request E (origin_Config E) mg ref) = (ans, w')" "first_value E ans = Ok (Some v)"
    "json_ok v \<Longrightarrow> read_json False b = Some (json_of v)"
proof -
  obtain ref ans v where run: "mg_TargetReference mg = Some ref"
    "client_Get E w (read_request E (origin_Config E) mg ref) = (ans, w')" "first_value E ans = Ok (Some v)"
    "json_marshal v = (Ok b :: (bytes, 'e) result)"
    using config_reader.found [OF assms] by fastforce
  moreover have "read_json False b = Some (json_of v)" if "json_ok v"
    using json_marshal_read [OF that, where 'e = 'e] run(4) by auto
  ultimately show thesis using that by blast
qed

section \<open>The spec\<close>

text \<open>
  C7. The worker gets the document that was asked for: the entry which a successful write leaves at the
  worker carries the properties of the resource as the same JSON document, with the same numbers,
  strings, lists and members, however they were written; what is carried is the raw properties
  without white space between the tokens and with some characters of strings escaped.
\<close>

theorem spec_reaches_worker:
  fixes E :: "('s, 'r, 'w, 'e, 'z) client_env_scheme"
  assumes "(put, action, msg) \<in> set (writes E)" and "put (ManagedSrl cr) obs w = (Ok (), w')"
    and doc: "spec_document E cr doc"
  shows "\<exists>ref js g spec. client_Set E w (entry_request E (ManagedSrl cr) ref
       [Some \<lparr>u_Path = Some (gvk_path (GetGvkName E (ManagedSrl cr))), u_Val = Some (JsonVal js)\<rparr>]) = (None, w') \<and>
     EmitGvk E g = Inr js \<and> gvk_Action g = action \<and> gvk_Spec g = Some spec \<and>
     spec = squeeze False (raw_bytes cr) \<and> read_json False spec = Some doc \<and>
     read_json True (raw_bytes cr) = Some doc"
proof -
  let ?mg = "ManagedSrl cr"
  obtain ups ref where entry: "getGvkUpate E ?mg obs action = Ok ups"
    and sent: "client_Set E w (entry_request E ?mg ref ups) = (None, w')"
    using entry_writer.success_iff [OF writes_entry_writer [OF assms(1)]] assms(2)
    unfolding send_entry_def by blast
  from entry obtain spec g js where spec: "getSpec E ?mg = (Ok spec :: (string, 'e) result)" and emit: "EmitGvk E g = Inr js"
    and ups: "ups = [Some \<lparr>u_Path = Some (gvk_path (GetGvkName E ?mg)), u_Val = Some (JsonVal js)\<rparr>]"
    and g: "gvk_Action g = action" "gvk_Spec g = Some spec"
    by (rule getGvkUpate_run) auto
  have "spec = squeeze False (raw_bytes cr)"
    using doc spec json_compact_squeeze
    by (auto simp: spec_document_def raw_bytes_def getSpec_def marshal_properties_def result_simps split: option.splits)
  with getSpec_document [OF doc spec] raw_bytes_document [OF doc] sent emit ups g show ?thesis by blast
qed

text \<open>Properties with white space, and with a character that is escaped on the way.\<close>

definition demo_properties :: bytes where
  "demo_properties = ''{ '' @ dquote # ''a<'' @ dquote # '' : [ true , null ] }''"

definition demo_properties_document :: json where
  "demo_properties_document = JObject (fmap_of_list [(''a<'', JArray [JBool True, JNull])])"

lemma demo_properties_read: "read_json True demo_properties = Some demo_properties_document"
  by (simp add: demo_properties_def demo_properties_document_def read_json_def object_of_def trim_def is_space_def
      Let_def read_literal.simps dquote_def backslash_def)

theorem spec_reaches_worker_witness:
  "\<exists>w' js g spec. Update demo_env (demo_with demo_properties) \<lparr>ob_Updates = None, ob_Deletes = None\<rparr> demo_world = (Ok (), w') \<and>
     EmitGvk demo_env g = Inr js \<and> gvk_Spec g = Some spec \<and> spec \<noteq> demo_properties \<and>
     read_json False spec = Some demo_properties_document"
proof -
  let ?b = demo_properties and ?obs = "\<lparr>ob_Updates = None, ob_Deletes = None\<rparr>"
  obtain cr where mg: "demo_with ?b = ManagedSrl cr"
    and raw: "sp_Properties (cr_Spec cr) = \<lparr>re_Raw = Some ?b, re_Object = None\<rparr>"
    by (simp add: demo_with_def)
  have doc: "spec_document demo_env cr demo_properties_document"
    using raw demo_properties_read by (simp add: spec_document_def)
  have "json_compact ?b \<noteq> None" by code_simp
  then obtain s where "getSpec demo_env (demo_with ?b) = Ok s"
    by (auto simp: getSpec_def marshal_properties_def demo_with_def)
  then have "getGvkUpate demo_env (demo_with ?b) ?obs Action_UPDATE =
      Ok [Some \<lparr>u_Path = Some (gvk_path ''gvk''), u_Val = Some (JsonVal s)\<rparr>]"
    by (simp add: getGvkUpate_def)
  then obtain w' where run: "Update demo_env (demo_with ?b) ?obs demo_world = (Ok (), w')"
    by (auto simp: update.success_iff send_entry_def demo_set_def demo_world_def)
  have member: "(Update demo_env, Action_UPDATE, errUpdateDevice) \<in> set (writes demo_env)" by (simp add: writes_def)
  have "squeeze False ?b \<noteq> ?b" by code_simp
  moreover have "raw_bytes cr = ?b" using raw by (simp add: raw_bytes_def)
  ultimately show ?thesis
    using spec_reaches_worker [OF member run [unfolded mg] doc] run by metis
qed

section \<open>From a difference to the entry\<close>

text \<open>
  The leaves of a diff have XPaths of their own, key leaves of one list entry excepted: those are cut
  back to the path of the entry they create.
\<close>

definition leaves_apart :: "('e, 'z) gvk_env_scheme \<Rightarrow> notif_ptrs \<Rightarrow> heap \<Rightarrow> bool" where
  "leaves_apart E n h \<longleftrightarrow> (\<forall>u \<in> set (np_Update n). \<forall>v \<in> set (np_Update n).
     update_xpath E (map_option trim_update (read_update h u)) =
       update_xpath E (map_option trim_update (read_update h v)) \<longrightarrow>
     u = v \<or> (names_list_key (GetElem (GetPath (read_update h u))) \<and>
       names_list_key (GetElem (GetPath (read_update h v)))))"

lemma trim_update_value:
  "names_list_key (GetElem (GetPath u)) \<Longrightarrow> u \<noteq> None \<Longrightarrow>
     GetVal (map_option trim_update u) = Some (JsonVal ''{}'')"
  by (cases u) (auto simp: trim_update_def)

lemma cleaned_updates_agree:
  assumes "separate n h" "leaves_apart E n h" "x \<in> set (cleaned_updates n h)" "y \<in> set (cleaned_updates n h)"
    and "update_xpath E y = update_xpath E x"
  shows "GetVal y = GetVal x"
proof -
  obtain u v where u: "u \<in> set (np_Update n)" "x = map_option trim_update (read_update h u)"
    and v: "v \<in> set (np_Update n)" "y = map_option trim_update (read_update h v)"
    using assms(3,4) by (auto simp: cleaned_updates_def)
  have "read_update h u \<noteq> None" "read_update h v \<noteq> None"
    using assms(1) u(1) v(1) by (auto simp: separate_def read_update_def)
  moreover have "u = v \<or> (names_list_key (GetElem (GetPath (read_update h u))) \<and>
      names_list_key (GetElem (GetPath (read_update h v))))"
    using assms(2,5) u v unfolding leaves_apart_def by metis
  ultimately show ?thesis using u v trim_update_value by metis
qed

text \<open>
  C6. No difference is lost between the validator and the worker: when an observation of
  \<open>GetCrActualDiff\<close> is handed to a write that succeeds, the entry the worker has accepted carries the
  XPath of every reported delete, in order, and for every reported update its own value under its own
  XPath, although updates go through a map in which one could replace another.
\<close>

theorem differences_reach_worker:
  fixes E :: "('s, 'r, 'w, 'e, 'z) client_env_scheme"
  assumes "GetCrActualDiff E mg running = Ok d"
    and fresh: "\<And>a b n h. Diff E a b = Inr (n, h) \<Longrightarrow> separate n h \<and> leaves_apart E n h"
    and "(put, action, msg) \<in> set (writes E)"
    and "put mg \<lparr>ob_Updates = Some (ad_Updates d), ob_Deletes = Some (ad_Deletes d)\<rparr> w = (Ok (), w')"
  shows "\<exists>ref js g. client_Set E w (entry_request E mg ref
       [Some \<lparr>u_Path = Some (gvk_path (GetGvkName E mg)), u_Val = Some (JsonVal js)\<rparr>]) = (None, w') \<and>
     EmitGvk E g = Inr js \<and> gvk_Action g = action \<and>
     gvk_Delete g = map (\<lambda>p. GnmiPath2XPath E p True) (ad_Deletes d) \<and>
     (\<forall>u \<in> set (ad_Updates d). \<exists>s. update_value E u = Ok s \<and>
        fmlookup (gvk_Update g) (update_xpath E u) =
          Some \<lparr>gu_Path = Some (update_xpath E u), gu_Value = Some s\<rparr>)"
proof -
  let ?obs = "\<lparr>ob_Updates = Some (ad_Updates d), ob_Deletes = Some (ad_Deletes d)\<rparr>"
  obtain ups ref where entry: "getGvkUpate E mg ?obs action = Ok ups"
    and sent: "client_Set E w (entry_request E mg ref ups) = (None, w')"
    using entry_writer.success_iff [OF writes_entry_writer [OF assms(3)]] assms(4)
    unfolding send_entry_def by blast
  obtain m g js where m: "getUpdates E (ad_Updates d) = (Ok m :: (_, 'e) result)" and emit: "EmitGvk E g = Inr js"
    and ups: "ups = [Some \<lparr>u_Path = Some (gvk_path (GetGvkName E mg)), u_Val = Some (JsonVal js)\<rparr>]"
    and g: "gvk_Action g = action" "gvk_Delete g = getPaths E (ad_Deletes d)" "gvk_Update g = m"
    using entry by (rule getGvkUpate_run) (simp add: observed_updates_def observed_deletes_def)
  from assms(1) have "GetVal y = GetVal x"
    if "x \<in> set (ad_Updates d)" "y \<in> set (ad_Updates d)" "update_xpath E y = update_xpath E x" for x y
  proof (cases rule: GetCrActualDiff_run)
    case (1 cr src spec tmp new n h ds us k)
    then have "ad_Updates d = cleaned_updates n h"
      using validateNotification_cleaned [OF _ 1(8)] fresh [OF 1(7)] by simp
    with that fresh [OF 1(7)] show ?thesis using cleaned_updates_agree by metis
  qed
  then have "\<exists>s. update_value E u = Ok s \<and> fmlookup (gvk_Update g) (update_xpath E u) =
      Some \<lparr>gu_Path = Some (update_xpath E u), gu_Value = Some s\<rparr>" if "u \<in> set (ad_Updates d)" for u
    using getUpdates_keeps [OF m that] that g(3) by blast
  then show ?thesis
    using sent ups emit g(1,2)
    by (intro exI [of _ ref] exI [of _ js] exI [of _ g]) (simp add: getPaths_eq)
qed

text \<open>A spec with white space, so that it differs from the empty configuration of the example.\<close>

theorem differences_reach_worker_witness:
  "\<exists>d w' js g. GetCrActualDiff demo_env (demo_with ''{ }'') ''{}'' = Ok d \<and>
     Update demo_env (demo_with ''{ }'') \<lparr>ob_Updates = Some (ad_Updates d), ob_Deletes = Some (ad_Deletes d)\<rparr>
       demo_world = (Ok (), w') \<and>
     EmitGvk demo_env g = Inr js \<and> gvk_Action g = Action_UPDATE \<and> fmlookup (gvk_Update g) ''/leaf'' \<noteq> None"
proof -
  have diff: "separate n h \<and> leaves_apart demo_env n h" if "Diff demo_env a b = Inr (n, h)" for a b n h
    using that by (cases a; cases b)
      (auto simp: separate_def leaves_apart_def demo_diff_heap_def split: if_splits option.splits)
  let ?n = "\<lparr>np_Update = [Some 0], np_Delete = []\<rparr>"
  let ?u = "Some \<lparr>u_Path = Some demo_leaf_path, u_Val = Some (StringVal ''{ }'')\<rparr>"
  have "separate ?n (demo_diff_heap ''{ }'')" by (simp add: separate_def demo_diff_heap_def)
  then obtain k where "validateNotification ?n (demo_diff_heap ''{ }'') =
      (Ok (([], [Some 0]), k) :: (_, unit) result)" "map (read_update k) [Some 0] = [?u]"
    by (rule validateNotification_reads)
       (auto simp: read_update_def read_path_def demo_diff_heap_def trim_update_def demo_leaf_path_def
         names_list_key_def)
  then obtain d where d: "GetCrActualDiff demo_env (demo_with ''{ }'') ''{}'' = Ok d"
    and report: "ad_Updates d = [?u]" "ad_Deletes d = []"
    by (simp add: GetCrActualDiff_def demo_parse_def)
  let ?obs = "\<lparr>ob_Updates = Some (ad_Updates d), ob_Deletes = Some (ad_Deletes d)\<rparr>"
  have "getSpec demo_env (demo_with ''{ }'') = Ok ''{}''"
    by (simp add: getSpec_def marshal_properties_def demo_with_def) code_simp
  then have "getGvkUpate demo_env (demo_with ''{ }'') ?obs Action_UPDATE =
      Ok [Some \<lparr>u_Path = Some (gvk_path ''gvk''), u_Val = Some (JsonVal ''{}'')\<rparr>]"
    by (simp add: getGvkUpate_def report getUpdates_def put_update_def Let_def)
  then obtain w' where run: "Update demo_env (demo_with ''{ }'') ?obs demo_world = (Ok (), w')"
    by (auto simp: update.success_iff send_entry_def demo_set_def demo_world_def)
  have member: "(Update demo_env, Action_UPDATE, errUpdateDevice) \<in> set (writes demo_env)"
    by (simp add: writes_def)
  have "update_xpath demo_env ?u = ''/leaf''"
    by (simp add: update_xpath_def demo_xpath_def demo_leaf_path_def)
  with differences_reach_worker [OF d diff member run] d run report show ?thesis by fastforce
qed

end
