(* ===== verification/Deep_Copy.thy ===== *)
theory Deep_Copy
  imports Prelude
begin

text \<open>
  \<open>apis/srl/v1alpha1/zz_generated.deepcopy.go\<close>: the copies that controller-runtime makes of what is
  in its caches.  The structs have embedded structs of other packages (\<open>ResourceSpec\<close>,
  \<open>RawExtension\<close>, \<open>ResourceStatus\<close>, \<open>ObjectMeta\<close>, \<open>ListMeta\<close>), whose own \<open>DeepCopyInto\<close> are parameters,
  so the model has a store: a struct of another package is a value of type \<open>'x\<close> that may refer to
  cells of the store, and these cells hold data of type \<open>'b\<close>.
\<close>

section \<open>The store\<close>

record 'x dc_spec =
  dc_ResourceSpec :: 'x
  dc_Properties :: 'x

record 'x dc_status =
  dc_ResourceStatus :: 'x

record 'x dc_config =
  dc_TypeMeta :: "string \<times> string"
  dc_ObjectMeta :: 'x
  dc_Spec :: "'x dc_spec"
  dc_Status :: "'x dc_status"

text \<open>\<open>Items\<close> is a slice: nil or the address of its backing array.\<close>

record 'x dc_list =
  dl_TypeMeta :: "string \<times> string"
  dl_ListMeta :: 'x
  dl_Items :: "nat option"

datatype ('x, 'b) cell =
    Data 'b
  | Spec "'x dc_spec"
  | Status "'x dc_status"
  | Config "'x dc_config"
  | ConfigList "'x dc_list"
  | Array "'x dc_config list"

text \<open>Addresses below \<open>m_next\<close> are in use.\<close>

record ('x, 'b) store =
  m_cell :: "nat \<Rightarrow> ('x, 'b) cell"
  m_next :: nat

definition alloc :: "('x, 'b) cell \<Rightarrow> ('x, 'b) store \<Rightarrow> nat \<times> ('x, 'b) store" where
  "alloc c m = (m_next m, m\<lparr>m_cell := (m_cell m)(m_next m := c), m_next := Suc (m_next m)\<rparr>)"

definition assign :: "nat \<Rightarrow> ('x, 'b) cell \<Rightarrow> ('x, 'b) store \<Rightarrow> ('x, 'b) store" where
  "assign a c m = m\<lparr>m_cell := (m_cell m)(a := c)\<rparr>"

text \<open>\<open>in.DeepCopyInto(&out)\<close> of another package, from the value of \<open>*in\<close> to the value left in \<open>out\<close>.\<close>

type_synonym ('x, 'b) copier = "'x \<Rightarrow> ('x, 'b) store \<Rightarrow> 'x \<times> ('x, 'b) store"

record ('x, 'b) copiers =
  ResourceSpec_copy :: "('x, 'b) copier"
  RawExtension_copy :: "('x, 'b) copier"
  ResourceStatus_copy :: "('x, 'b) copier"
  ObjectMeta_copy :: "('x, 'b) copier"
  ListMeta_copy :: "('x, 'b) copier"
  zero_struct :: 'x   \<comment> \<open>what \<open>new\<close> and \<open>make\<close> put in an embedded struct\<close>

section \<open>The code\<close>

definition ConfigSpec_into ::
  "('x, 'b) copiers \<Rightarrow> 'x dc_spec \<Rightarrow> ('x, 'b) store \<Rightarrow> 'x dc_spec \<times> ('x, 'b) store" where
  "ConfigSpec_into D in' m =
     (let out = in';
          (rs, m1) = ResourceSpec_copy D (dc_ResourceSpec in') m;
          out = out\<lparr>dc_ResourceSpec := rs\<rparr>;
          (re, m2) = RawExtension_copy D (dc_Properties in') m1;
          out = out\<lparr>dc_Properties := re\<rparr>
      in (out, m2))"

definition ConfigStatus_into ::
  "('x, 'b) copiers \<Rightarrow> 'x dc_status \<Rightarrow> ('x, 'b) store \<Rightarrow> 'x dc_status \<times> ('x, 'b) store" where
  "ConfigStatus_into D in' m =
     (let out = in';
          (rs, m1) = ResourceStatus_copy D (dc_ResourceStatus in') m;
          out = out\<lparr>dc_ResourceStatus := rs\<rparr>
      in (out, m1))"

definition SrlConfig_into ::
  "('x, 'b) copiers \<Rightarrow> 'x dc_config \<Rightarrow> ('x, 'b) store \<Rightarrow> 'x dc_config \<times> ('x, 'b) store" where
  "SrlConfig_into D in' m =
     (let out = in';
          out = out\<lparr>dc_TypeMeta := dc_TypeMeta in'\<rparr>;
          (om, m1) = ObjectMeta_copy D (dc_ObjectMeta in') m;
          out = out\<lparr>dc_ObjectMeta := om\<rparr>;
          (sp, m2) = ConfigSpec_into D (dc_Spec in') m1;
          out = out\<lparr>dc_Spec := sp\<rparr>;
          (st, m3) = ConfigStatus_into D (dc_Status in') m2;
          out = out\<lparr>dc_Status := st\<rparr>
      in (out, m3))"

text \<open>The elements of the array at an address.\<close>

definition array_at :: "('x, 'b) store \<Rightarrow> nat \<Rightarrow> 'x dc_config list" where
  "array_at m a = (case m_cell m a of Array xs \<Rightarrow> xs | _ \<Rightarrow> [])"

definition zero_config :: "('x, 'b) copiers \<Rightarrow> 'x dc_config" where
  "zero_config D = \<lparr>dc_TypeMeta = ([], []), dc_ObjectMeta = zero_struct D,
     dc_Spec = \<lparr>dc_ResourceSpec = zero_struct D, dc_Properties = zero_struct D\<rparr>,
     dc_Status = \<lparr>dc_ResourceStatus = zero_struct D\<rparr>\<rparr>"

text \<open>\<open>(*in)[i].DeepCopyInto(&(*out)[i])\<close>\<close>

definition copy_item ::
  "('x, 'b) copiers \<Rightarrow> nat \<Rightarrow> nat \<Rightarrow> nat \<Rightarrow> ('x, 'b) store \<Rightarrow> ('x, 'b) store" where
  "copy_item D src dst i m =
     (let (v, m') = SrlConfig_into D (array_at m src ! i) m
      in assign dst (Array ((array_at m' dst)[i := v])) m')"

definition SrlConfigList_into ::
  "('x, 'b) copiers \<Rightarrow> 'x dc_list \<Rightarrow> ('x, 'b) store \<Rightarrow> 'x dc_list \<times> ('x, 'b) store" where
  "SrlConfigList_into D in' m =
     (let out = in';
          out = out\<lparr>dl_TypeMeta := dl_TypeMeta in'\<rparr>;
          (lm, m1) = ListMeta_copy D (dl_ListMeta in') m;
          out = out\<lparr>dl_ListMeta := lm\<rparr>
      in (case dl_Items in' of
            None \<Rightarrow> (out, m1)
          | Some src \<Rightarrow>
              (let n = length (array_at m1 src);
                   (dst, m2) = alloc (Array (replicate n (zero_config D))) m1
               in (out\<lparr>dl_Items := Some dst\<rparr>, fold (copy_item D src dst) [0..<n] m2))))"

text \<open>Reading through a pointer; pointers are typed, so the cell is of the right kind.\<close>

definition spec_at :: "('x, 'b) copiers \<Rightarrow> ('x, 'b) store \<Rightarrow> nat \<Rightarrow> 'x dc_spec" where
  "spec_at D m a = (case m_cell m a of Spec v \<Rightarrow> v | _ \<Rightarrow> dc_Spec (zero_config D))"

definition status_at :: "('x, 'b) copiers \<Rightarrow> ('x, 'b) store \<Rightarrow> nat \<Rightarrow> 'x dc_status" where
  "status_at D m a = (case m_cell m a of Status v \<Rightarrow> v | _ \<Rightarrow> dc_Status (zero_config D))"

definition config_at :: "('x, 'b) copiers \<Rightarrow> ('x, 'b) store \<Rightarrow> nat \<Rightarrow> 'x dc_config" where
  "config_at D m a = (case m_cell m a of Config v \<Rightarrow> v | _ \<Rightarrow> zero_config D)"

definition zero_list :: "('x, 'b) copiers \<Rightarrow> 'x dc_list" where
  "zero_list D = \<lparr>dl_TypeMeta = ([], []), dl_ListMeta = zero_struct D, dl_Items = None\<rparr>"

definition list_at :: "('x, 'b) copiers \<Rightarrow> ('x, 'b) store \<Rightarrow> nat \<Rightarrow> 'x dc_list" where
  "list_at D m a = (case m_cell m a of ConfigList v \<Rightarrow> v | _ \<Rightarrow> zero_list D)"

text \<open>\<open>out := new(T); in.DeepCopyInto(out); return out\<close>\<close>

definition new_copy ::
  "('y \<Rightarrow> ('x, 'b) cell) \<Rightarrow> 'y \<Rightarrow> ('y \<Rightarrow> ('x, 'b) store \<Rightarrow> 'y \<times> ('x, 'b) store) \<Rightarrow> 'y \<Rightarrow>
     ('x, 'b) store \<Rightarrow> nat \<times> ('x, 'b) store" where
  "new_copy cell zero into v m =
     (let (out, m1) = alloc (cell zero) m; (v', m2) = into v m1 in (out, assign out (cell v') m2))"

text \<open>The \<open>DeepCopy\<close> of the four types; \<open>None\<close> is the nil pointer.\<close>

definition ConfigSpec_DeepCopy ::
  "('x, 'b) copiers \<Rightarrow> nat option \<Rightarrow> ('x, 'b) store \<Rightarrow> nat option \<times> ('x, 'b) store" where
  "ConfigSpec_DeepCopy D in' m = (case in' of None \<Rightarrow> (None, m)
     | Some a \<Rightarrow> map_prod Some id
         (new_copy Spec (dc_Spec (zero_config D)) (ConfigSpec_into D) (spec_at D m a) m))"

definition ConfigStatus_DeepCopy ::
  "('x, 'b) copiers \<Rightarrow> nat option \<Rightarrow> ('x, 'b) store \<Rightarrow> nat option \<times> ('x, 'b) store" where
  "ConfigStatus_DeepCopy D in' m = (case in' of None \<Rightarrow> (None, m)
     | Some a \<Rightarrow> map_prod Some id
         (new_copy Status (dc_Status (zero_config D)) (ConfigStatus_into D) (status_at D m a) m))"

definition SrlConfig_DeepCopy ::
  "('x, 'b) copiers \<Rightarrow> nat option \<Rightarrow> ('x, 'b) store \<Rightarrow> nat option \<times> ('x, 'b) store" where
  "SrlConfig_DeepCopy D in' m = (case in' of None \<Rightarrow> (None, m)
     | Some a \<Rightarrow> map_prod Some id
         (new_copy Config (zero_config D) (SrlConfig_into D) (config_at D m a) m))"

definition SrlConfigList_DeepCopy ::
  "('x, 'b) copiers \<Rightarrow> nat option \<Rightarrow> ('x, 'b) store \<Rightarrow> nat option \<times> ('x, 'b) store" where
  "SrlConfigList_DeepCopy D in' m = (case in' of None \<Rightarrow> (None, m)
     | Some a \<Rightarrow> map_prod Some id
         (new_copy ConfigList (zero_list D) (SrlConfigList_into D) (list_at D m a) m))"

text \<open>
  \<open>DeepCopyObject\<close> returns an interface: a typed pointer or the nil interface, never a typed nil
  pointer.
\<close>

datatype runtime_copy = NilObject | SrlConfigObject nat | SrlConfigListObject nat

definition SrlConfig_DeepCopyObject ::
  "('x, 'b) copiers \<Rightarrow> nat option \<Rightarrow> ('x, 'b) store \<Rightarrow> runtime_copy \<times> ('x, 'b) store" where
  "SrlConfig_DeepCopyObject D in' m =
     (let (c, m') = SrlConfig_DeepCopy D in' m
      in (case c of Some a \<Rightarrow> SrlConfigObject a | None \<Rightarrow> NilObject, m'))"

definition SrlConfigList_DeepCopyObject ::
  "('x, 'b) copiers \<Rightarrow> nat option \<Rightarrow> ('x, 'b) store \<Rightarrow> runtime_copy \<times> ('x, 'b) store" where
  "SrlConfigList_DeepCopyObject D in' m =
     (let (c, m') = SrlConfigList_DeepCopy D in' m
      in (case c of Some a \<Rightarrow> SrlConfigListObject a | None \<Rightarrow> NilObject, m'))"

section \<open>What a deep copy is\<close>

text \<open>
  \<open>view m x\<close> is everything that can be read through \<open>x\<close> and \<open>refs m x\<close> the cells that this takes.  A
  copy reads the same, refers to new cells only, and leaves every old cell as it was.
\<close>

definition reads_locally ::
  "(('x, 'b) store \<Rightarrow> 'y \<Rightarrow> 'v) \<Rightarrow> (('x, 'b) store \<Rightarrow> 'y \<Rightarrow> nat set) \<Rightarrow> bool" where
  "reads_locally view refs \<longleftrightarrow> (\<forall>m m' y. (\<forall>a \<in> refs m y. m_cell m' a = m_cell m a) \<longrightarrow>
     view m' y = view m y \<and> refs m' y = refs m y)"

definition grows :: "('x, 'b) store \<Rightarrow> ('x, 'b) store \<Rightarrow> bool" where
  "grows m m' \<longleftrightarrow> m_next m \<le> m_next m' \<and> (\<forall>a < m_next m. m_cell m' a = m_cell m a)"

definition deep_copier ::
  "(('x, 'b) store \<Rightarrow> 'y \<Rightarrow> 'v) \<Rightarrow> (('x, 'b) store \<Rightarrow> 'y \<Rightarrow> nat set) \<Rightarrow>
     ('y \<Rightarrow> ('x, 'b) store \<Rightarrow> 'y \<times> ('x, 'b) store) \<Rightarrow> bool" where
  "deep_copier view refs into \<longleftrightarrow> reads_locally view refs \<and>
     (\<forall>m y y' m'. refs m y \<subseteq> {..<m_next m} \<and> into y m = (y', m') \<longrightarrow>
        view m' y' = view m y \<and> refs m' y' \<subseteq> {m_next m..<m_next m'} \<and> grows m m')"

text \<open>What is asked of the other packages: each of their functions is a deep copy.\<close>

definition package_copies ::
  "(('x, 'b) store \<Rightarrow> 'x \<Rightarrow> 'v) \<Rightarrow> (('x, 'b) store \<Rightarrow> 'x \<Rightarrow> nat set) \<Rightarrow> ('x, 'b) copiers \<Rightarrow> bool" where
  "package_copies view refs D \<longleftrightarrow> (\<forall>f \<in> {ResourceSpec_copy D, RawExtension_copy D,
     ResourceStatus_copy D, ObjectMeta_copy D, ListMeta_copy D}. deep_copier view refs f)"

lemma grows_refl [simp]: "grows m m"
  by (simp add: grows_def)

lemma grows_trans: "grows m m' \<Longrightarrow> grows m' m'' \<Longrightarrow> grows m m''"
  by (auto simp: grows_def)

lemma reads_locallyD:
  "reads_locally view refs \<Longrightarrow> (\<And>a. a \<in> refs m y \<Longrightarrow> m_cell m' a = m_cell m a) \<Longrightarrow>
     view m' y = view m y \<and> refs m' y = refs m y"
  unfolding reads_locally_def by blast

lemma reads_grows:
  "reads_locally view refs \<Longrightarrow> grows m m' \<Longrightarrow> refs m y \<subseteq> {..<m_next m} \<Longrightarrow>
     view m' y = view m y \<and> refs m' y = refs m y"
  by (rule reads_locallyD) (auto simp: grows_def)

lemma deep_copier_local: "deep_copier view refs f \<Longrightarrow> reads_locally view refs"
  by (simp add: deep_copier_def)

lemma deep_copierD:
  assumes "deep_copier view refs f" "refs m y \<subseteq> {..<m_next m}" "f y m = (y', m')"
  shows "view m' y' = view m y" "refs m' y' \<subseteq> {m_next m..<m_next m'}" "grows m m'"
  using assms unfolding deep_copier_def by blast+

section \<open>Copying part by part\<close>

lemma deep_copierI:
  assumes "reads_locally view refs"
    and "\<And>m y y' m'. refs m y \<subseteq> {..<m_next m} \<Longrightarrow> f y m = (y', m') \<Longrightarrow>
      view m' y' = view m y \<and> refs m' y' \<subseteq> {m_next m..<m_next m'} \<and> grows m m'"
  shows "deep_copier view refs f"
  using assms unfolding deep_copier_def by blast

definition pair_view ::
  "(('x, 'b) store \<Rightarrow> 'y \<Rightarrow> 'v) \<Rightarrow> (('x, 'b) store \<Rightarrow> 'z \<Rightarrow> 'u) \<Rightarrow> ('x, 'b) store \<Rightarrow> 'y \<times> 'z \<Rightarrow> 'v \<times> 'u" where
  "pair_view V W m p = (V m (fst p), W m (snd p))"

definition pair_refs ::
  "(('x, 'b) store \<Rightarrow> 'y \<Rightarrow> nat set) \<Rightarrow> (('x, 'b) store \<Rightarrow> 'z \<Rightarrow> nat set) \<Rightarrow> ('x, 'b) store \<Rightarrow> 'y \<times> 'z \<Rightarrow> nat set" where
  "pair_refs R S m p = R m (fst p) \<union> S m (snd p)"

definition pair_into ::
  "('y \<Rightarrow> ('x, 'b) store \<Rightarrow> 'y \<times> ('x, 'b) store) \<Rightarrow> ('z \<Rightarrow> ('x, 'b) store \<Rightarrow> 'z \<times> ('x, 'b) store) \<Rightarrow>
     'y \<times> 'z \<Rightarrow> ('x, 'b) store \<Rightarrow> ('y \<times> 'z) \<times> ('x, 'b) store" where
  "pair_into f g p m = (let (y, m1) = f (fst p) m; (z, m2) = g (snd p) m1 in ((y, z), m2))"

text \<open>Copying one part and then another is a deep copy of both.\<close>

lemma pair_deep_copier:
  assumes f: "deep_copier V R f" and g: "deep_copier W S g"
  shows "deep_copier (pair_view V W) (pair_refs R S) (pair_into f g)"
proof (rule deep_copierI)
  show "reads_locally (pair_view V W) (pair_refs R S)"
    using reads_locallyD [OF deep_copier_local [OF f]] reads_locallyD [OF deep_copier_local [OF g]]
    unfolding reads_locally_def pair_view_def pair_refs_def by (metis UnCI)
next
  fix m p p' m'
  assume below: "pair_refs R S m p \<subseteq> {..<m_next m}" and run: "pair_into f g p m = (p', m')"
  obtain y m1 where y: "f (fst p) m = (y, m1)" by (cases "f (fst p) m")
  obtain z m2 where z: "g (snd p) m1 = (z, m2)" by (cases "g (snd p) m1")
  from run y z have p': "p' = (y, z)" "m' = m2" by (auto simp: pair_into_def)
  note y = deep_copierD [OF f _ y]
  have R: "R m (fst p) \<subseteq> {..<m_next m}" and S: "S m (snd p) \<subseteq> {..<m_next m}"
    using below by (auto simp: pair_refs_def)
  note same = reads_grows [OF deep_copier_local [OF g] y(3) [OF R] S]
  have S1: "S m1 (snd p) \<subseteq> {..<m_next m1}"
    using same S y(3) [OF R] by (auto simp: grows_def)
  note z = deep_copierD [OF g S1 z]
  have "R m1 y \<subseteq> {..<m_next m1}" using y(2) [OF R] by auto
  note keep = reads_grows [OF deep_copier_local [OF f] z(3) this]
  have "pair_view V W m2 (y, z) = pair_view V W m p"
    using keep same y(1) [OF R] z(1) by (simp add: pair_view_def)
  moreover have "pair_refs R S m2 (y, z) \<subseteq> {m_next m..<m_next m2}"
    using keep y(2) [OF R] z(2,3) y(3) [OF R] by (fastforce simp: pair_refs_def grows_def)
  moreover have "grows m m2" using y(3) [OF R] z(3) by (rule grows_trans)
  ultimately show "pair_view V W m' p' = pair_view V W m p \<and>
      pair_refs R S m' p' \<subseteq> {m_next m..<m_next m'} \<and> grows m m'"
    by (simp add: p')
qed

text \<open>A value without references copies itself.\<close>

lemma value_deep_copier: "deep_copier (\<lambda>m y. y) (\<lambda>m y. {}) (\<lambda>y m. (y, m))"
  by (simp add: deep_copier_def reads_locally_def)

text \<open>Records instead of tuples: the same copy on another representation.\<close>

lemma deep_copier_iso:
  assumes "deep_copier V R f" and iso: "\<And>t. to (from t) = t"
    and into: "\<And>y m. into y m = map_prod from id (f (to y) m)"
  shows "deep_copier (\<lambda>m y. V m (to y)) (\<lambda>m y. R m (to y)) into"
proof (rule deep_copierI)
  show "reads_locally (\<lambda>m y. V m (to y)) (\<lambda>m y. R m (to y))"
    using deep_copier_local [OF assms(1)] unfolding reads_locally_def by blast
next
  fix m y y' m'
  assume below: "R m (to y) \<subseteq> {..<m_next m}" and run: "into y m = (y', m')"
  obtain t where t: "f (to y) m = (t, m')" "y' = from t"
    using run by (cases "f (to y) m") (auto simp: into)
  show "V m' (to y') = V m (to y) \<and> R m' (to y') \<subseteq> {m_next m..<m_next m'} \<and> grows m m'"
    using deep_copierD [OF assms(1) below t(1)] by (simp add: t(2) iso)
qed

section \<open>The structs of the package\<close>

definition spec_parts :: "'x dc_spec \<Rightarrow> 'x \<times> 'x" where
  "spec_parts v = (dc_ResourceSpec v, dc_Properties v)"

definition config_parts ::
  "'x dc_config \<Rightarrow> (string \<times> string) \<times> 'x \<times> 'x dc_spec \<times> 'x dc_status" where
  "config_parts v = (dc_TypeMeta v, dc_ObjectMeta v, dc_Spec v, dc_Status v)"

definition spec_view :: "(('x, 'b) store \<Rightarrow> 'x \<Rightarrow> 'v) \<Rightarrow> ('x, 'b) store \<Rightarrow> 'x dc_spec \<Rightarrow> 'v \<times> 'v" where
  "spec_view view m v = pair_view view view m (spec_parts v)"

definition spec_refs :: "(('x, 'b) store \<Rightarrow> 'x \<Rightarrow> nat set) \<Rightarrow> ('x, 'b) store \<Rightarrow> 'x dc_spec \<Rightarrow> nat set" where
  "spec_refs refs m v = pair_refs refs refs m (spec_parts v)"

definition status_view :: "(('x, 'b) store \<Rightarrow> 'x \<Rightarrow> 'v) \<Rightarrow> ('x, 'b) store \<Rightarrow> 'x dc_status \<Rightarrow> 'v" where
  "status_view view m v = view m (dc_ResourceStatus v)"

definition status_refs :: "(('x, 'b) store \<Rightarrow> 'x \<Rightarrow> nat set) \<Rightarrow> ('x, 'b) store \<Rightarrow> 'x dc_status \<Rightarrow> nat set" where
  "status_refs refs m v = refs m (dc_ResourceStatus v)"

definition config_view ::
  "(('x, 'b) store \<Rightarrow> 'x \<Rightarrow> 'v) \<Rightarrow> ('x, 'b) store \<Rightarrow> 'x dc_config \<Rightarrow> (string \<times> string) \<times> 'v \<times> ('v \<times> 'v) \<times> 'v" where
  "config_view view m v = pair_view (\<lambda>m y. y) (pair_view view (pair_view (spec_view view) (status_view view)))
     m (config_parts v)"

definition config_refs ::
  "(('x, 'b) store \<Rightarrow> 'x \<Rightarrow> nat set) \<Rightarrow> ('x, 'b) store \<Rightarrow> 'x dc_config \<Rightarrow> nat set" where
  "config_refs refs m v = pair_refs (\<lambda>m y. {}) (pair_refs refs (pair_refs (spec_refs refs) (status_refs refs)))
     m (config_parts v)"

lemma ConfigSpec_deep_copier:
  assumes "package_copies view refs D"
  shows "deep_copier (spec_view view) (spec_refs refs) (ConfigSpec_into D)"
  unfolding spec_view_def spec_refs_def
proof (rule deep_copier_iso)
  show "deep_copier (pair_view view view) (pair_refs refs refs)
      (pair_into (ResourceSpec_copy D) (RawExtension_copy D))"
    using assms by (intro pair_deep_copier) (simp_all add: package_copies_def)
  show "ConfigSpec_into D v m = map_prod (\<lambda>t. \<lparr>dc_ResourceSpec = fst t, dc_Properties = snd t\<rparr>) id
      (pair_into (ResourceSpec_copy D) (RawExtension_copy D) (spec_parts v) m)" for v m
    by (simp add: ConfigSpec_into_def pair_into_def spec_parts_def split: prod.split)
qed (simp add: spec_parts_def)

lemma ConfigStatus_deep_copier:
  assumes "package_copies view refs D"
  shows "deep_copier (status_view view) (status_refs refs) (ConfigStatus_into D)"
  unfolding status_view_def status_refs_def
proof (rule deep_copier_iso)
  show "deep_copier view refs (ResourceStatus_copy D)"
    using assms by (simp add: package_copies_def)
  show "ConfigStatus_into D v m = map_prod (\<lambda>t. \<lparr>dc_ResourceStatus = t\<rparr>) id
      (ResourceStatus_copy D (dc_ResourceStatus v) m)" for v m
    by (simp add: ConfigStatus_into_def split: prod.split)
qed simp

lemma SrlConfig_deep_copier:
  assumes "package_copies view refs D"
  shows "deep_copier (config_view view) (config_refs refs) (SrlConfig_into D)"
  unfolding config_view_def config_refs_def
proof (rule deep_copier_iso)
  show "deep_copier (pair_view (\<lambda>m y. y) (pair_view view (pair_view (spec_view view) (status_view view))))
      (pair_refs (\<lambda>m y. {}) (pair_refs refs (pair_refs (spec_refs refs) (status_refs refs))))
      (pair_into (\<lambda>y m. (y, m)) (pair_into (ObjectMeta_copy D) (pair_into (ConfigSpec_into D) (ConfigStatus_into D))))"
    using assms
    by (intro pair_deep_copier value_deep_copier ConfigSpec_deep_copier ConfigStatus_deep_copier)
       (simp_all add: package_copies_def)
  show "SrlConfig_into D v m = map_prod (\<lambda>(t, om, sp, st). \<lparr>dc_TypeMeta = t, dc_ObjectMeta = om,
        dc_Spec = sp, dc_Status = st\<rparr>) id
      (pair_into (\<lambda>y m. (y, m)) (pair_into (ObjectMeta_copy D) (pair_into (ConfigSpec_into D) (ConfigStatus_into D)))
        (config_parts v) m)" for v m
    by (simp add: SrlConfig_into_def pair_into_def config_parts_def split: prod.split)
qed (simp add: config_parts_def split: prod.split)

section \<open>The list\<close>

definition list_view ::
  "(('x, 'b) store \<Rightarrow> 'x \<Rightarrow> 'v) \<Rightarrow> ('x, 'b) store \<Rightarrow> 'x dc_list \<Rightarrow>
     (string \<times> string) \<times> 'v \<times> ((string \<times> string) \<times> 'v \<times> ('v \<times> 'v) \<times> 'v) list option" where
  "list_view view m v = (dl_TypeMeta v, view m (dl_ListMeta v),
     map_option (\<lambda>a. map (config_view view m) (array_at m a)) (dl_Items v))"

definition array_refs :: "(('x, 'b) store \<Rightarrow> 'x \<Rightarrow> nat set) \<Rightarrow> ('x, 'b) store \<Rightarrow> nat \<Rightarrow> nat set" where
  "array_refs refs m a = insert a (\<Union>v \<in> set (array_at m a). config_refs refs m v)"

definition list_refs ::
  "(('x, 'b) store \<Rightarrow> 'x \<Rightarrow> nat set) \<Rightarrow> ('x, 'b) store \<Rightarrow> 'x dc_list \<Rightarrow> nat set" where
  "list_refs refs m v = refs m (dl_ListMeta v) \<union>
     (case dl_Items v of None \<Rightarrow> {} | Some a \<Rightarrow> array_refs refs m a)"

lemma array_at_cong: "m_cell m' a = m_cell m a \<Longrightarrow> array_at m' a = array_at m a"
  by (simp add: array_at_def)

lemma alloc_iff:
  "alloc c m = (a, m') \<longleftrightarrow>
     a = m_next m \<and> m' = m\<lparr>m_cell := (m_cell m)(m_next m := c), m_next := Suc (m_next m)\<rparr>"
  by (auto simp: alloc_def)

lemma assign_simps [simp]:
  "m_next (assign a c m) = m_next m" "m_cell (assign a c m) = (m_cell m)(a := c)"
  by (simp_all add: assign_def)

lemma array_at_assign [simp]: "array_at (assign a (Array xs) m) a = xs"
  by (simp add: array_at_def)

text \<open>
  The state of the loop after \<open>i\<close> elements: old cells as they were, the first \<open>i\<close> places of the new
  array copies of the elements, made of new cells.
\<close>

definition copied_upto ::
  "(('x, 'b) store \<Rightarrow> 'x \<Rightarrow> 'v) \<Rightarrow> (('x, 'b) store \<Rightarrow> 'x \<Rightarrow> nat set) \<Rightarrow> ('x, 'b) store \<Rightarrow> 'x dc_config list \<Rightarrow>
     nat \<Rightarrow> nat \<Rightarrow> ('x, 'b) store \<Rightarrow> bool" where
  "copied_upto view refs m0 xs dst i m \<longleftrightarrow> grows m0 m \<and> dst < m_next m \<and>
     length (array_at m dst) = length xs \<and>
     (\<forall>j < i. config_view view m (array_at m dst ! j) = config_view view m0 (xs ! j) \<and>
        config_refs refs m (array_at m dst ! j) \<subseteq> {Suc dst..<m_next m})"

lemma copied_upto_step:
  assumes D: "package_copies view refs D" and src: "src < m_next m0" "array_at m0 src = xs"
    and below: "\<And>v. v \<in> set xs \<Longrightarrow> config_refs refs m0 v \<subseteq> {..<m_next m0}"
    and dst: "dst = m_next m0" and i: "i < length xs"
    and inv: "copied_upto view refs m0 xs dst i m"
  shows "copied_upto view refs m0 xs dst (Suc i) (copy_item D src dst i m)"
proof -
  let ?V = "config_view view" and ?R = "config_refs refs"
  note copier = SrlConfig_deep_copier [OF D]
  note local = deep_copier_local [OF copier]
  from inv have m: "grows m0 m" "dst < m_next m" "length (array_at m dst) = length xs"
    by (simp_all add: copied_upto_def)
  have "array_at m src = xs" using m(1) src array_at_cong [of m src m0] by (simp add: grows_def)
  obtain v m' where v: "SrlConfig_into D (xs ! i) m = (v, m')" by (cases "SrlConfig_into D (xs ! i) m")
  let ?m = "assign dst (Array ((array_at m' dst)[i := v])) m'"
  have step: "copy_item D src dst i m = ?m"
    using v \<open>array_at m src = xs\<close> by (simp add: copy_item_def)
  have "xs ! i \<in> set xs" using i by simp
  note item = reads_grows [OF local m(1) below [OF this]]
  have "?R m (xs ! i) \<subseteq> {..<m_next m}"
    using item below [OF \<open>xs ! i \<in> set xs\<close>] m(1) by (auto simp: grows_def)
  note copy = deep_copierD [OF copier this v]
  have same: "array_at m' dst = array_at m dst"
    using copy(3) m(2) by (intro array_at_cong) (simp add: grows_def)
  have old: "?V ?m (array_at m dst ! j) = ?V m0 (xs ! j) \<and> ?R ?m (array_at m dst ! j) \<subseteq> {Suc dst..<m_next m'}"
    if "j < i" for j
  proof -
    have j: "?V m (array_at m dst ! j) = ?V m0 (xs ! j)" "?R m (array_at m dst ! j) \<subseteq> {Suc dst..<m_next m}"
      using inv that by (simp_all add: copied_upto_def)
    have "m_cell ?m a = m_cell m a" if "a \<in> ?R m (array_at m dst ! j)" for a
      using that j(2) copy(3) by (auto simp: grows_def)
    then have "?V ?m (array_at m dst ! j) = ?V m (array_at m dst ! j) \<and>
        ?R ?m (array_at m dst ! j) = ?R m (array_at m dst ! j)"
      by (rule reads_locallyD [OF local])
    with j copy(3) show ?thesis by (auto simp: grows_def)
  qed
  have "m_cell ?m a = m_cell m' a" if "a \<in> ?R m' v" for a
    using that copy(2) m(2) by auto
  then have "?V ?m v = ?V m' v \<and> ?R ?m v = ?R m' v"
    by (rule reads_locallyD [OF local])
  then have new: "?V ?m v = ?V m0 (xs ! i) \<and> ?R ?m v \<subseteq> {Suc dst..<m_next m'}"
    using copy(1,2) item m(2) by auto
  have "grows m0 ?m"
    using grows_trans [OF m(1) copy(3)] dst by (auto simp: grows_def)
  then show ?thesis
    using old new m i copy(3)
    by (auto simp: copied_upto_def step same nth_list_update less_Suc_eq grows_def)
qed

lemma copied_upto_fold:
  assumes D: "package_copies view refs D" and src: "src < m_next m0" "array_at m0 src = xs"
    and below: "\<And>v. v \<in> set xs \<Longrightarrow> config_refs refs m0 v \<subseteq> {..<m_next m0}"
    and dst: "dst = m_next m0" and start: "copied_upto view refs m0 xs dst 0 m"
  shows "i \<le> length xs \<Longrightarrow> copied_upto view refs m0 xs dst i (fold (copy_item D src dst) [0..<i] m)"
proof (induction i)
  case 0
  show ?case using start by simp
next
  case (Suc i)
  then show ?case
    using copied_upto_step [OF D src below dst, of i] by simp
qed

lemma list_reads_locally:
  assumes "package_copies view refs D"
  shows "reads_locally (list_view view) (list_refs refs)"
proof -
  have parts: "reads_locally view refs" "reads_locally (config_view view) (config_refs refs)"
    using assms deep_copier_local [OF SrlConfig_deep_copier [OF assms]]
      deep_copier_local [of view refs "ListMeta_copy D"] by (simp_all add: package_copies_def)
  have "list_view view m' v = list_view view m v \<and> list_refs refs m' v = list_refs refs m v"
    if same: "\<forall>a \<in> list_refs refs m v. m_cell m' a = m_cell m a" for m m' v
  proof -
    have meta: "view m' (dl_ListMeta v) = view m (dl_ListMeta v) \<and> refs m' (dl_ListMeta v) = refs m (dl_ListMeta v)"
      using same by (intro reads_locallyD [OF parts(1)]) (auto simp: list_refs_def)
    show ?thesis
    proof (cases "dl_Items v")
      case None
      with meta show ?thesis by (simp add: list_view_def list_refs_def)
    next
      case (Some a)
      have "array_at m' a = array_at m a"
        using same Some by (intro array_at_cong) (auto simp: list_refs_def array_refs_def)
      moreover have "config_view view m' x = config_view view m x \<and> config_refs refs m' x = config_refs refs m x"
        if "x \<in> set (array_at m a)" for x
        using same Some that by (intro reads_locallyD [OF parts(2)]) (auto simp: list_refs_def array_refs_def)
      ultimately show ?thesis using meta Some by (simp add: list_view_def list_refs_def array_refs_def)
    qed
  qed
  then show ?thesis unfolding reads_locally_def by blast
qed

lemma SrlConfigList_deep_copier:
  assumes D: "package_copies view refs D"
  shows "deep_copier (list_view view) (list_refs refs) (SrlConfigList_into D)"
proof (rule deep_copierI)
  fix m v v' m'
  assume below: "list_refs refs m v \<subseteq> {..<m_next m}" and run: "SrlConfigList_into D v m = (v', m')"
  have meta_copier: "deep_copier view refs (ListMeta_copy D)"
    using D by (simp add: package_copies_def)
  note local = deep_copier_local [OF meta_copier]
  note config_local = deep_copier_local [OF SrlConfig_deep_copier [OF D]]
  obtain lm m1 where lm: "ListMeta_copy D (dl_ListMeta v) m = (lm, m1)" by (cases "ListMeta_copy D (dl_ListMeta v) m")
  have "refs m (dl_ListMeta v) \<subseteq> {..<m_next m}" using below by (simp add: list_refs_def)
  note meta = deep_copierD [OF meta_copier this lm]
  show "list_view view m' v' = list_view view m v \<and>
      list_refs refs m' v' \<subseteq> {m_next m..<m_next m'} \<and> grows m m'"
  proof (cases "dl_Items v")
    case None
    with run lm have "v' = v\<lparr>dl_ListMeta := lm\<rparr>" "m' = m1" by (simp_all add: SrlConfigList_into_def)
    with meta None show ?thesis by (simp add: list_view_def list_refs_def)
  next
    case (Some src)
    define xs where "xs = array_at m src"
    have src: "src < m_next m" and items: "\<And>x. x \<in> set xs \<Longrightarrow> config_refs refs m x \<subseteq> {..<m_next m}"
      using below by (auto simp: list_refs_def Some array_refs_def xs_def)
    have xs1: "array_at m1 src = xs"
      using meta(3) src unfolding xs_def by (intro array_at_cong) (simp add: grows_def)
    have same: "config_view view m1 x = config_view view m x \<and> config_refs refs m1 x = config_refs refs m x"
      if "x \<in> set xs" for x using reads_grows [OF config_local meta(3) items [OF that]] .
    obtain dst m2 where alloc: "alloc (Array (replicate (length xs) (zero_config D))) m1 = (dst, m2)"
      by (cases "alloc (Array (replicate (length xs) (zero_config D))) m1")
    then have dst: "dst = m_next m1" by (simp add: alloc_iff)
    have v': "v' = v\<lparr>dl_ListMeta := lm, dl_Items := Some dst\<rparr>" and m': "m' = fold (copy_item D src dst) [0..<length xs] m2"
      using run lm alloc xs1 by (simp_all add: SrlConfigList_into_def Some)
    have "copied_upto view refs m1 xs dst (length xs) m'"
      unfolding m'
    proof (rule copied_upto_fold [OF D _ xs1 _ dst])
      show "src < m_next m1" using src meta(3) by (simp add: grows_def)
      show "config_refs refs m1 x \<subseteq> {..<m_next m1}" if "x \<in> set xs" for x
        using same [OF that] items [OF that] meta(3) by (auto simp: grows_def)
      show "copied_upto view refs m1 xs dst 0 m2"
        using alloc by (auto simp: alloc_iff copied_upto_def grows_def array_at_def)
    qed simp
    then have m'_grows: "grows m1 m'" and len: "length (array_at m' dst) = length xs" and "dst < m_next m'"
      and copies: "\<And>j. j < length xs \<Longrightarrow> config_view view m' (array_at m' dst ! j) = config_view view m1 (xs ! j) \<and>
        config_refs refs m' (array_at m' dst ! j) \<subseteq> {Suc dst..<m_next m'}"
      by (simp_all add: copied_upto_def)
    have "map (config_view view m') (array_at m' dst) = map (config_view view m) xs"
      using len copies same by (intro nth_equalityI) simp_all
    moreover have "view m' lm = view m (dl_ListMeta v) \<and> refs m' lm = refs m1 lm"
    proof -
      have "refs m1 lm \<subseteq> {..<m_next m1}" using meta(2) by auto
      from reads_grows [OF local m'_grows this] meta(1) show ?thesis by simp
    qed
    moreover have "array_refs refs m' dst \<subseteq> {m_next m..<m_next m'}"
      using copies len \<open>dst < m_next m'\<close> meta(3)
      by (fastforce simp: array_refs_def dst grows_def in_set_conv_nth)
    ultimately show ?thesis
      using meta(2,3) m'_grows grows_trans [OF meta(3) m'_grows] Some
      by (fastforce simp: list_view_def list_refs_def v' xs_def grows_def)
  qed
qed (rule list_reads_locally [OF D])

section \<open>The copies of objects\<close>

lemma new_copy_deep_copier:
  assumes copier: "deep_copier V R into" and "R m v \<subseteq> {..<m_next m}"
    and run: "new_copy box zero into v m = (out, m')"
    and get: "\<And>n y. m_cell n out = box y \<Longrightarrow> at n out = y"
  shows "V m' (at m' out) = V m v \<and> insert out (R m' (at m' out)) \<subseteq> {m_next m..<m_next m'} \<and>
    grows m m'"
proof -
  obtain m1 where m1: "alloc (box zero) m = (out, m1)"
    using run by (cases "alloc (box zero) m") (auto simp: new_copy_def split: prod.splits)
  obtain v' m2 where v': "into v m1 = (v', m2)" by (cases "into v m1")
  have m': "m' = assign out (box v') m2" using run m1 v' by (simp add: new_copy_def)
  have g1: "grows m m1" and out: "out = m_next m" "m_next m1 = Suc out"
    using m1 by (auto simp: alloc_iff grows_def)
  note same = reads_grows [OF deep_copier_local [OF copier] g1 assms(2)]
  have "R m1 v \<subseteq> {..<m_next m1}" using same assms(2) out by auto
  note copy = deep_copierD [OF copier this v']
  have at: "at m' out = v'" by (rule get) (simp add: m')
  have "m_cell m' a = m_cell m2 a" if "a \<in> R m2 v'" for a
    using that copy(2) out by (auto simp: m')
  then have "V m' v' = V m2 v' \<and> R m' v' = R m2 v'"
    by (rule reads_locallyD [OF deep_copier_local [OF copier]])
  moreover have "grows m m'" using grows_trans [OF g1 copy(3)] out by (auto simp: m' grows_def)
  moreover have "out \<in> {m_next m..<m_next m'}" "R m2 v' \<subseteq> {m_next m..<m_next m'}"
    using copy(2,3) out by (auto simp: m' grows_def)
  ultimately show ?thesis
    using copy(1) same by (simp add: at)
qed

text \<open>
  Two readers of separate parts of the store: whatever is written to the cells of one, the other
  reads the same.
\<close>

definition isolated ::
  "(('x, 'b) store \<Rightarrow> nat \<Rightarrow> 'v) \<Rightarrow> (('x, 'b) store \<Rightarrow> nat \<Rightarrow> nat set) \<Rightarrow> ('x, 'b) store \<Rightarrow> nat \<Rightarrow> nat \<Rightarrow> bool" where
  "isolated view refs m a b \<longleftrightarrow> refs m a \<inter> refs m b = {} \<and>
     (\<forall>n. (\<forall>c. c \<notin> refs m a \<longrightarrow> m_cell n c = m_cell m c) \<longrightarrow> view n b = view m b) \<and>
     (\<forall>n. (\<forall>c. c \<notin> refs m b \<longrightarrow> m_cell n c = m_cell m c) \<longrightarrow> view n a = view m a)"

lemma isolatedI:
  assumes "reads_locally view refs" "refs m a \<inter> refs m b = {}"
  shows "isolated view refs m a b"
proof -
  have "view n b = view m b" if "\<forall>c. c \<notin> refs m a \<longrightarrow> m_cell n c = m_cell m c" for n
    using that assms(2) reads_locallyD [OF assms(1), of m b n] by blast
  moreover have "view n a = view m a" if "\<forall>c. c \<notin> refs m b \<longrightarrow> m_cell n c = m_cell m c" for n
    using that assms(2) reads_locallyD [OF assms(1), of m a n] by blast
  ultimately show ?thesis unfolding isolated_def using assms(2) by blast
qed

text \<open>Reading an object through its pointer.\<close>

definition through ::
  "(('x, 'b) store \<Rightarrow> nat \<Rightarrow> 'y) \<Rightarrow> (('x, 'b) store \<Rightarrow> 'y \<Rightarrow> 'v) \<Rightarrow> ('x, 'b) store \<Rightarrow> nat \<Rightarrow> 'v" where
  "through at V m a = V m (at m a)"

definition refs_through ::
  "(('x, 'b) store \<Rightarrow> nat \<Rightarrow> 'y) \<Rightarrow> (('x, 'b) store \<Rightarrow> 'y \<Rightarrow> nat set) \<Rightarrow> ('x, 'b) store \<Rightarrow> nat \<Rightarrow> nat set" where
  "refs_through at R m a = insert a (R m (at m a))"

lemma through_reads_locally:
  fixes at :: "('x, 'b) store \<Rightarrow> nat \<Rightarrow> 'y"
  assumes local: "reads_locally V R" and at: "\<And>n m a. m_cell n a = m_cell m a \<Longrightarrow> at n a = at m a"
  shows "reads_locally (through at V) (refs_through at R)"
  unfolding reads_locally_def
proof (intro allI impI)
  fix m m' :: "('x, 'b) store" and a
  assume same: "\<forall>c \<in> refs_through at R m a. m_cell m' c = m_cell m c"
  then have "at m' a = at m a" by (intro at) (simp add: refs_through_def)
  with reads_locallyD [OF local, of m "at m a" m'] same
  show "through at V m' a = through at V m a \<and> refs_through at R m' a = refs_through at R m a"
    by (simp add: through_def refs_through_def)
qed

lemma new_copy_isolated:
  fixes at :: "('x, 'b) store \<Rightarrow> nat \<Rightarrow> 'y"
  assumes copier: "deep_copier V R into"
    and at: "\<And>n m c. m_cell n c = m_cell m c \<Longrightarrow> at n c = at m c" "\<And>n y c. m_cell n c = box y \<Longrightarrow> at n c = y"
    and below: "refs_through at R m a \<subseteq> {..<m_next m}"
    and run: "new_copy box zero into (at m a) m = (b, m')"
  shows "through at V m' b = through at V m a \<and> through at V m' a = through at V m a \<and>
    isolated (through at V) (refs_through at R) m' a b \<and> grows m m'"
proof -
  note local = through_reads_locally [where at = at, OF deep_copier_local [OF copier] at(1)]
  have "R m (at m a) \<subseteq> {..<m_next m}" using below by (simp add: refs_through_def)
  note copy = new_copy_deep_copier [where at = at, OF copier this run at(2)]
  then have "grows m m'" by blast
  note keep = reads_grows [OF local this below]
  have "refs_through at R m' b \<subseteq> {m_next m..<m_next m'}"
    using copy by (simp add: refs_through_def)
  moreover have "refs_through at R m' a \<subseteq> {..<m_next m}" using keep below by simp
  ultimately have "refs_through at R m' a \<inter> refs_through at R m' b = {}" by fastforce
  then have "isolated (through at V) (refs_through at R) m' a b"
    using isolatedI [of "through at V" "refs_through at R" m' a b] local by blast
  with copy keep show ?thesis by (simp add: through_def)
qed

text \<open>
  C11. A deep copy of a list of resources is equal to it and shares nothing with it: if the embedded
  structs of the other packages are copied deeply, \<open>DeepCopyObject\<close> of a list returns a new object that
  reads the same as the list, items, specs and statuses included, leaves the list as it was, and from
  then on writes to any part of one are not seen through the other.  The copy of a nil list is the
  nil object.
\<close>

theorem list_copy_isolated:
  fixes D :: "('x, 'b) copiers"
  assumes "package_copies view refs D"
    and "refs_through (list_at D) (list_refs refs) m a \<subseteq> {..<m_next m}"
  shows "(\<exists>b m'. SrlConfigList_DeepCopyObject D (Some a) m = (SrlConfigListObject b, m') \<and>
      through (list_at D) (list_view view) m' b = through (list_at D) (list_view view) m a \<and>
      through (list_at D) (list_view view) m' a = through (list_at D) (list_view view) m a \<and>
      isolated (through (list_at D) (list_view view)) (refs_through (list_at D) (list_refs refs)) m' a b) \<and>
    SrlConfigList_DeepCopyObject D None m = (NilObject, m)"
proof -
  obtain b m' where run: "new_copy ConfigList (zero_list D) (SrlConfigList_into D) (list_at D m a) m = (b, m')"
    by (cases "new_copy ConfigList (zero_list D) (SrlConfigList_into D) (list_at D m a) m")
  then have "SrlConfigList_DeepCopyObject D (Some a) m = (SrlConfigListObject b, m')"
    by (simp add: SrlConfigList_DeepCopyObject_def SrlConfigList_DeepCopy_def)
  moreover have "SrlConfigList_DeepCopyObject D None m = (NilObject, m)"
    by (simp add: SrlConfigList_DeepCopyObject_def SrlConfigList_DeepCopy_def)
  moreover have "list_at D n c = list_at D m c" if "m_cell n c = m_cell m c" for n m :: "('x, 'b) store" and c
    using that by (simp add: list_at_def)
  moreover have "list_at D n c = y" if "m_cell n c = ConfigList y" for n :: "('x, 'b) store" and y c
    using that by (simp add: list_at_def)
  ultimately show ?thesis
    using new_copy_isolated [where at = "list_at D" and box = ConfigList,
        OF SrlConfigList_deep_copier [OF assms(1)] _ _ assms(2) run] by blast
qed

text \<open>
  The same holds of a single resource, which controller-runtime copies out of its cache before
  the reconciler and the webhooks change it.
\<close>

lemma config_copy_isolated:
  fixes D :: "('x, 'b) copiers"
  assumes "package_copies view refs D"
    and "refs_through (config_at D) (config_refs refs) m a \<subseteq> {..<m_next m}"
  shows "(\<exists>b m'. SrlConfig_DeepCopyObject D (Some a) m = (SrlConfigObject b, m') \<and>
      through (config_at D) (config_view view) m' b = through (config_at D) (config_view view) m a \<and>
      through (config_at D) (config_view view) m' a = through (config_at D) (config_view view) m a \<and>
      isolated (through (config_at D) (config_view view)) (refs_through (config_at D) (config_refs refs)) m' a b) \<and>
    SrlConfig_DeepCopyObject D None m = (NilObject, m)"
proof -
  obtain b m' where run: "new_copy Config (zero_config D) (SrlConfig_into D) (config_at D m a) m = (b, m')"
    by (cases "new_copy Config (zero_config D) (SrlConfig_into D) (config_at D m a) m")
  then have "SrlConfig_DeepCopyObject D (Some a) m = (SrlConfigObject b, m')"
    by (simp add: SrlConfig_DeepCopyObject_def SrlConfig_DeepCopy_def)
  moreover have "SrlConfig_DeepCopyObject D None m = (NilObject, m)"
    by (simp add: SrlConfig_DeepCopyObject_def SrlConfig_DeepCopy_def)
  moreover have "config_at D n c = config_at D m c" if "m_cell n c = m_cell m c" for n m :: "('x, 'b) store" and c
    using that by (simp add: config_at_def)
  moreover have "config_at D n c = y" if "m_cell n c = Config y" for n :: "('x, 'b) store" and y c
    using that by (simp add: config_at_def)
  ultimately show ?thesis
    using new_copy_isolated [where at = "config_at D" and box = Config,
        OF SrlConfig_deep_copier [OF assms(1)] _ _ assms(2) run] by blast
qed

section \<open>An example\<close>

text \<open>
  Structs that are empty (\<open>None\<close>) or refer to one cell of data, which their copier duplicates.
\<close>

definition demo_view :: "(nat option, nat) store \<Rightarrow> nat option \<Rightarrow> nat option" where
  "demo_view m x = (case x of None \<Rightarrow> None
     | Some a \<Rightarrow> (case m_cell m a of Data n \<Rightarrow> Some n | _ \<Rightarrow> None))"

definition demo_refs :: "(nat option, nat) store \<Rightarrow> nat option \<Rightarrow> nat set" where
  "demo_refs m x = set_option x"

definition demo_copy :: "(nat option, nat) copier" where
  "demo_copy x m = (case x of None \<Rightarrow> (None, m) | Some a \<Rightarrow> map_prod Some id (alloc (m_cell m a) m))"

definition demo_copiers :: "(nat option, nat) copiers" where
  "demo_copiers = \<lparr>ResourceSpec_copy = demo_copy, RawExtension_copy = demo_copy,
     ResourceStatus_copy = demo_copy, ObjectMeta_copy = demo_copy, ListMeta_copy = demo_copy,
     zero_struct = None\<rparr>"

lemma demo_package_copies: "package_copies demo_view demo_refs demo_copiers"
proof -
  have "deep_copier demo_view demo_refs demo_copy"
  proof (rule deep_copierI)
    show "reads_locally demo_view demo_refs"
      by (auto simp: reads_locally_def demo_view_def demo_refs_def split: option.split)
  next
    fix m y y' m'
    assume "demo_refs m y \<subseteq> {..<m_next m}" "demo_copy y m = (y', m')"
    then show "demo_view m' y' = demo_view m y \<and> demo_refs m' y' \<subseteq> {m_next m..<m_next m'} \<and> grows m m'"
      by (cases y) (auto simp: demo_copy_def demo_view_def demo_refs_def alloc_def grows_def)
  qed
  then show ?thesis by (simp add: package_copies_def demo_copiers_def)
qed

text \<open>A list at address 3 with one resource, whose properties are the number 7.\<close>

definition demo_item :: "nat option dc_config" where
  "demo_item = \<lparr>dc_TypeMeta = (''SrlConfig'', ''v1alpha1''), dc_ObjectMeta = Some 0,
     dc_Spec = \<lparr>dc_ResourceSpec = None, dc_Properties = Some 1\<rparr>, dc_Status = \<lparr>dc_ResourceStatus = None\<rparr>\<rparr>"

definition demo_store :: "(nat option, nat) store" where
  "demo_store = \<lparr>m_cell = nth [Data 5, Data 7, Array [demo_item],
       ConfigList \<lparr>dl_TypeMeta = (''SrlConfigList'', ''v1alpha1''), dl_ListMeta = None, dl_Items = Some 2\<rparr>,
       Config demo_item], m_next = 5\<rparr>"

lemma demo_store_cells [simp]:
  "m_next demo_store = 5" "m_cell demo_store 0 = Data 5" "m_cell demo_store (Suc 0) = Data 7"
  "m_cell demo_store 2 = Array [demo_item]" "m_cell demo_store 4 = Config demo_item"
  "m_cell demo_store 3 = ConfigList \<lparr>dl_TypeMeta = (''SrlConfigList'', ''v1alpha1''),
     dl_ListMeta = None, dl_Items = Some 2\<rparr>"
  by (simp_all add: demo_store_def eval_nat_numeral)

lemma demo_item_refs: "config_refs demo_refs demo_store demo_item = {0, 1}"
  by (auto simp: config_refs_def pair_refs_def config_parts_def spec_refs_def spec_parts_def
      status_refs_def demo_refs_def demo_item_def)

lemma list_copy_isolated_witness:
  "\<exists>b m'. SrlConfigList_DeepCopyObject demo_copiers (Some 3) demo_store = (SrlConfigListObject b, m') \<and>
     through (list_at demo_copiers) (list_view demo_view) m' b =
       ((''SrlConfigList'', ''v1alpha1''), None, Some [config_view demo_view demo_store demo_item])"
proof -
  have "refs_through (list_at demo_copiers) (list_refs demo_refs) demo_store 3 \<subseteq> {..<m_next demo_store}"
    using demo_item_refs by (auto simp: refs_through_def list_at_def list_refs_def array_refs_def
        array_at_def demo_refs_def)
  from list_copy_isolated [OF demo_package_copies this] show ?thesis
    by (fastforce simp: through_def list_at_def list_view_def array_at_def demo_view_def)
qed

lemma config_copy_isolated_witness:
  "\<exists>b m'. SrlConfig_DeepCopyObject demo_copiers (Some 4) demo_store = (SrlConfigObject b, m') \<and>
     config_view demo_view m' (config_at demo_copiers m' b) =
       ((''SrlConfig'', ''v1alpha1''), Some 5, (None, Some 7), None)"
proof -
  have "refs_through (config_at demo_copiers) (config_refs demo_refs) demo_store 4 \<subseteq> {..<m_next demo_store}"
    using demo_item_refs by (auto simp: refs_through_def config_at_def)
  from config_copy_isolated [OF demo_package_copies this] show ?thesis
    by (fastforce simp: through_def config_at_def config_view_def pair_view_def config_parts_def
        spec_view_def spec_parts_def status_view_def demo_view_def demo_item_def)
qed

end
