(* ===== verification/Models.thy ===== *)
theory Models
  imports Prelude
begin

text \<open>
  The schema models the programs are built with.  \<open>Setup\<close> makes one for the devices and one for the
  system cache, the webhook and the worker each make one for the devices.  The generated packages
  are not part of the repository: what a model takes from them is named, not defined.
\<close>

text \<open>The two packages generated from the YANG models, and what a \<open>model.Model\<close> takes from one.\<close>

datatype ygot_package = Ygotsrl | Ygotnddp

datatype generated = DeviceType ygot_package | SchemaTree ygot_package string
  | Unmarshal ygot_package | EnumMap ygot_package

record schema_model =
  md_ModelData :: "string list option"  \<comment> \<open>a slice, \<open>None\<close> when nil\<close>
  md_StructRootType :: generated
  md_SchemaTreeRoot :: generated
  md_JsonUnmarshaler :: generated
  md_EnumData :: generated

definition device_model :: schema_model where
  "device_model = \<lparr>md_ModelData = None, md_StructRootType = DeviceType Ygotsrl,
     md_SchemaTreeRoot = SchemaTree Ygotsrl ''Device'', md_JsonUnmarshaler = Unmarshal Ygotsrl,
     md_EnumData = EnumMap Ygotsrl\<rparr>"

definition system_model :: schema_model where
  "system_model = \<lparr>md_ModelData = None, md_StructRootType = DeviceType Ygotnddp,
     md_SchemaTreeRoot = SchemaTree Ygotnddp ''Device'', md_JsonUnmarshaler = Unmarshal Ygotnddp,
     md_EnumData = EnumMap Ygotnddp\<rparr>"

definition webhook_model :: schema_model where
  "webhook_model = \<lparr>md_ModelData = Some [], md_StructRootType = DeviceType Ygotsrl,
     md_SchemaTreeRoot = SchemaTree Ygotsrl ''Device'', md_JsonUnmarshaler = Unmarshal Ygotsrl,
     md_EnumData = EnumMap Ygotsrl\<rparr>"

definition worker_model :: schema_model where
  "worker_model = \<lparr>md_ModelData = None, md_StructRootType = DeviceType Ygotsrl,
     md_SchemaTreeRoot = SchemaTree Ygotsrl ''Device'', md_JsonUnmarshaler = Unmarshal Ygotsrl,
     md_EnumData = EnumMap Ygotsrl\<rparr>"

text \<open>A model whose parts come from one package.\<close>

definition from_package :: "ygot_package \<Rightarrow> schema_model \<Rightarrow> bool" where
  "from_package p M \<longleftrightarrow> md_StructRootType M = DeviceType p \<and> md_SchemaTreeRoot M = SchemaTree p ''Device'' \<and>
     md_JsonUnmarshaler M = Unmarshal p \<and> md_EnumData M = EnumMap p"

lemmas model_defs = device_model_def system_model_def webhook_model_def worker_model_def

end
