(* ===== verification/Registration.thy ===== *)
theory Registration
  imports Watcher Models
begin

text \<open>
  What the two programs register with controller-runtime: \<open>Setup\<close> of \<open>internal/controllers/srl\<close> and of
  \<open>internal/controllers/target\<close>, the loop of \<open>internal/controllers\<close>, the webhook, and the schemes that
  \<open>root.go\<close> fills.  Builders and reconcilers belong to other packages: a builder is the list of the
  calls made on it, a reconciler the list of its options, and \<open>Complete\<close> is a parameter.  \<open>'m\<close> is the
  manager with all that was registered in it, \<open>'v\<close> a value that is only passed on.
\<close>

section \<open>What is registered\<close>

datatype resource_type = SrlConfig_type | SrlConfigList_type | Target_type | TargetUsage_type

text \<open>\<open>shared.NddControllerOptions\<close>\<close>

record 'v ndd_options =
  nd_Logger :: 'v
  nd_Poll :: int
  nd_Namespace :: string
  nd_TargetCh :: 'v
  nd_Registrator :: 'v
  nd_Copts :: 'v

text \<open>The fields of \<open>connector\<close>, \<open>validatorDevice\<close> and \<open>EnqueueRequestForAllDevice\<close> that \<open>Setup\<close> sets.\<close>

record 'v connector_fields =
  cn_log :: 'v
  cn_kube :: 'v
  cn_usage :: 'v
  cn_deviceModel :: schema_model
  cn_systemModel :: schema_model
  cn_newClientFn :: 'v
  cn_registrator :: 'v

record 'v validator_fields =
  vd_log :: 'v
  vd_deviceModel :: schema_model
  vd_systemModel :: schema_model

record 'v handler_fields =
  eh_client :: 'v
  eh_log :: 'v

datatype 'v reconciler_option =
    WithPollInterval int
  | WithExternalConnecter "'v connector_fields"
  | WithValidator "'v validator_fields"
  | WithTargetChannel 'v
  | WithExpectedVendorType string
  | WithLogger 'v
  | WithRecorder 'v

datatype 'v reconciler =
    ManagedReconciler group_version_kind "'v reconciler_option list"
  | TargetReconciler "'v reconciler_option list"

datatype watch_source = KindSource resource_type | ChannelSource nat

datatype event_filter = IgnoreUpdateWithoutGenerationChange

datatype 'v builder_call =
    Named string
  | WithOptions 'v
  | For resource_type
  | Owns resource_type
  | WithEventFilter event_filter
  | Watches watch_source "'v handler_fields"

record ('m, 'v, 'e) runtime_env =
  GetClient :: "'m \<Rightarrow> 'v"
  NewAPIRecorderFor :: "'m \<Rightarrow> string \<Rightarrow> 'v"
  NewTargetUsageTracker :: "'v \<Rightarrow> 'v"
  WithValues :: "'v \<Rightarrow> string \<Rightarrow> string \<Rightarrow> 'v"
  NewTarget :: 'v
  ControllerName :: "string \<Rightarrow> string"
  TargetKind :: string
  VendorTypeNokiaSRL :: string
  Complete :: "'v builder_call list \<Rightarrow> 'v reconciler \<Rightarrow> 'm \<Rightarrow> 'e error option \<times> 'm"
  CompleteWebhook :: "resource_type \<Rightarrow> 'm \<Rightarrow> 'e error option \<times> 'm"

section \<open>The code\<close>

text \<open>\<open>schema.GroupKind.String()\<close>\<close>

definition group_kind_string :: "group_kind \<Rightarrow> string" where
  "group_kind_string gk = (if gk_Group gk = [] then gk_Kind gk else gk_Kind gk @ ''.'' @ gk_Group gk)"

text \<open>\<open>events\<close> is the channel that \<open>make\<close> returns.\<close>

definition Setup ::
  "('m, 'v, 'e, 'z) runtime_env_scheme \<Rightarrow> nat \<Rightarrow> 'v ndd_options \<Rightarrow> 'm \<Rightarrow> (string \<times> nat \<times> 'e error option) \<times> 'm" where
  "Setup E events nddopts mgr =
     (let name = ControllerName E (group_kind_string SrlConfigGK);
          dm = device_model;
          sm = system_model;
          r = ManagedReconciler SrlConfigGroupVersionKind [
            WithPollInterval (nd_Poll nddopts),
            WithExternalConnecter \<lparr>cn_log = nd_Logger nddopts, cn_kube = GetClient E mgr,
              cn_usage = NewTargetUsageTracker E (GetClient E mgr), cn_deviceModel = dm,
              cn_systemModel = sm, cn_newClientFn = NewTarget E, cn_registrator = nd_Registrator nddopts\<rparr>,
            WithValidator \<lparr>vd_log = nd_Logger nddopts, vd_deviceModel = dm, vd_systemModel = sm\<rparr>,
            WithLogger (WithValues E (nd_Logger nddopts) ''SrlConfig'' name),
            WithRecorder (NewAPIRecorderFor E mgr name)];
          DeviceHandler = \<lparr>eh_client = GetClient E mgr, eh_log = nd_Logger nddopts\<rparr>;
          (err, mgr') = Complete E [
            Named name,
            WithOptions (nd_Copts nddopts),
            For SrlConfig_type,
            Owns SrlConfig_type,
            WithEventFilter IgnoreUpdateWithoutGenerationChange,
            Watches (KindSource SrlConfig_type) DeviceHandler,
            Watches (ChannelSource events) DeviceHandler] r mgr
      in ((group_kind_string SrlConfigGK, events, err), mgr'))"

text \<open>\<open>strings.ToLower\<close> on ASCII\<close>

definition ToLower :: "string \<Rightarrow> string" where
  "ToLower = map (\<lambda>c. if 65 \<le> (of_char c :: nat) \<and> (of_char c :: nat) \<le> 90 then char_of (of_char c + 32 :: nat) else c)"

definition TargetSetup ::
  "('m, 'v, 'e, 'z) runtime_env_scheme \<Rightarrow> 'v ndd_options \<Rightarrow> 'm \<Rightarrow> 'e error option \<times> 'm" where
  "TargetSetup E nddopts mgr =
     (let name = ''target.yndd.io'' @ CHR 0x2F # ToLower (TargetKind E);
          r = TargetReconciler [
            WithTargetChannel (nd_TargetCh nddopts),
            WithExpectedVendorType (VendorTypeNokiaSRL E),
            WithPollInterval (nd_Poll nddopts),
            WithLogger (WithValues E (nd_Logger nddopts) ''Target'' name),
            WithRecorder (NewAPIRecorderFor E mgr name)]
      in Complete E [
            Named name,
            WithOptions (nd_Copts nddopts),
            For Target_type,
            WithEventFilter IgnoreUpdateWithoutGenerationChange] r mgr)"

text \<open>The loop of \<open>controllers.Setup\<close>, and that function: its list of setups is empty.\<close>

fun setup_each ::
  "('m \<Rightarrow> (string \<times> nat \<times> 'e error option) \<times> 'm) list \<Rightarrow> (string, nat) fmap \<Rightarrow> 'm \<Rightarrow>
     ((string, nat) fmap, 'e) result \<times> 'm" where
  "setup_each [] eventChans mgr = (Ok eventChans, mgr)"
| "setup_each (setup # setups) eventChans mgr =
     (let ((gvk, eventChan, err), mgr') = setup mgr
      in (case err of
            Some e \<Rightarrow> (Err e, mgr')
          | None \<Rightarrow> setup_each setups (fmupd gvk eventChan eventChans) mgr'))"

definition controllers_Setup :: "'m \<Rightarrow> ((string, nat) fmap, 'e) result \<times> 'm" where
  "controllers_Setup mgr = setup_each [] fmempty mgr"

definition SetupWebhookWithManager ::
  "('m, 'v, 'e, 'z) runtime_env_scheme \<Rightarrow> 'm \<Rightarrow> 'e error option \<times> 'm" where
  "SetupWebhookWithManager E mgr = CompleteWebhook E SrlConfig_type mgr"

text \<open>
  The schemes: \<open>init\<close> of the API package registers its types under its group, \<open>init\<close> of \<open>root.go\<close> adds
  groups to the scheme of the program and panics when one cannot be added (\<open>None\<close>).
\<close>

datatype api_group = ClientGo | SrlV1alpha1 | TargetV1

definition srl_types :: "resource_type list" where
  "srl_types = [SrlConfig_type, SrlConfigList_type]"

definition reconciler_groups :: "api_group list" where
  "reconciler_groups = [ClientGo, SrlV1alpha1, TargetV1]"

definition worker_groups :: "api_group list" where
  "worker_groups = [ClientGo, TargetV1]"

fun init_scheme ::
  "(api_group \<Rightarrow> 's \<Rightarrow> 'e error option \<times> 's) \<Rightarrow> api_group list \<Rightarrow> 's \<Rightarrow> 's option" where
  "init_scheme AddToScheme [] s = Some s"
| "init_scheme AddToScheme (g # gs) s =
     (case AddToScheme g s of (None, s') \<Rightarrow> init_scheme AddToScheme gs s' | (Some e, s') \<Rightarrow> None)"

section \<open>The controller of the resources\<close>

lemma controllers_Setup_empty: "controllers_Setup mgr = (Ok fmempty, mgr)"
  by (simp add: controllers_Setup_def)


section \<open>Types and schemes\<close>

text \<open>The types that a manager has to know to complete a controller.\<close>

definition types_in :: "'v builder_call list \<Rightarrow> resource_type set" where
  "types_in calls = {t. For t \<in> set calls \<or> Owns t \<in> set calls \<or> (\<exists>h. Watches (KindSource t) h \<in> set calls)}"

lemma init_scheme_known:
  assumes "\<And>g s. fst (add g s) = None \<and> known (snd (add g s)) = known s \<union> types g"
  shows "\<exists>s'. init_scheme add gs s = Some s' \<and> known s' = known s \<union> (\<Union>g \<in> set gs. types g)"
proof (induction gs arbitrary: s)
  case Nil
  then show ?case by simp
next
  case (Cons g gs)
  obtain s1 where s1: "add g s = (None, s1)" "known s1 = known s \<union> types g"
    using assms [of g s] by (cases "add g s") auto
  then show ?case using Cons.IH [of s1] by auto
qed


text \<open>A manager that is its scheme, the set of types it knows, and accepts nothing else.\<close>

definition demo_runtime :: "(resource_type set, string, unit) runtime_env" where
  "demo_runtime = \<lparr>GetClient = (\<lambda>m. ''client''), NewAPIRecorderFor = (\<lambda>m n. n), NewTargetUsageTracker = id,
     WithValues = (\<lambda>l k v. l), NewTarget = ''new'', ControllerName = id, TargetKind = ''Target'',
     VendorTypeNokiaSRL = ''nokiaSRL'',
     Complete = (\<lambda>calls r m. (if types_in calls \<subseteq> m then None else Some (ErrExt ()), m)),
     CompleteWebhook = (\<lambda>t m. (if t \<in> m then None else Some (ErrExt ()), m))\<rparr>"

fun demo_types :: "api_group \<Rightarrow> resource_type set" where
  "demo_types ClientGo = {}"
| "demo_types SrlV1alpha1 = {SrlConfig_type, SrlConfigList_type}"
| "demo_types TargetV1 = {Target_type, TargetUsage_type}"

definition demo_ndd_options :: "string ndd_options" where
  "demo_ndd_options = \<lparr>nd_Logger = ''log'', nd_Poll = 1, nd_Namespace = ''ns'', nd_TargetCh = ''ch'',
     nd_Registrator = ''reg'', nd_Copts = ''opts''\<rparr>"


end
