(* ===== verification/Target.thy ===== *)
theory Target
  imports Gnmi Json
begin

text \<open>
  \<open>internal/target/srl/srl.go\<close>: the worker's view of one SR Linux device, behind the
  \<open>target.Target\<close> interface of \<open>github.com/yndd/target\<close>.  \<open>'c\<close> is a gNMI target of \<open>gnmic\<close>, \<open>'q\<close> a
  request built by its API package, \<open>'w\<close> the device with everything on the way to it.
\<close>

section \<open>State and external functions\<close>

text \<open>Two pointers; the logger is an interface whose methods panic while it is nil.\<close>

record 'c srl =
  s_target :: "'c option"
  s_log :: "unit option"

datatype gapi_option = OptPath string | OptDataType string | OptEncoding string | OptOther nat

record discovery_info =
  di_VendorType :: string
  di_SwVersion :: string
  di_Platform :: string
  di_SerialNumber :: string
  di_MacAddress :: string

record ('c, 'q, 'p, 'w, 'e) device_env =
  NewGetRequest :: "gapi_option list \<Rightarrow> 'e error + 'q"
  target_Get :: "'c option \<Rightarrow> 'q \<Rightarrow> 'w \<Rightarrow> (get_response option \<times> 'e error option) \<times> 'w"
  target_Set :: "'c option \<Rightarrow> set_request \<Rightarrow> 'w \<Rightarrow> ('p \<times> 'e error option) \<times> 'w"
  target_Capabilities :: "'c option \<Rightarrow> 'w \<Rightarrow> ('p \<times> 'e error option) \<times> 'w"
  target_ConfigName :: "'c \<Rightarrow> string option"
  GnmiPathToXPath :: "gnmi_path option \<Rightarrow> bool \<Rightarrow> string"
  device_GetValue :: "typed_value option \<Rightarrow> 'e error + goval"
  VendorTypeNokiaSRL :: string

section \<open>The code\<close>

definition errGnmiCreateGetRequest :: string where
  "errGnmiCreateGetRequest = ''gnmi create get request error''"
definition errGnmiGet :: string where "errGnmiGet = ''gnmi get error ''"
definition swVersionPath :: string where
  "swVersionPath = ''/platform/control[slot=A]/software-version''"
definition chassisPath :: string where "chassisPath = ''/platform/chassis''"

definition New :: "'c srl" where
  "New = \<lparr>s_target = None, s_log = None\<rparr>"

definition WithTarget :: "'c option \<Rightarrow> 'c srl \<Rightarrow> 'c srl" where
  "WithTarget target t = t\<lparr>s_target := target\<rparr>"

definition WithLogging :: "unit option \<Rightarrow> 'c srl \<Rightarrow> 'c srl" where
  "WithLogging log t = t\<lparr>s_log := log\<rparr>"

definition Init :: "('c srl \<Rightarrow> 'c srl) list \<Rightarrow> 'c srl \<Rightarrow> 'c srl" where
  "Init opts t = fold (\<lambda>opt t. opt t) opts t"

text \<open>\<open>t.log.Debug(...)\<close>\<close>

definition Debug :: "'c srl \<Rightarrow> (unit, 'e) result" where
  "Debug t = deref (s_log t)"

definition GNMICap ::
  "('c, 'q, 'p, 'w, 'e, 'z) device_env_scheme \<Rightarrow> 'c srl \<Rightarrow> ('w, 'p \<times> 'e error option, 'e) action" where
  "GNMICap D t = and_then (pure (Debug t)) (\<lambda>_ w.
     let (answer, w') = target_Capabilities D (s_target t) w in (Ok answer, w'))"

definition get_device ::
  "('c, 'q, 'p, 'w, 'e, 'z) device_env_scheme \<Rightarrow> 'c srl \<Rightarrow> 'q \<Rightarrow>
     ('w, get_response option \<times> 'e error option, 'e) action" where
  "get_device D t req w = (let (answer, w') = target_Get D (s_target t) req w in (Ok answer, w'))"

definition discover_update ::
  "('c, 'q, 'p, 'w, 'e, 'z) device_env_scheme \<Rightarrow> gnmi_update option \<Rightarrow> discovery_info \<Rightarrow> discovery_info" where
  "discover_update D upd devDetails =
     (let p = GnmiPathToXPath D (GetPath upd) True
      in if p = ''platform/control/software-version'' then
           (if di_SwVersion devDetails = [] then devDetails\<lparr>di_SwVersion := GetStringVal (GetVal upd)\<rparr>
            else devDetails)
         else if p = ''platform/chassis/type'' then
           devDetails\<lparr>di_Platform := GetStringVal (GetVal upd)\<rparr>
         else if p = ''platform/chassis/serial-number'' then
           devDetails\<lparr>di_SerialNumber := GetStringVal (GetVal upd)\<rparr>
         else if p = ''platform/chassis/hw-mac-address'' then
           devDetails\<lparr>di_MacAddress := GetStringVal (GetVal upd)\<rparr>
         else devDetails)"

definition getDiscoveryInfo ::
  "('c, 'q, 'p, 'w, 'e, 'z) device_env_scheme \<Rightarrow> 'c srl \<Rightarrow> ('w, discovery_info, 'e) action" where
  "getDiscoveryInfo D t =
     and_then (pure (case NewGetRequest D [OptPath swVersionPath, OptPath chassisPath,
         OptEncoding ''ascii'', OptDataType ''state''] of Inl e \<Rightarrow> Err e | Inr req \<Rightarrow> Ok req)) (\<lambda>req.
     and_then (get_device D t req) (\<lambda>(resp, err). pure (case err of
         Some e \<Rightarrow> Err e
       | None \<Rightarrow> Ok (fold (\<lambda>notif d. fold (discover_update D) (GetUpdate notif) d)
           (GetNotification resp)
           \<lparr>di_VendorType = VendorTypeNokiaSRL D, di_SwVersion = [], di_Platform = [],
             di_SerialNumber = [], di_MacAddress = []\<rparr>))))"

definition Discover ::
  "('c, 'q, 'p, 'w, 'e, 'z) device_env_scheme \<Rightarrow> 'c srl \<Rightarrow> ('w, discovery_info, 'e) action" where
  "Discover D t =
     and_then (pure (Debug t)) (\<lambda>_.
     and_then (getDiscoveryInfo D t) (\<lambda>discoveryInfo.
     and_then (pure (try_then (deref (s_target t)) (\<lambda>c. deref (target_ConfigName D c)))) (\<lambda>_.
     and_then (pure (Debug t)) (\<lambda>_. pure (Ok discoveryInfo)))))"

definition GetConfig ::
  "('c, 'q, 'p, 'w, 'e, 'z) device_env_scheme \<Rightarrow> 'c srl \<Rightarrow> ('w, goval, 'e) action" where
  "GetConfig D t =
     and_then (pure (case NewGetRequest D [OptPath [], OptDataType ''config'', OptEncoding ''json_ietf''] of
         Inl e \<Rightarrow> try_then (Debug t) (\<lambda>_. Err (ErrWrap e errGnmiCreateGetRequest)) | Inr req \<Rightarrow> Ok req)) (\<lambda>req.
     and_then (get_device D t req) (\<lambda>(rsp, err). pure (case err of
         Some e \<Rightarrow> try_then (Debug t) (\<lambda>_. Err (ErrWrap e errGnmiGet))
       | None \<Rightarrow>
           let ns = GetNotification rsp
           in if length ns = 1 then
                (let upds = GetUpdate (ns ! 0)
                 in if length upds = 1 then
                      (case device_GetValue D (GetVal (upds ! 0)) of Inl e \<Rightarrow> Err e | Inr v \<Rightarrow> Ok v)
                    else Err (ErrNew ''unexpected number of updates in GetResponse Notification''))
              else Err (ErrNew ''unexpected number of Notifications in GetResponse''))))"

definition GNMIGet ::
  "('c, 'q, 'p, 'w, 'e, 'z) device_env_scheme \<Rightarrow> 'c srl \<Rightarrow> gapi_option list \<Rightarrow>
     ('w, get_response option, 'e) action" where
  "GNMIGet D t opts =
     and_then (pure (case NewGetRequest D opts of
         Inl e \<Rightarrow> try_then (Debug t) (\<lambda>_. Err (ErrWrap e errGnmiCreateGetRequest)) | Inr req \<Rightarrow> Ok req)) (\<lambda>req.
     and_then (get_device D t req) (\<lambda>(rsp, err). pure (case err of
         Some e \<Rightarrow> try_then (Debug t) (\<lambda>_. Err (ErrWrap e errGnmiGet)) | None \<Rightarrow> Ok rsp)))"

definition GNMISet ::
  "('c, 'q, 'p, 'w, 'e, 'z) device_env_scheme \<Rightarrow> 'c srl \<Rightarrow> gnmi_update option list \<Rightarrow>
     gnmi_path option list \<Rightarrow> ('w, 'p, 'e) action" where
  "GNMISet D t u p w =
     (let ((resp, err), w') = target_Set D (s_target t)
        \<lparr>sr_Prefix = None, sr_Delete = p, sr_Replace = [], sr_Update = u\<rparr> w
      in (case err of Some e \<Rightarrow> try_then (Debug t) (\<lambda>_. Err e) | None \<Rightarrow> Ok resp, w'))"

section \<open>The contract of a query\<close>

text \<open>
  Three methods build one request, send it once and use the response; they differ in what they make
  of a request that cannot be built and of one that fails.
\<close>

locale device_query =
  fixes req :: "'e error + 'q" and get :: "'q \<Rightarrow> 'w \<Rightarrow> (get_response option \<times> 'e error option) \<times> 'w"
    and unbuilt :: "'e error \<Rightarrow> ('a, 'e) result" and failed :: "'e error \<Rightarrow> ('a, 'e) result"
    and use :: "get_response option \<Rightarrow> ('a, 'e) result"
    and query :: "('w, 'a, 'e) action"
  assumes outcome: "query w = (case req of Inl e \<Rightarrow> (unbuilt e, w)
      | Inr q \<Rightarrow> (case get q w of ((rsp, err), w') \<Rightarrow>
          (case err of Some e \<Rightarrow> failed e | None \<Rightarrow> use rsp, w')))"
    and errors: "unbuilt e \<noteq> Ok a" "failed e \<noteq> Ok a"
begin

lemma answered_iff:
  "query w = (Ok a, w') \<longleftrightarrow> (\<exists>q rsp. req = Inr q \<and> get q w = ((rsp, None), w') \<and> use rsp = Ok a)"
  using errors by (auto simp: outcome split: sum.splits prod.splits option.splits)

lemma no_request: "req = Inl e \<Longrightarrow> query w = (unbuilt e, w)"
  by (simp add: outcome)

lemma no_response: "req = Inr q \<Longrightarrow> get q w = ((rsp, Some e), w') \<Longrightarrow> query w = (failed e, w')"
  by (simp add: outcome)

lemma response: "req = Inr q \<Longrightarrow> get q w = ((rsp, None), w') \<Longrightarrow> query w = (use rsp, w')"
  by (simp add: outcome)

end

definition logged :: "'c srl \<Rightarrow> string \<Rightarrow> 'e error \<Rightarrow> ('a, 'e) result" where
  "logged t msg e = try_then (Debug t) (\<lambda>_. Err (ErrWrap e msg))"

lemma logged_not_Ok [simp]: "logged t msg e \<noteq> Ok a"
  by (simp add: logged_def result_simps)

text \<open>What the device said, as pairs of an XPath without keys and a string.\<close>

definition readings ::
  "('c, 'q, 'p, 'w, 'e, 'z) device_env_scheme \<Rightarrow> get_response option \<Rightarrow> (string \<times> string) list" where
  "readings D rsp = concat (map (\<lambda>n. map (\<lambda>u. (GnmiPathToXPath D (GetPath u) True,
     GetStringVal (GetVal u))) (GetUpdate n)) (GetNotification rsp))"

definition first_nonempty :: "string \<Rightarrow> (string \<times> string) list \<Rightarrow> string" where
  "first_nonempty p rs = (case find (\<lambda>r. fst r = p \<and> snd r \<noteq> []) rs of None \<Rightarrow> [] | Some r \<Rightarrow> snd r)"

definition last_reading :: "string \<Rightarrow> (string \<times> string) list \<Rightarrow> string" where
  "last_reading p rs = last ([] # map snd (filter (\<lambda>r. fst r = p) rs))"

definition discovered ::
  "('c, 'q, 'p, 'w, 'e, 'z) device_env_scheme \<Rightarrow> get_response option \<Rightarrow> discovery_info" where
  "discovered D rsp = \<lparr>di_VendorType = VendorTypeNokiaSRL D,
     di_SwVersion = first_nonempty ''platform/control/software-version'' (readings D rsp),
     di_Platform = last_reading ''platform/chassis/type'' (readings D rsp),
     di_SerialNumber = last_reading ''platform/chassis/serial-number'' (readings D rsp),
     di_MacAddress = last_reading ''platform/chassis/hw-mac-address'' (readings D rsp)\<rparr>"

text \<open>One step of the loop on a reading; the loop itself is a fold over all readings.\<close>

definition note_reading :: "string \<times> string \<Rightarrow> discovery_info \<Rightarrow> discovery_info" where
  "note_reading r d =
     (if fst r = ''platform/control/software-version'' then
        (if di_SwVersion d = [] then d\<lparr>di_SwVersion := snd r\<rparr> else d)
      else if fst r = ''platform/chassis/type'' then d\<lparr>di_Platform := snd r\<rparr>
      else if fst r = ''platform/chassis/serial-number'' then d\<lparr>di_SerialNumber := snd r\<rparr>
      else if fst r = ''platform/chassis/hw-mac-address'' then d\<lparr>di_MacAddress := snd r\<rparr>
      else d)"

lemma discover_update_eq:
  "discover_update D u = note_reading (GnmiPathToXPath D (GetPath u) True, GetStringVal (GetVal u))"
  by (rule HOL.ext) (simp add: discover_update_def note_reading_def Let_def)

lemma discover_loop_eq:
  "fold (\<lambda>notif d. fold (discover_update D) (GetUpdate notif) d) ns d =
     fold note_reading (concat (map (\<lambda>n. map (\<lambda>u. (GnmiPathToXPath D (GetPath u) True,
       GetStringVal (GetVal u))) (GetUpdate n)) ns)) d"
proof (induction ns arbitrary: d)
  case Nil
  then show ?case by simp
next
  case (Cons n ns)
  have "fold (discover_update D) us d = fold note_reading (map (\<lambda>u.
      (GnmiPathToXPath D (GetPath u) True, GetStringVal (GetVal u))) us) d" for us d
    by (induction us arbitrary: d) (simp_all add: discover_update_eq)
  with Cons show ?case by simp
qed

lemma fold_note_reading:
  "fold note_reading rs d = d\<lparr>
     di_SwVersion := (if di_SwVersion d = []
        then first_nonempty ''platform/control/software-version'' rs else di_SwVersion d),
     di_Platform := last (di_Platform d # map snd (filter (\<lambda>r. fst r = ''platform/chassis/type'') rs)),
     di_SerialNumber := last (di_SerialNumber d #
        map snd (filter (\<lambda>r. fst r = ''platform/chassis/serial-number'') rs)),
     di_MacAddress := last (di_MacAddress d #
        map snd (filter (\<lambda>r. fst r = ''platform/chassis/hw-mac-address'') rs))\<rparr>"
proof (induction rs arbitrary: d)
  case Nil
  then show ?case by (simp add: first_nonempty_def)
next
  case (Cons r rs)
  show ?case
    unfolding fold_simps Cons.IH
    by (simp add: note_reading_def first_nonempty_def)
qed

section \<open>The methods\<close>

definition discovery_request :: "('c, 'q, 'p, 'w, 'e, 'z) device_env_scheme \<Rightarrow> 'e error + 'q" where
  "discovery_request D = NewGetRequest D [OptPath ''/platform/control[slot=A]/software-version'',
     OptPath ''/platform/chassis'', OptEncoding ''ascii'', OptDataType ''state'']"

definition config_request :: "('c, 'q, 'p, 'w, 'e, 'z) device_env_scheme \<Rightarrow> 'e error + 'q" where
  "config_request D = NewGetRequest D [OptPath [], OptDataType ''config'', OptEncoding ''json_ietf'']"

definition single_value ::
  "('c, 'q, 'p, 'w, 'e, 'z) device_env_scheme \<Rightarrow> get_response option \<Rightarrow> (goval, 'e) result" where
  "single_value D rsp = (case GetNotification rsp of
      [n] \<Rightarrow> (case GetUpdate n of
          [u] \<Rightarrow> (case device_GetValue D (GetVal u) of Inl e \<Rightarrow> Err e | Inr v \<Rightarrow> Ok v)
        | _ \<Rightarrow> Err (ErrNew ''unexpected number of updates in GetResponse Notification''))
    | _ \<Rightarrow> Err (ErrNew ''unexpected number of Notifications in GetResponse''))"

lemma single_value_eq:
  "(let ns = GetNotification rsp
    in if length ns = 1 then
         (let upds = GetUpdate (ns ! 0)
          in if length upds = 1 then
               (case device_GetValue D (GetVal (upds ! 0)) of Inl e \<Rightarrow> Err e | Inr v \<Rightarrow> Ok v)
             else Err (ErrNew ''unexpected number of updates in GetResponse Notification''))
       else Err (ErrNew ''unexpected number of Notifications in GetResponse'')) = single_value D rsp"
  by (auto simp: single_value_def Let_def split: list.splits)

lemma single_value_Ok_iff:
  "single_value D rsp = Ok v \<longleftrightarrow> (\<exists>n u. GetNotification rsp = [n] \<and> GetUpdate n = [u] \<and>
     device_GetValue D (GetVal u) = Inr v)"
  unfolding single_value_def by (auto split: list.split sum.split)

interpretation discovery: device_query "discovery_request D" "target_Get D (s_target t)" Err Err
    "\<lambda>rsp. Ok (discovered D rsp)" "getDiscoveryInfo D t" for D t
proof
  show "getDiscoveryInfo D t w = (case discovery_request D of Inl e \<Rightarrow> (Err e, w)
      | Inr q \<Rightarrow> (case target_Get D (s_target t) q w of ((rsp, err), w') \<Rightarrow>
          (case err of Some e \<Rightarrow> Err e | None \<Rightarrow> Ok (discovered D rsp), w')))" for w
    by (simp add: getDiscoveryInfo_def discovery_request_def swVersionPath_def chassisPath_def
        get_device_def and_then_def discover_loop_eq fold_note_reading discovered_def readings_def
        last_reading_def split: sum.split prod.split option.split)
qed simp_all

interpretation config: device_query "config_request D" "target_Get D (s_target t)"
    "logged t errGnmiCreateGetRequest" "logged t errGnmiGet" "single_value D" "GetConfig D t" for D t
proof
  show "GetConfig D t w = (case config_request D of Inl e \<Rightarrow> (logged t errGnmiCreateGetRequest e, w)
      | Inr q \<Rightarrow> (case target_Get D (s_target t) q w of ((rsp, err), w') \<Rightarrow>
          (case err of Some e \<Rightarrow> logged t errGnmiGet e | None \<Rightarrow> single_value D rsp, w')))" for w
    unfolding GetConfig_def single_value_eq
    by (cases "s_log t") (simp_all add: config_request_def get_device_def and_then_def
        logged_def Debug_def split: sum.split prod.split option.split)
qed simp_all

interpretation gnmi_get: device_query "NewGetRequest D opts" "target_Get D (s_target t)"
    "logged t errGnmiCreateGetRequest" "logged t errGnmiGet" Ok "GNMIGet D t opts" for D t opts
proof
  show "GNMIGet D t opts w = (case NewGetRequest D opts of Inl e \<Rightarrow> (logged t errGnmiCreateGetRequest e, w)
      | Inr q \<Rightarrow> (case target_Get D (s_target t) q w of ((rsp, err), w') \<Rightarrow>
          (case err of Some e \<Rightarrow> logged t errGnmiGet e | None \<Rightarrow> Ok rsp, w')))" for w
    by (cases "s_log t") (simp_all add: GNMIGet_def get_device_def and_then_def logged_def Debug_def
        split: sum.split prod.split option.split)
qed simp_all

text \<open>
  C29. Discovery reports what the device said: with a logger set, \<open>Discover\<close> succeeds exactly when the
  request can be built and answered and the target has a configuration, and then it gives the first
  non-empty software version of any controller but the last chassis type, serial number and MAC
  address, in the order of the response, empty where the device said nothing.
\<close>

theorem Discover_reports:
  assumes "s_log t = Some l"
  shows "Discover D t w = (Ok d, w') \<longleftrightarrow>
    (\<exists>q rsp c name. discovery_request D = Inr q \<and>
       target_Get D (s_target t) q w = ((rsp, None), w') \<and> s_target t = Some c \<and>
       target_ConfigName D c = Some name \<and>
       d = \<lparr>di_VendorType = VendorTypeNokiaSRL D,
         di_SwVersion = first_nonempty ''platform/control/software-version'' (readings D rsp),
         di_Platform = last_reading ''platform/chassis/type'' (readings D rsp),
         di_SerialNumber = last_reading ''platform/chassis/serial-number'' (readings D rsp),
         di_MacAddress = last_reading ''platform/chassis/hw-mac-address'' (readings D rsp)\<rparr>)"
proof -
  have "Discover D t w = (Ok d, w') \<longleftrightarrow> getDiscoveryInfo D t w = (Ok d, w') \<and>
      (\<exists>c name. s_target t = Some c \<and> target_ConfigName D c = Some name)"
    using assms
    by (cases "s_target t"; cases "target_ConfigName D (the (s_target t))")
       (auto simp: Discover_def Debug_def and_then_def split: prod.splits result.splits)
  then show ?thesis
    by (auto simp: discovery.answered_iff discovered_def)
qed

text \<open>A device that always gives the same answer.\<close>

definition demo_reading :: "string \<Rightarrow> string \<Rightarrow> gnmi_update option" where
  "demo_reading name v = Some \<lparr>u_Path = Some (empty_path\<lparr>p_Elem :=
     [Some \<lparr>pe_Name = name, pe_Key = fmempty\<rparr>]\<rparr>), u_Val = Some (StringVal v)\<rparr>"

definition demo_answer :: get_response where
  "demo_answer = \<lparr>rsp_Notification = [Some \<lparr>n_Timestamp = 0, n_Update =
     [demo_reading ''platform/control/software-version'' '''',
      demo_reading ''platform/control/software-version'' ''v22.6'',
      demo_reading ''platform/chassis/type'' ''7220'',
      demo_reading ''platform/control/software-version'' ''v22.3''], n_Delete = []\<rparr>]\<rparr>"

definition demo_target_env :: "get_response \<Rightarrow> unit error option \<Rightarrow> (nat, unit, unit, nat, unit) device_env" where
  "demo_target_env rsp err = \<lparr>NewGetRequest = (\<lambda>opts. Inr ()),
     target_Get = (\<lambda>c q w. ((Some rsp, err), Suc w)),
     target_Set = (\<lambda>c r w. (((), err), Suc w)), target_Capabilities = (\<lambda>c w. (((), err), Suc w)),
     target_ConfigName = (\<lambda>c. Some ''leaf1''),
     GnmiPathToXPath = (\<lambda>p nokeys. concat (map GetName (GetElem p))),
     device_GetValue = (\<lambda>v. Inr (GString (GetStringVal v))), VendorTypeNokiaSRL = ''nokia-srl''\<rparr>"

theorem Discover_reports_witness:
  "Discover (demo_target_env demo_answer None) \<lparr>s_target = Some 1, s_log = Some ()\<rparr> 0 =
     (Ok \<lparr>di_VendorType = ''nokia-srl'', di_SwVersion = ''v22.6'', di_Platform = ''7220'',
       di_SerialNumber = '''', di_MacAddress = ''''\<rparr>, 1)"
  by (subst Discover_reports)
     (simp_all add: demo_target_env_def demo_answer_def demo_reading_def discovery_request_def
       readings_def first_nonempty_def last_reading_def)

text \<open>
  \<open>GetConfig\<close> returns a configuration only when the device answers with exactly one notification
  that holds exactly one update; anything else the device may answer is an error, and the logger is
  not needed for a success.
\<close>

lemma GetConfig_single:
  "GetConfig D t w = (Ok v, w') \<longleftrightarrow>
    (\<exists>q rsp n u. NewGetRequest D [OptPath [], OptDataType ''config'', OptEncoding ''json_ietf''] = Inr q \<and>
       target_Get D (s_target t) q w = ((rsp, None), w') \<and> GetNotification rsp = [n] \<and>
       GetUpdate n = [u] \<and> device_GetValue D (GetVal u) = Inr v)"
  unfolding config.answered_iff config_request_def single_value_Ok_iff by blast

text \<open>
  A device that does not answer is reported, but differently by each method: \<open>GetConfig\<close> and
  \<open>GNMIGet\<close> wrap the error, provided a logger is set, and crash without one; discovery and
  \<open>GNMISet\<close> return it as it is, \<open>GNMISet\<close> again only with a logger.  \<open>GNMISet\<close> never replaces: its
  request has just the given updates and deletes.
\<close>

lemma device_failures:
  assumes "discovery_request D = Inr q1" and "config_request D = Inr q2" and "NewGetRequest D opts = Inr q3"
    and "\<And>q. target_Get D (s_target t) q w = ((rsp, Some e), w')"
    and "target_Set D (s_target t)
       \<lparr>sr_Prefix = None, sr_Delete = ps, sr_Replace = [], sr_Update = us\<rparr> w = ((resp, Some e), w')"
  shows "getDiscoveryInfo D t w = (Err e, w') \<and>
    GetConfig D t w = (if s_log t = None then Panic NilDereference else Err (ErrWrap e ''gnmi get error ''), w') \<and>
    GNMIGet D t opts w = (if s_log t = None then Panic NilDereference else Err (ErrWrap e ''gnmi get error ''), w') \<and>
    GNMISet D t us ps w = (if s_log t = None then Panic NilDereference else Err e, w')"
  using discovery.no_response [OF assms(1,4)] config.no_response [OF assms(2,4)]
    gnmi_get.no_response [OF assms(3,4)] assms(5)
  by (cases "s_log t") (simp_all add: logged_def Debug_def GNMISet_def errGnmiGet_def)

lemma device_failures_witness:
  "GetConfig (demo_target_env demo_answer (Some (ErrExt ()))) \<lparr>s_target = Some 1, s_log = Some ()\<rparr> 0 =
     (Err (ErrWrap (ErrExt ()) ''gnmi get error ''), 1)"
  using device_failures [of "demo_target_env demo_answer (Some (ErrExt ()))" "()" "()" "[]" "()"
      "\<lparr>s_target = Some 1, s_log = Some ()\<rparr>" 0 "Some demo_answer" "ErrExt ()" 1 "[]" "[]" "()"]
  by (simp add: demo_target_env_def discovery_request_def config_request_def)

text \<open>
  A target is usable once it is initialised and not before: on a new one \<open>Discover\<close> and \<open>GNMICap\<close>
  crash before they reach the device, and the two options of \<open>Init\<close> can be given in either order.
\<close>

lemma Init_makes_usable:
  "Discover D New w = (Panic NilDereference, w) \<and> GNMICap D New w = (Panic NilDereference, w) \<and>
   Init [WithTarget c, WithLogging l] t = \<lparr>s_target = c, s_log = l\<rparr> \<and>
   Init [WithLogging l, WithTarget c] t = \<lparr>s_target = c, s_log = l\<rparr>"
  by (simp add: Discover_def GNMICap_def Debug_def New_def Init_def WithTarget_def WithLogging_def)

end
