(* ===== verification/Startup.thy ===== *)
theory Startup
  imports Device Models
begin

text \<open>
  The two programs of the repository, \<open>cmd/reconcilercmd\<close> and \<open>cmd/workercmd\<close>: the flags they take
  and what their \<open>start\<close> command does, as the sequence of calls it makes to the libraries.  A call
  that can fail says what becomes of the failure.  Loggers and other values that are only built and
  passed on are left out; of the goroutine that serves profiles there is its start.
\<close>

section \<open>Flags\<close>

datatype flag_value = FString string | FBool bool | FInt int | FDuration int \<comment> \<open>nanoseconds\<close>

record flag =
  fl_name :: string
  fl_shorthand :: string
  fl_default :: flag_value

definition flag :: "string \<Rightarrow> string \<Rightarrow> flag_value \<Rightarrow> flag" where
  "flag name shorthand value = \<lparr>fl_name = name, fl_shorthand = shorthand, fl_default = value\<rparr>"

definition root_flags :: "flag list" where
  "root_flags = [flag ''debug'' ''d'' (FBool False), flag ''profiler'' '''' (FBool False)]"

definition reconciler_flags :: "(string \<Rightarrow> string) \<Rightarrow> flag list" where
  "reconciler_flags getenv = [
     flag ''metrics-bind-address'' ''m'' (FString '':8080''),
     flag ''health-probe-bind-address'' ''p'' (FString '':8081''),
     flag ''leader-elect'' ''l'' (FBool False),
     flag ''concurrency'' '''' (FInt 1),
     flag ''poll-interval'' '''' (FDuration (10 * 60 * 10 ^ 9)),
     flag ''namespace'' ''n'' (FString (getenv ''POD_NAMESPACE'')),
     flag ''podname'' '''' (FString (getenv ''POD_NAME'')),
     flag ''grpc-server-address'' ''s'' (FString ''''),
     flag ''grpc-query-address'' '''' (FString ''''),
     flag ''service-discovery'' '''' (FString (getenv ''SERVICE_DISCOVERY'')),
     flag ''service-discovery-namespace'' '''' (FString (getenv ''SERVICE_DISCOVERY_NAMESPACE'')),
     flag ''service-discovery-dc-name'' '''' (FString (getenv ''SERVICE_DISCOVERY_DCNAME''))]"

definition worker_flags :: "(string \<Rightarrow> string) \<Rightarrow> flag list" where
  "worker_flags getenv = [
     flag ''metrics-bind-address'' ''m'' (FString '':8080''),
     flag ''health-probe-bind-address'' ''p'' (FString '':8081''),
     flag ''leader-elect'' ''l'' (FBool False),
     flag ''concurrency'' '''' (FInt 1),
     flag ''poll-interval'' '''' (FDuration (10 * 60 * 10 ^ 9)),
     flag ''namespace'' ''n'' (FString (getenv ''POD_NAMESPACE'')),
     flag ''podname'' '''' (FString (getenv ''POD_NAME'')),
     flag ''grpc-server-address'' ''s'' (FString ''''),
     flag ''grpc-query-address'' '''' (FString ''''),
     flag ''autopilot'' ''a'' (FBool True),
     flag ''service-discovery'' '''' (FString (getenv ''SERVICE_DISCOVERY'')),
     flag ''service-discovery-namespace'' '''' (FString (getenv ''SERVICE_DISCOVERY_NAMESPACE'')),
     flag ''service-discovery-dc-name'' '''' (FString (getenv ''SERVICE_DISCOVERY_DCNAME''))]"

text \<open>The package variables the flags are parsed into.\<close>

record options =
  debug :: bool
  profiler :: bool
  metricsAddr :: string
  probeAddr :: string
  enableLeaderElection :: bool
  concurrency :: int
  pollInterval :: int
  namespace :: string
  podname :: string
  grpcServerAddress :: string
  grpcQueryAddress :: string
  autoPilot :: bool  \<comment> \<open>a flag of the worker only\<close>
  serviceDiscoveryDcName :: string
  serviceDiscovery :: string
  serviceDiscoveryNamespace :: string

section \<open>Calls\<close>

record manager_options =
  m_MetricsBindAddress :: string
  m_WebhookPort :: "int option"
  m_Port :: int
  m_HealthProbeBindAddress :: string
  m_LeaderElection :: bool
  m_LeaderElectionID :: string

record controller_options =
  c_Poll :: int
  c_Namespace :: string
  c_MaxConcurrentReconciles :: int

text \<open>The handlers of the gRPC server, by the operation and the origin they serve.\<close>

datatype handler_kind = GetHandler | SetUpdateHandler | SetReplaceHandler | SetDeleteHandler
datatype handler = cache_Get | cache_Set | cache_Delete

type_synonym handler_table = "(handler_kind \<times> string) \<rightharpoonup> handler"

datatype health_call = HealthWatch | HealthCheck

datatype lib_call =
    SetLogger | ProfileStart | ProfileStop
  | GoListenAndServe string                    \<comment> \<open>in a goroutine\<close>
  | GetConfigOrDie
  | NewRegistrator string string string        \<comment> \<open>dc name, discovery kind, namespace\<close>
  | NewReconcilerController string             \<comment> \<open>address of the gRPC server\<close>
  | StartReconcilerController
  | RegisterInitializer string                 \<comment> \<open>vendor type\<close>
  | NewClient
  | NewCache
  | NewConfigTargetController string schema_model  \<comment> \<open>vendor type\<close>
  | NewConfigGnmiHandler
  | NewHealthHandler
  | NewGrpcServer string bool bool handler_table "health_call list"
      \<comment> \<open>address, does it serve gNMI and health, and with which handlers\<close>
  | NewTargetController
  | StartTargetController
  | NewManager manager_options
  | SetupSrl controller_options
  | SetupTarget controller_options
  | SetupWebhook
  | AddHealthzCheck string
  | AddReadyzCheck string
  | SetupSignalHandler
  | StartManager

text \<open>
  After a failed call: go on (the call cannot fail), end the process with status 1, return the error,
  or return it wrapped.
\<close>

datatype on_failure = Ignore | ExitOne | ReturnError | WrapError string

type_synonym start_step = "lib_call \<times> on_failure"

datatype 'e outcome = Returned "'e error option" | Exited int

text \<open>
  \<open>answers\<close> says how the last call of a history fares.  The history is what the process has done.
\<close>

fun run_steps ::
  "(lib_call list \<Rightarrow> 'e error option) \<Rightarrow> start_step list \<Rightarrow> lib_call list \<Rightarrow>
     'e outcome \<times> lib_call list" where
  "run_steps answers [] h = (Returned None, h)"
| "run_steps answers ((c, f) # ss) h =
     (case answers (h @ [c]) of
        None \<Rightarrow> run_steps answers ss (h @ [c])
      | Some e \<Rightarrow> (case f of
            Ignore \<Rightarrow> run_steps answers ss (h @ [c])
          | ExitOne \<Rightarrow> (Exited 1, h @ [c])
          | ReturnError \<Rightarrow> (Returned (Some e), h @ [c])
          | WrapError msg \<Rightarrow> (Returned (Some (ErrWrap e msg)), h @ [c])))"

text \<open>Deferred calls run when the function returns, not when the process exits.\<close>

definition with_deferred :: "lib_call list \<Rightarrow> 'e outcome \<times> lib_call list \<Rightarrow> 'e outcome \<times> lib_call list" where
  "with_deferred ds r = (case r of
      (Returned err, h) \<Rightarrow> (Returned err, h @ ds) | (Exited code, h) \<Rightarrow> (Exited code, h))"

section \<open>The start commands\<close>

text \<open>Constants of other packages: the gRPC port, the two origins, the vendor type.\<close>

record constants =
  k_GnmiServerPort :: int
  k_Config :: string
  k_System :: string
  k_VendorTypeNokiaSRL :: string

definition prologue :: "options \<Rightarrow> start_step list" where
  "prologue o' = (if debug o' then [(SetLogger, Ignore)] else []) @
     (if profiler o' then [(ProfileStart, Ignore), (GoListenAndServe '':8000'', Ignore)] else [])"

definition deferred :: "options \<Rightarrow> lib_call list" where
  "deferred o' = (if profiler o' then [ProfileStop] else [])"

definition reconciler_steps :: "constants \<Rightarrow> options \<Rightarrow> start_step list" where
  "reconciler_steps K o' = prologue o' @ [
     (GetConfigOrDie, ExitOne),
     (NewRegistrator (serviceDiscoveryDcName o') (serviceDiscovery o') (serviceDiscoveryNamespace o'),
        WrapError ''Cannot create registrator''),
     (GetConfigOrDie, ExitOne),
     (NewReconcilerController (CHR '':'' # dec_int (k_GnmiServerPort K)),
        WrapError ''Cannot create reconciler controller''),
     (StartReconcilerController, WrapError ''Cannot start reconciler controller''),
     (GetConfigOrDie, ExitOne),
     (NewManager \<lparr>m_MetricsBindAddress = metricsAddr o', m_WebhookPort = Some 9443, m_Port = 7443,
        m_HealthProbeBindAddress = probeAddr o', m_LeaderElection = enableLeaderElection o',
        m_LeaderElectionID = ''c66ce353.ndd.yndd.io''\<rparr>, WrapError ''Cannot add srlconfig manager''),
     (SetupSrl \<lparr>c_Poll = pollInterval o', c_Namespace = namespace o',
        c_MaxConcurrentReconciles = concurrency o'\<rparr>, WrapError ''Cannot add ndd controllers to manager''),
     (SetupWebhook, WrapError ''unable to create webhook for srl config''),
     (AddHealthzCheck ''health'', WrapError ''unable to set up health check''),
     (AddReadyzCheck ''check'', WrapError ''unable to set up ready check''),
     (SetupSignalHandler, Ignore),
     (StartManager, WrapError ''problem running manager'')]"

definition start_reconciler ::
  "(lib_call list \<Rightarrow> 'e error option) \<Rightarrow> constants \<Rightarrow> options \<Rightarrow> 'e outcome \<times> lib_call list" where
  "start_reconciler answers K o' = with_deferred (deferred o') (run_steps answers (reconciler_steps K o') [])"

text \<open>The handler options of \<open>grpcserver.New\<close>; a later one for the same key would win.\<close>

definition worker_handlers :: "constants \<Rightarrow> handler_table" where
  "worker_handlers K = Map.empty
     ((GetHandler, k_Config K) \<mapsto> cache_Get,
      (SetUpdateHandler, k_Config K) \<mapsto> cache_Set,
      (SetReplaceHandler, k_Config K) \<mapsto> cache_Set,
      (SetDeleteHandler, k_Config K) \<mapsto> cache_Delete,
      (GetHandler, k_System K) \<mapsto> cache_Get,
      (SetUpdateHandler, k_System K) \<mapsto> cache_Set,
      (SetReplaceHandler, k_System K) \<mapsto> cache_Set,
      (SetDeleteHandler, k_System K) \<mapsto> cache_Delete)"

definition worker_steps :: "constants \<Rightarrow> options \<Rightarrow> start_step list" where
  "worker_steps K o' = prologue o' @ [
     (GetConfigOrDie, ExitOne),
     (NewRegistrator (serviceDiscoveryDcName o') (serviceDiscovery o') (serviceDiscoveryNamespace o'),
        WrapError ''Cannot create registrator''),
     (RegisterInitializer (k_VendorTypeNokiaSRL K), Ignore),
     (GetConfigOrDie, ExitOne),
     (NewClient, WrapError ''Cannot create client''),
     (NewCache, Ignore),
     (GetConfigOrDie, ExitOne),
     (NewConfigTargetController (k_VendorTypeNokiaSRL K) worker_model, Ignore),
     (NewConfigGnmiHandler, Ignore),
     (NewHealthHandler, Ignore),
     (NewGrpcServer (CHR '':'' # dec_int (k_GnmiServerPort K)) True True (worker_handlers K)
        [HealthWatch, HealthCheck], Ignore),
     (NewTargetController, Ignore),
     (StartTargetController, ReturnError),
     (GetConfigOrDie, ExitOne),
     (NewManager \<lparr>m_MetricsBindAddress = metricsAddr o', m_WebhookPort = None, m_Port = 7443,
        m_HealthProbeBindAddress = probeAddr o', m_LeaderElection = enableLeaderElection o',
        m_LeaderElectionID = ''c66ce353.ndd.yndd.io''\<rparr>, WrapError ''Cannot create manager''),
     (SetupTarget \<lparr>c_Poll = pollInterval o', c_Namespace = namespace o',
        c_MaxConcurrentReconciles = concurrency o'\<rparr>, WrapError ''Cannot add target to manager''),
     (AddHealthzCheck ''health'', WrapError ''unable to set up health check''),
     (AddReadyzCheck ''check'', WrapError ''unable to set up ready check''),
     (SetupSignalHandler, Ignore),
     (StartManager, WrapError ''problem running manager'')]"

definition start_worker ::
  "(lib_call list \<Rightarrow> 'e error option) \<Rightarrow> constants \<Rightarrow> options \<Rightarrow> 'e outcome \<times> lib_call list" where
  "start_worker answers K o' = with_deferred (deferred o') (run_steps answers (worker_steps K o') [])"

text \<open>\<open>Execute\<close> of \<open>root.go\<close>, called by \<open>main\<close>: the exit status of the process.\<close>

definition Execute :: "'e outcome \<times> lib_call list \<Rightarrow> int" where
  "Execute r = (case fst r of Returned None \<Rightarrow> 0 | Returned (Some err) \<Rightarrow> 1 | Exited code \<Rightarrow> code)"

section \<open>Running a sequence\<close>

text \<open>The step after which a run ends early: the first that fails with consequences.\<close>

definition fatal :: "(lib_call list \<Rightarrow> 'e error option) \<Rightarrow> lib_call list \<Rightarrow> start_step \<Rightarrow> bool" where
  "fatal answers h s \<longleftrightarrow> answers (h @ [fst s]) \<noteq> None \<and> snd s \<noteq> Ignore"

definition ended_by :: "'e error \<Rightarrow> on_failure \<Rightarrow> 'e outcome" where
  "ended_by e f = (case f of Ignore \<Rightarrow> Returned None | ExitOne \<Rightarrow> Exited 1
     | ReturnError \<Rightarrow> Returned (Some e) | WrapError msg \<Rightarrow> Returned (Some (ErrWrap e msg)))"

lemma run_steps_cases:
  obtains "run_steps answers ss h = (Returned None, h @ map fst ss)"
    "\<And>pre s post. ss = pre @ s # post \<Longrightarrow> \<not> fatal answers (h @ map fst pre) s"
  | pre s post e where "ss = pre @ s # post" "answers (h @ map fst pre @ [fst s]) = Some e"
    "snd s \<noteq> Ignore" "run_steps answers ss h = (ended_by e (snd s), h @ map fst pre @ [fst s])"
    "\<And>p t q. pre = p @ t # q \<Longrightarrow> \<not> fatal answers (h @ map fst p) t"
proof (induction ss arbitrary: h thesis)
  case Nil
  then show ?case by simp
next
  case (Cons s ss)
  obtain c f where s: "s = (c, f)" by (cases s)
  show ?case
  proof (cases "fatal answers h s")
    case True
    then obtain e where "answers (h @ [c]) = Some e" "f \<noteq> Ignore"
      by (auto simp: fatal_def s)
    then show ?thesis
      using Cons.prems(2) [of "[]" s ss e] by (cases f) (auto simp: s ended_by_def)
  next
    case False
    then have step: "run_steps answers (s # ss) h = run_steps answers ss (h @ [c])"
      by (auto simp: fatal_def s split: option.splits)
    show ?thesis
    proof (rule Cons.IH [of "h @ [c]"])
      assume done': "run_steps answers ss (h @ [c]) = (Returned None, (h @ [c]) @ map fst ss)"
        and none: "\<And>pre t post. ss = pre @ t # post \<Longrightarrow> \<not> fatal answers ((h @ [c]) @ map fst pre) t"
      show ?thesis
      proof (rule Cons.prems(1))
        show "\<not> fatal answers (h @ map fst pre) t" if "s # ss = pre @ t # post" for pre t post
          using that none False by (cases pre) (auto simp: s)
      qed (use done' step s in simp)
    next
      fix pre t post e
      assume early: "ss = pre @ t # post" "answers ((h @ [c]) @ map fst pre @ [fst t]) = Some e"
        "snd t \<noteq> Ignore"
        "run_steps answers ss (h @ [c]) = (ended_by e (snd t), (h @ [c]) @ map fst pre @ [fst t])"
        and none: "\<And>p u q. pre = p @ u # q \<Longrightarrow> \<not> fatal answers ((h @ [c]) @ map fst p) u"
      have "\<not> fatal answers (h @ map fst p) u" if "s # pre = p @ u # q" for p u q
        using that none False by (cases p) (auto simp: s)
      with early step show ?thesis
        by (intro Cons.prems(2) [of "s # pre" t post e]) (auto simp: s)
    qed
  qed
qed

text \<open>
  A start sequence ends with the manager, starts it once, and gives each failure it wraps its own
  message.
\<close>

definition run_program ::
  "start_step list \<Rightarrow> lib_call list \<Rightarrow> (lib_call list \<Rightarrow> 'e error option) \<Rightarrow> 'e outcome \<times> lib_call list" where
  "run_program steps ds answers = with_deferred ds (run_steps answers steps [])"

locale start_sequence =
  fixes steps :: "start_step list" and ds :: "lib_call list"
  assumes manager: "\<exists>pre msg. steps = pre @ [(StartManager, WrapError msg)] \<and> StartManager \<notin> set (map fst pre)"
    and manager_not_deferred: "StartManager \<notin> set ds"
    and messages: "(c, WrapError msg) \<in> set steps \<Longrightarrow> (c', WrapError msg) \<in> set steps \<Longrightarrow> c = c'"
begin

lemma before_manager:
  assumes "steps = pre @ s # post" "post \<noteq> []"
  shows "StartManager \<notin> set (map fst pre @ [fst s])"
proof -
  obtain body msg where body: "steps = body @ [(StartManager, WrapError msg)]"
    "StartManager \<notin> set (map fst body)" using manager by blast
  with assms have "set (pre @ [s]) \<subseteq> set body"
    by (cases post rule: rev_cases) auto
  with body(2) show ?thesis by auto
qed

lemma nil_iff:
  "fst (run_program steps ds answers) = Returned None \<longleftrightarrow>
     (\<forall>pre s post. steps = pre @ s # post \<longrightarrow> \<not> fatal answers (map fst pre) s)"
proof (cases rule: run_steps_cases [of answers steps "[]"])
  case 1
  then show ?thesis by (auto simp: run_program_def with_deferred_def)
next
  case (2 pre s post e)
  then have "fatal answers (map fst pre) s" by (simp add: fatal_def)
  moreover have "fst (run_program steps ds answers) \<noteq> Returned None"
    using 2(3,4) by (cases "snd s") (simp_all add: run_program_def with_deferred_def ended_by_def)
  ultimately show ?thesis using 2(1) by blast
qed

lemma stops_at:
  assumes "steps = pre @ s # post" "\<And>p t q. pre = p @ t # q \<Longrightarrow> \<not> fatal answers (map fst p) t"
    and "answers (map fst pre @ [fst s]) = Some e" "snd s \<noteq> Ignore"
  shows "run_program steps ds answers = with_deferred ds (ended_by e (snd s), map fst pre @ [fst s])"
proof -
  have "run_steps answers (pre @ s # post) h = (ended_by e (snd s), h @ map fst pre @ [fst s])"
    if "\<And>p t q. pre = p @ t # q \<Longrightarrow> \<not> fatal answers (h @ map fst p) t"
      "answers (h @ map fst pre @ [fst s]) = Some e" for h
    using that
  proof (induction pre arbitrary: h)
    case Nil
    then show ?case using assms(4) by (cases s; cases "snd s") (auto simp: ended_by_def)
  next
    case (Cons t pre)
    obtain c f where t: "t = (c, f)" by (cases t)
    have "\<not> fatal answers h t" using Cons.prems(1) [of "[]" t pre] by simp
    then have "run_steps answers ((t # pre) @ s # post) h = run_steps answers (pre @ s # post) (h @ [c])"
      by (auto simp: fatal_def t split: option.splits)
    also have "\<dots> = (ended_by e (snd s), (h @ [c]) @ map fst pre @ [fst s])"
    proof (rule Cons.IH)
      show "\<not> fatal answers ((h @ [c]) @ map fst p) u" if "pre = p @ u # q" for p u q
        using Cons.prems(1) [of "t # p" u q] that by (simp add: t)
      show "answers ((h @ [c]) @ map fst pre @ [fst s]) = Some e"
        using Cons.prems(2) by (simp add: t)
    qed
    finally show ?case by (simp add: t)
  qed
  from this [of "[]"] assms show ?thesis by (simp add: run_program_def)
qed

end

interpretation reconciler: start_sequence "reconciler_steps K o'" "deferred o'" for K o'
proof
  show "\<exists>pre msg. reconciler_steps K o' = pre @ [(StartManager, WrapError msg)] \<and>
      StartManager \<notin> set (map fst pre)"
    by (rule exI [of _ "butlast (reconciler_steps K o')"], rule exI [of _ "''problem running manager''"])
       (auto simp: reconciler_steps_def prologue_def butlast_append)
qed (auto simp: deferred_def reconciler_steps_def prologue_def split: if_splits)

interpretation worker: start_sequence "worker_steps K o'" "deferred o'" for K o'
proof
  show "\<exists>pre msg. worker_steps K o' = pre @ [(StartManager, WrapError msg)] \<and>
      StartManager \<notin> set (map fst pre)"
    by (rule exI [of _ "butlast (worker_steps K o')"], rule exI [of _ "''problem running manager''"])
       (auto simp: worker_steps_def prologue_def butlast_append)
qed (auto simp: deferred_def worker_steps_def prologue_def split: if_splits)

text \<open>Both programs, with the sequence of each.\<close>

definition programs ::
  "constants \<Rightarrow> options \<Rightarrow> (lib_call list \<Rightarrow> 'e error option) \<Rightarrow>
     (start_step list \<times> ('e outcome \<times> lib_call list)) list" where
  "programs K o' answers = [(reconciler_steps K o', start_reconciler answers K o'),
     (worker_steps K o', start_worker answers K o')]"

lemma programs_run:
  assumes "(steps, r) \<in> set (programs K o' answers)"
  shows "r = run_program steps (deferred o') answers \<and> start_sequence steps (deferred o')"
  using assms reconciler.start_sequence_axioms worker.start_sequence_axioms
  by (auto simp: programs_def start_reconciler_def start_worker_def run_program_def)


text \<open>A reconciler whose webhook cannot be set up.\<close>

definition demo_options :: options where
  "demo_options = \<lparr>debug = False, profiler = True, metricsAddr = '':8080'', probeAddr = '':8081'',
     enableLeaderElection = False, concurrency = 1, pollInterval = 600, namespace = [], podname = [],
     grpcServerAddress = [], grpcQueryAddress = [], autoPilot = True, serviceDiscoveryDcName = [],
     serviceDiscovery = [], serviceDiscoveryNamespace = []\<rparr>"

definition demo_constants :: constants where
  "demo_constants = \<lparr>k_GnmiServerPort = 9999, k_Config = ''config'', k_System = ''system'',
     k_VendorTypeNokiaSRL = ''nokia-srl''\<rparr>"

definition demo_webhook_fails :: "lib_call list \<Rightarrow> unit error option" where
  "demo_webhook_fails h = (if last h = SetupWebhook then Some (ErrExt ()) else None)"


text \<open>
  A program ends well exactly when every call whose failure it does not ignore succeeds: only then
  \<open>start\<close> returns nil and the process exits with status 0; and then every call was made, in the order of
  the code.
\<close>

lemma start_succeeds_iff:
  assumes "(steps, r) \<in> set (programs K o' answers)"
  shows "(Execute r = 0 \<longleftrightarrow> (\<forall>pre s post. steps = pre @ s # post \<longrightarrow> \<not> fatal answers (map fst pre) s)) \<and>
    (Execute r = 0 \<longrightarrow> snd r = map fst steps @ deferred o')"
proof -
  have seq: "start_sequence steps (deferred o')" and run: "r = run_program steps (deferred o') answers"
    using programs_run [OF assms(1)] by simp_all
  have zero: "Execute r = 0 \<longleftrightarrow> fst r = Returned None"
  proof (cases rule: run_steps_cases [of answers steps "[]"])
    case 1
    then show ?thesis by (simp add: run run_program_def with_deferred_def Execute_def)
  next
    case (2 pre s post e)
    then show ?thesis
      by (cases "snd s") (simp_all add: run run_program_def with_deferred_def Execute_def ended_by_def)
  qed
  moreover have "snd r = map fst steps @ deferred o'" if "fst r = Returned None"
  proof (cases rule: run_steps_cases [of answers steps "[]"])
    case 1
    then show ?thesis by (simp add: run run_program_def with_deferred_def)
  next
    case (2 pre s post e)
    with that show ?thesis
      by (cases "snd s") (simp_all add: run run_program_def with_deferred_def ended_by_def)
  qed
  ultimately show ?thesis
    using start_sequence.nil_iff [OF seq, of answers] by (simp add: run)
qed

section \<open>What is configured\<close>

text \<open>
  The flags of either program can be registered: no two flags, those of the root command
  included, share a name or a shorthand, which cobra would answer with a panic; and the worker has
  the flags of the reconciler and \<open>autopilot\<close>.  The pod name, the two gRPC addresses and
  \<open>autopilot\<close> do not change anything that either program does.
\<close>

lemma flags_registrable:
  "distinct (map fl_name (root_flags @ worker_flags getenv)) \<and>
   distinct (filter (\<lambda>x. x \<noteq> []) (map fl_shorthand (root_flags @ worker_flags getenv))) \<and>
   set (worker_flags getenv) = insert (flag ''autopilot'' ''a'' (FBool True)) (set (reconciler_flags getenv)) \<and>
   distinct (map fl_name (root_flags @ reconciler_flags getenv)) \<and>
   start_worker answers K (o'\<lparr>podname := p, grpcServerAddress := a, grpcQueryAddress := q, autoPilot := b\<rparr>) =
     start_worker answers K o' \<and>
   start_reconciler answers K (o'\<lparr>podname := p, grpcServerAddress := a, grpcQueryAddress := q, autoPilot := b\<rparr>) =
     start_reconciler answers K o'"
  by (auto simp: root_flags_def worker_flags_def reconciler_flags_def flag_def start_worker_def
      start_reconciler_def worker_steps_def reconciler_steps_def prologue_def deferred_def)

end
