(* ===== verification/Process.thy ===== *)
theory Process
  imports Startup Registration
begin

text \<open>
  The two programs as processes: \<open>init\<close> of \<open>root.go\<close> fills the scheme, \<open>main\<close> executes the root command,
  and the process ends with a status.  The command line library belongs to another repository; what it
  makes of the arguments, given the commands and their flags, is a parameter.
\<close>

section \<open>Commands\<close>

record command =
  cm_Use :: string
  cm_Short :: string
  cm_Long :: string
  cm_Aliases :: "string list"
  cm_SilenceUsage :: bool
  cm_Flags :: "flag list"

definition reconciler_root :: command where
  "reconciler_root = \<lparr>cm_Use = ''manager'', cm_Short = ''config srl reconciler'', cm_Long = [],
     cm_Aliases = [], cm_SilenceUsage = True, cm_Flags = root_flags\<rparr>"

definition worker_root :: command where
  "worker_root = \<lparr>cm_Use = ''manager'', cm_Short = ''srl config worker'', cm_Long = [],
     cm_Aliases = [], cm_SilenceUsage = True,
     cm_Flags = [flag ''debug'' ''d'' (FBool False), flag ''profiler'' '''' (FBool False)]\<rparr>"

definition reconciler_start :: "(string \<Rightarrow> string) \<Rightarrow> command" where
  "reconciler_start getenv = \<lparr>cm_Use = ''start'', cm_Short = ''start srl config reconciler'',
     cm_Long = ''start srl config reconciler'', cm_Aliases = [''start''], cm_SilenceUsage = True,
     cm_Flags = reconciler_flags getenv\<rparr>"

definition worker_start :: "(string \<Rightarrow> string) \<Rightarrow> command" where
  "worker_start getenv = \<lparr>cm_Use = ''start'', cm_Short = ''start srl config worker'',
     cm_Long = ''start srl config worker'', cm_Aliases = [''start''], cm_SilenceUsage = True,
     cm_Flags = worker_flags getenv\<rparr>"

text \<open>
  What the arguments ask for: the help of the root command, which has nothing to run itself; nothing
  that can be done; or \<open>start\<close>, with the values of the flags.
\<close>

datatype 'e invocation = Help | Misuse "'e error" | Start options

section \<open>Processes\<close>

text \<open>
  A process that has only the commands \<open>root\<close> and \<open>start\<close>: its exit status and the calls \<open>start\<close> made.  A
  panic in \<open>init\<close> ends a Go process with status 2.
\<close>

definition process ::
  "'s option \<Rightarrow> 'e invocation \<Rightarrow> (options \<Rightarrow> 'e outcome \<times> lib_call list) \<Rightarrow> int \<times> lib_call list" where
  "process initialised invoked run =
     (case initialised of
        None \<Rightarrow> (2, [])
      | Some s \<Rightarrow> (let r = (case invoked of
              Help \<Rightarrow> (Returned None, []) | Misuse e \<Rightarrow> (Returned (Some e), []) | Start o' \<Rightarrow> run o')
          in (Execute r, snd r)))"

definition reconciler_main ::
  "(api_group \<Rightarrow> 's \<Rightarrow> 'e error option \<times> 's) \<Rightarrow> 's \<Rightarrow> (command \<Rightarrow> command \<Rightarrow> 'e invocation) \<Rightarrow>
     (string \<Rightarrow> string) \<Rightarrow> (lib_call list \<Rightarrow> 'e error option) \<Rightarrow> constants \<Rightarrow> int \<times> lib_call list" where
  "reconciler_main AddToScheme scheme cobra getenv answers K =
     process (init_scheme AddToScheme reconciler_groups scheme)
       (cobra reconciler_root (reconciler_start getenv)) (start_reconciler answers K)"

definition worker_main ::
  "(api_group \<Rightarrow> 's \<Rightarrow> 'e error option \<times> 's) \<Rightarrow> 's \<Rightarrow> (command \<Rightarrow> command \<Rightarrow> 'e invocation) \<Rightarrow>
     (string \<Rightarrow> string) \<Rightarrow> (lib_call list \<Rightarrow> 'e error option) \<Rightarrow> constants \<Rightarrow> int \<times> lib_call list" where
  "worker_main AddToScheme scheme cobra getenv answers K =
     process (init_scheme AddToScheme worker_groups scheme)
       (cobra worker_root (worker_start getenv)) (start_worker answers K)"

text \<open>
  Both processes, with the groups of the scheme, what the command line asks for, and the steps of
  \<open>start\<close>.
\<close>

definition processes ::
  "(api_group \<Rightarrow> 's \<Rightarrow> 'e error option \<times> 's) \<Rightarrow> 's \<Rightarrow> (command \<Rightarrow> command \<Rightarrow> 'e invocation) \<Rightarrow>
     (string \<Rightarrow> string) \<Rightarrow> (lib_call list \<Rightarrow> 'e error option) \<Rightarrow> constants \<Rightarrow>
     (api_group list \<times> 'e invocation \<times> (options \<Rightarrow> start_step list) \<times> (int \<times> lib_call list)) list" where
  "processes AddToScheme scheme cobra getenv answers K =
     [(reconciler_groups, cobra reconciler_root (reconciler_start getenv), reconciler_steps K,
         reconciler_main AddToScheme scheme cobra getenv answers K),
      (worker_groups, cobra worker_root (worker_start getenv), worker_steps K,
         worker_main AddToScheme scheme cobra getenv answers K)]"

section \<open>The exit status\<close>

lemma Execute_le_1: "Execute (run_program steps ds answers) \<in> {0, 1}"
proof (cases rule: run_steps_cases [of answers steps "[]"])
  case 1
  then show ?thesis by (simp add: run_program_def with_deferred_def Execute_def)
next
  case (2 pre s post e)
  then show ?thesis
    by (cases "snd s") (simp_all add: run_program_def with_deferred_def Execute_def ended_by_def)
qed

lemma processes_run:
  assumes "(groups, invoked, steps, r) \<in> set (processes AddToScheme scheme cobra getenv answers K)"
  obtains run where "r = process (init_scheme AddToScheme groups scheme) invoked run"
    "\<And>o'. (steps o', run o') \<in> set (programs K o' answers)"
  using assms that [of "start_reconciler answers K"] that [of "start_worker answers K"]
  by (auto simp: processes_def reconciler_main_def worker_main_def programs_def)


text \<open>A worker whose manager cannot be made.\<close>

definition demo_manager_fails :: "lib_call list \<Rightarrow> unit error option" where
  "demo_manager_fails h = (case last h of NewManager m \<Rightarrow> Some (ErrExt ()) | _ \<Rightarrow> None)"


end
