(* ===== verification/System.thy ===== *)
theory System
  imports Connect Validator_Diff Startup
begin

text \<open>
  What the parts make together: the reconciler's requests against the worker's handlers, all operations
  on a resource of another kind, and a write followed by the reads and the judgement of the next
  reconcile.
\<close>

section \<open>Requests and handlers\<close>

text \<open>
  The worker serves what the reconciler asks: it listens on the port that \<open>Connect\<close> dials, and for
  the origin in the prefix of each request that the external client makes it has a handler for the
  kind of that request, backed by the same cache.
\<close>

lemma requests_have_handlers:
  assumes "k_GnmiServerPort K = GnmiServerPort C" and "k_System K = origin_System E"
    and "k_Config K = origin_Config E"
  shows "(\<exists>addr host. (NewGrpcServer addr True True (worker_handlers K) [HealthWatch, HealthCheck], Ignore) \<in> set (worker_steps K o') \<and>
       worker_address C = host @ addr) \<and>
     (\<exists>p. sr_Prefix (entry_request E mg ref ups) = Some p \<and>
        worker_handlers K (SetReplaceHandler, p_Origin p) = Some cache_Set) \<and>
     (\<forall>origin \<in> {origin_System E, origin_Config E}.
        \<exists>p. gr_Prefix (read_request E origin mg ref) = Some p \<and>
          worker_handlers K (GetHandler, p_Origin p) = Some cache_Get)"
  using assms
  by (auto simp: worker_steps_def worker_address_def Let_def entry_request_def read_request_def
      worker_handlers_def)

lemma requests_have_handlers_witness:
  "\<exists>p. sr_Prefix (entry_request demo_env (demo_with ''{}'') \<lparr>ref_Name = ''leaf1''\<rparr> []) = Some p \<and>
     worker_handlers demo_constants (SetReplaceHandler, p_Origin p) = Some cache_Set"
  using requests_have_handlers [of demo_constants demo_connector demo_env demo_options "demo_with ''{}''"
      "\<lparr>ref_Name = ''leaf1''\<rparr>" "[]"]
  by (simp add: demo_constants_def demo_connector_def)

section \<open>Resources of other kinds\<close>

text \<open>
  C37. Handed a resource of another type, the provider touches neither the cluster nor the worker: every
  judgement of a spec and \<open>Connect\<close> answer the error for an unexpected resource, and the three writes
  the same error, as a failed creation.  The two reads and \<open>GetCrStatus\<close> make no such check, they only
  look at the resource's namespace and target reference and at its name in the cache: any two
  resources that agree there are answered alike.
\<close>

theorem foreign_resource_rejected:
  "ValidateCrSpecUpdate E (ManagedOther o') running = Err (ErrNew errUnexpectedDevice) \<and>
   ValidateCrSpecDelete E (ManagedOther o') running = Err (ErrNew errUnexpectedDevice) \<and>
   GetCrSpecDiff E (ManagedOther o') sys = Err (ErrNew errUnexpectedDevice) \<and>
   GetCrActualDiff E (ManagedOther o') running = Err (ErrNew errUnexpectedDevice) \<and>
   ValidatorRootPaths E now (ManagedOther o') = Err (ErrNew errUnexpectedDevice) \<and>
   Connect C (ManagedOther o') k = (Err (ErrNew errUnexpectedDevice), k) \<and>
   map (\<lambda>(put, action, msg). put (ManagedOther o') obs w) (writes E) =
     replicate 3 (Err (ErrWrap (ErrNew errUnexpectedDevice) errCreateDevice), w) \<and>
   (mg_Namespace mg = mg_Namespace mg' \<and> mg_TargetReference mg = mg_TargetReference mg' \<and>
      GetGvkName E mg = GetGvkName E mg' \<longrightarrow>
    GetSystemConfig E mg w = GetSystemConfig E mg' w \<and> GetRunningConfig E mg w = GetRunningConfig E mg' w \<and>
    GetCrStatus E mg sys = GetCrStatus E mg' sys)"
proof -
  have entry: "getGvkUpate E (ManagedOther o') obs action = Err (ErrNew errUnexpectedDevice)" for action
    by (rule gvk_entry.foreign) simp
  have "map (\<lambda>(put, action, msg). put (ManagedOther o') obs w) (writes E) =
      replicate 3 (Err (ErrWrap (ErrNew errUnexpectedDevice) errCreateDevice), w)"
    by (simp add: writes_def numeral_3_eq_3 create.unbuilt [OF entry] update.unbuilt [OF entry]
        delete.unbuilt [OF entry])
  moreover have "Connect C (ManagedOther o') k = (Err (ErrNew errUnexpectedDevice), k)"
    by (simp add: Connect_def)
  moreover have "GetSystemConfig E mg w = GetSystemConfig E mg' w \<and> GetRunningConfig E mg w = GetRunningConfig E mg' w \<and>
      GetCrStatus E mg sys = GetCrStatus E mg' sys"
    if "mg_Namespace mg = mg_Namespace mg'" "mg_TargetReference mg = mg_TargetReference mg'"
      "GetGvkName E mg = GetGvkName E mg'"
    using that by (simp add: GetSystemConfig_def GetRunningConfig_def GetCrStatus_def cong: if_cong)
  ultimately show ?thesis
    by (simp add: spec_update.foreign spec_delete.foreign spec_diff.foreign actual_diff.foreign
        validator_paths.foreign)
qed

theorem foreign_resource_rejected_witness:
  "GetSystemConfig demo_env (ManagedOther \<lparr>om_Name = ''other'', om_Namespace = mg_Namespace (demo_with ''{}''),
       om_TargetReference = Some \<lparr>ref_Name = ''leaf1''\<rparr>, om_RootPaths = []\<rparr>) demo_world =
     GetSystemConfig demo_env (demo_with ''{}'') demo_world"
  using foreign_resource_rejected [of demo_env _ _ _ _ demo_connector _ _ demo_world
      "ManagedOther \<lparr>om_Name = ''other'', om_Namespace = mg_Namespace (demo_with ''{}''),
        om_TargetReference = Some \<lparr>ref_Name = ''leaf1''\<rparr>, om_RootPaths = []\<rparr>" "demo_with ''{}''"]
  by simp

section \<open>A write and the next reconcile\<close>

text \<open>
  The worker keeps the entry \<open>g\<close>: the system tree it answers for the resource's target, unmarshalled,
  has \<open>g\<close> as the resource's entry and is not exhausted.
\<close>

definition worker_keeps ::
  "('s, 'r, 'w, 'e, 'z) client_env_scheme \<Rightarrow> managed \<Rightarrow> 'w \<Rightarrow> gvk \<Rightarrow> bool" where
  "worker_keeps E mg w g \<longleftrightarrow> (\<forall>ref. mg_TargetReference mg = Some ref \<longrightarrow>
     (\<exists>rsp n ns u us v data s d c w'.
        client_Get E w (read_request E (origin_System E) mg ref) = ((Some rsp, None), w') \<and>
        rsp_Notification rsp = n # ns \<and> GetUpdate n = Some u # us \<and>
        GetValue E (u_Val u) = Inr v \<and> v \<noteq> GNil \<and> json_marshal v = (Ok data :: (bytes, 'e) result) \<and>
        SystemConfigStruct E data True = Inr s \<and> as_system_device E s = Some d \<and>
        sd_Cache d = Some c \<and> sc_Exhausted c = Some 0 \<and>
        fmlookup (sd_Gvk d) (GetGvkName E mg) = Some (Some g)))"

lemma kept_entry_observed:
  fixes E :: "('s, 'r, 'w, 'e, 'z) client_env_scheme"
  assumes "worker_keeps E (ManagedSrl cr) w g" and ref: "mg_TargetReference (ManagedSrl cr) = Some ref"
    and g: "gvk_Status g = Status_PENDING" "gvk_Spec g = Some spec"
    and parse: "NewConfigStruct E spec False = Inr s" "NewConfigStruct E (raw_bytes cr) False = Inr s"
    and same: "Diff E s s = Inr (\<lparr>np_Update = [], np_Delete = []\<rparr>, h)"
  shows "\<exists>d w'. GetSystemConfig E (ManagedSrl cr) w = (Ok (Some d), w') \<and>
    GetCrStatus E (ManagedSrl cr) (Some d) = Ok (zero_observation\<lparr>co_Exists := True, co_Pending := True\<rparr>) \<and>
    GetCrSpecDiff E (ManagedSrl cr) (Some d) = Ok \<lparr>sd_Deletes = [], sd_Updates = []\<rparr>"
proof -
  let ?mg = "ManagedSrl cr"
  obtain rsp n ns u us v data sys d c w2 where read:
    "client_Get E w (read_request E (origin_System E) ?mg ref) = ((Some rsp, None), w2)"
    "rsp_Notification rsp = n # ns" "GetUpdate n = Some u # us" "GetValue E (u_Val u) = Inr v" "v \<noteq> GNil"
    "json_marshal v = (Ok data :: (bytes, 'e) result)" "SystemConfigStruct E data True = Inr sys"
    "as_system_device E sys = Some d"
    and d: "sd_Cache d = Some c" "sc_Exhausted c = Some 0" "fmlookup (sd_Gvk d) (GetGvkName E ?mg) = Some (Some g)"
    using assms(1) [unfolded worker_keeps_def, rule_format, OF ref]
    by (elim exE conjE) (rule that)
  have "GetSystemConfig E ?mg w = (Ok (Some d), w2)"
    using ref read by (simp add: system_reader.outcome first_value_def is_unavailable_def decode_system_def)
  moreover have "GetCrStatus E ?mg (Some d) = Ok (zero_observation\<lparr>co_Exists := True, co_Pending := True\<rparr>)"
    using d g(1) by (simp add: GetCrStatus_eq entry_status_def)
  moreover have "GetCrSpecDiff E ?mg (Some d) = Ok \<lparr>sd_Deletes = [], sd_Updates = []\<rparr>"
    using d g(2) parse same by (simp add: GetCrSpecDiff_def validateNotification_def)
  ultimately show ?thesis by blast
qed


text \<open>
  The worker of the example, with an encoder for the entry of one resource and a parser that takes the
  JSON document \<open>{}\<close>, however it is written.
\<close>

definition demo_encoder :: "gvk \<Rightarrow> unit error + string" where
  "demo_encoder g = (if g = demo_entry_of ''{}'' then Inr ''{}'' else Inl (ErrExt ()))"

definition demo_read :: "bytes \<Rightarrow> bool \<Rightarrow> unit error + demo_struct" where
  "demo_read b strict = (if read_json True b = Some (JObject fmempty) then Inr (DConf None) else Inl (ErrExt ()))"

lemma demo_document: "read_json True ''{ }'' = Some (JObject fmempty)" "read_json True ''{}'' = Some (JObject fmempty)"
  by (simp_all add: read_json_def object_of_def trim_def is_space_def Let_def)

definition demo_full :: "(demo_struct, gnmi_path option list, demo_world, unit) client_env" where
  "demo_full = demo_env\<lparr>EmitGvk := demo_encoder, NewConfigStruct := demo_read\<rparr>"

lemma demo_keeps:
  assumes "dw_system w = Some (JsonVal ''{}'')" and "\<not> dw_down w"
  shows "worker_keeps demo_full (demo_with ''{ }'') w (demo_entry_of ''{}'')"
proof -
  let ?u = "\<lparr>u_Path = None, u_Val = Some (JsonVal ''{}'')\<rparr>"
  let ?n = "Some \<lparr>n_Timestamp = 0, n_Update = [Some ?u], n_Delete = []\<rparr>"
  let ?d = "demo_device\<lparr>sd_Gvk := fmupd ''gvk'' (Some (demo_entry_of ''{}'')) fmempty\<rparr>"
  show ?thesis
    unfolding worker_keeps_def demo_full_def
    using assms
    by (intro allI impI exI [of _ "\<lparr>rsp_Notification = [?n]\<rparr>"] exI [of _ ?n] exI [of _ "[]"]
          exI [of _ ?u] exI [of _ "GMap []"] exI [of _ "''{}''"] exI [of _ "DSys ?d"] exI [of _ ?d]
          exI [of _ "\<lparr>sc_Exhausted = Some 0\<rparr>"] exI [of _ w])
       (simp add: demo_get_def read_request_def demo_system_struct_def demo_device_def collect_def)
qed

definition demo_observation :: external_observation where
  "demo_observation = \<lparr>ob_Updates = None, ob_Deletes = None\<rparr>"

lemma demo_full_spec: "getSpec demo_full (demo_with ''{ }'') = Ok ''{}''"
  by (simp add: getSpec_def marshal_properties_def demo_with_def demo_full_def) code_simp

lemma demo_entry_built:
  "getGvkUpate demo_full (demo_with ''{ }'') demo_observation Action_CREATE =
     Ok [Some \<lparr>u_Path = Some (gvk_path ''gvk''), u_Val = Some (JsonVal ''{}'')\<rparr>]"
  using demo_full_spec
  by (simp add: getGvkUpate_def demo_full_def demo_encoder_def demo_entry_of_def demo_with_def
      demo_observation_def GetRootPaths_def demo_config_def)


end
