(* ===== verification/Client_Store.thy ===== *)
theory Client_Store
  imports Client_Runs System
begin

text \<open>
  The external client as a key-value store.  Several reconciles share one worker: their calls reach
  it in some order, and each call is one step.  What the worker holds is, abstractly, a map from a
  target and a cache entry name to the entry's JSON; the calls of the client refine updates of it.
\<close>

section \<open>Calls\<close>

datatype client_call =
    CallCreate managed external_observation
  | CallUpdate managed external_observation
  | CallDelete managed external_observation
  | CallGetSystemConfig managed
  | CallGetRunningConfig managed
  | CallClose

definition returned :: "('a, 'e) result \<times> 'w \<Rightarrow> bool \<times> 'w" where
  "returned r = (case fst r of Ok _ \<Rightarrow> True | _ \<Rightarrow> False, snd r)"

text \<open>A call: does it return without an error, and what does it leave?\<close>

primrec perform :: "('s, 'r, 'w, 'e, 'z) client_env_scheme \<Rightarrow> client_call \<Rightarrow> 'w \<Rightarrow> bool \<times> 'w" where
  "perform E (CallCreate mg obs) w = returned (Create E mg obs w)"
| "perform E (CallUpdate mg obs) w = returned (Update E mg obs w)"
| "perform E (CallDelete mg obs) w = returned (Delete E mg obs w)"
| "perform E (CallGetSystemConfig mg) w = returned (GetSystemConfig E mg w)"
| "perform E (CallGetRunningConfig mg) w = returned (GetRunningConfig E mg w)"
| "perform E CallClose w = (True, Close E w)"

primrec run_calls ::
  "('s, 'r, 'w, 'e, 'z) client_env_scheme \<Rightarrow> client_call list \<Rightarrow> 'w \<Rightarrow> bool list \<times> 'w" where
  "run_calls E [] w = ([], w)"
| "run_calls E (c # cs) w =
     (let (ok, w1) = perform E c w; (oks, w2) = run_calls E cs w1 in (ok # oks, w2))"

section \<open>The abstract store\<close>

type_synonym entry_key = "string \<times> string"  \<comment> \<open>target and name\<close>

definition resource_key :: "('s, 'r, 'w, 'e, 'z) client_env_scheme \<Rightarrow> managed \<Rightarrow> entry_key option" where
  "resource_key E mg = map_option
     (\<lambda>ref. (GetNamespacedName E (mg_Namespace mg) (ref_Name ref), GetGvkName E mg)) (mg_TargetReference mg)"

text \<open>What a write puts into the store; \<open>None\<close> for an entry that cannot be built.\<close>

definition entry_of ::
  "('s, 'r, 'w, 'e, 'z) client_env_scheme \<Rightarrow> managed \<Rightarrow> external_observation \<Rightarrow> resource_action \<Rightarrow>
     (entry_key \<times> string) option" where
  "entry_of E mg obs action =
     (case getGvkUpate E mg obs action of
        Ok [Some u] \<Rightarrow> (case u_Val u of
            Some (JsonVal js) \<Rightarrow> map_option (\<lambda>k. (k, js)) (resource_key E mg) | _ \<Rightarrow> None)
      | _ \<Rightarrow> None)"

primrec call_entry ::
  "('s, 'r, 'w, 'e, 'z) client_env_scheme \<Rightarrow> client_call \<Rightarrow> (entry_key \<times> string) option" where
  "call_entry E (CallCreate mg obs) = entry_of E mg obs Action_CREATE"
| "call_entry E (CallUpdate mg obs) = entry_of E mg obs Action_UPDATE"
| "call_entry E (CallDelete mg obs) = entry_of E mg obs Action_DELETE"
| "call_entry E (CallGetSystemConfig mg) = None"
| "call_entry E (CallGetRunningConfig mg) = None"
| "call_entry E CallClose = None"

definition put_entry :: "(entry_key \<times> string) option \<Rightarrow> (entry_key \<rightharpoonup> string) \<Rightarrow> (entry_key \<rightharpoonup> string)" where
  "put_entry kv st = (case kv of None \<Rightarrow> st | Some (k, js) \<Rightarrow> st(k \<mapsto> js))"

definition store_step ::
  "('s, 'r, 'w, 'e, 'z) client_env_scheme \<Rightarrow> client_call \<times> bool \<Rightarrow> (entry_key \<rightharpoonup> string) \<Rightarrow> (entry_key \<rightharpoonup> string)" where
  "store_step E cr st = (if snd cr then put_entry (call_entry E (fst cr)) st else st)"

text \<open>
  The worker, seen through \<open>entries\<close>: it replaces the entry it is asked to replace, unless it refuses
  and changes nothing; reading and closing change nothing.
\<close>

definition keeps_entries ::
  "('s, 'r, 'w, 'e, 'z) client_env_scheme \<Rightarrow> ('w \<Rightarrow> entry_key \<rightharpoonup> string) \<Rightarrow> bool" where
  "keeps_entries E entries \<longleftrightarrow>
     (\<forall>w target name js err w'. client_Set E w
        \<lparr>sr_Prefix = Some \<lparr>p_Origin = origin_System E, p_Elem = [], p_Target = target\<rparr>, sr_Delete = [],
         sr_Replace = [Some \<lparr>u_Path = Some (gvk_path name), u_Val = Some (JsonVal js)\<rparr>], sr_Update = []\<rparr> = (err, w') \<longrightarrow>
        entries w' = (if err = None then (entries w)((target, name) \<mapsto> js) else entries w)) \<and>
     (\<forall>w req. reads_tree E req \<longrightarrow> entries (snd (client_Get E w req)) = entries w) \<and>
     (\<forall>w. entries (client_Close E w) = entries w)"

section \<open>Each call refines its step\<close>

lemma write_refines:
  fixes E :: "('s, 'r, 'w, 'e, 'z) client_env_scheme"
  assumes "keeps_entries E entries" and "(put, action, msg) \<in> set (writes E)"
    and run: "returned (put mg obs w) = (ok, w')"
  shows "entries w' = (if ok then put_entry (entry_of E mg obs action) (entries w) else entries w) \<and>
    (ok \<longrightarrow> entry_of E mg obs action \<noteq> None)"
proof (cases "\<exists>ups ref. getGvkUpate E mg obs action = Ok ups \<and> mg_TargetReference mg = Some ref")
  case False
  then have "put mg obs w \<noteq> (Ok (), x)" "snd (put mg obs w) = w" for x
    using entry_writer.success_iff [OF writes_entry_writer [OF assms(2)]]
      entry_writer.at_most_one_request [OF writes_entry_writer [OF assms(2)], of mg obs w] by blast+
  then show ?thesis
    using run by (cases "put mg obs w") (auto simp: returned_def split: result.splits)
next
  case True
  then obtain ups ref where ups: "getGvkUpate E mg obs action = Ok ups" and ref: "mg_TargetReference mg = Some ref"
    by blast
  obtain js where form: "ups = [Some \<lparr>u_Path = Some (gvk_path (GetGvkName E mg)), u_Val = Some (JsonVal js)\<rparr>]"
    using ups by (rule getGvkUpate_run)
  obtain err w1 where sent: "client_Set E w (entry_request E mg ref ups) = (err, w1)" by fastforce
  have "entries w1 = (if err = None then (entries w)((GetNamespacedName E (mg_Namespace mg) (ref_Name ref),
      GetGvkName E mg) \<mapsto> js) else entries w)"
    using assms(1) sent unfolding keeps_entries_def entry_request_def form by blast
  moreover have "ok = (err = None)" "w' = w1"
    using run entry_writer.outcome [OF writes_entry_writer [OF assms(2)], of mg obs w] ups ref sent
    by (auto simp: returned_def send_entry_def split: option.splits)
  moreover have "entry_of E mg obs action = Some ((GetNamespacedName E (mg_Namespace mg) (ref_Name ref),
      GetGvkName E mg), js)"
    by (simp add: entry_of_def ups form resource_key_def ref)
  ultimately show ?thesis by (simp add: put_entry_def)
qed

lemma read_refines:
  assumes "keeps_entries E entries"
  shows "entries (snd (GetSystemConfig E mg w)) = entries w" "entries (snd (GetRunningConfig E mg w)) = entries w"
  using read_effect [OF system_reader.gnmi_reader_axioms, of E mg w]
    read_effect [OF config_reader.gnmi_reader_axioms, of E mg w] assms
  unfolding keeps_entries_def by auto

lemma perform_refines:
  assumes "keeps_entries E entries" "perform E c w = (ok, w')"
  shows "entries w' = store_step E (c, ok) (entries w)"
proof (cases c)
  case (CallCreate mg obs)
  then show ?thesis
    using write_refines [OF assms(1), of "Create E" Action_CREATE] assms(2) by (simp add: writes_def store_step_def)
next
  case (CallUpdate mg obs)
  then show ?thesis
    using write_refines [OF assms(1), of "Update E" Action_UPDATE] assms(2) by (simp add: writes_def store_step_def)
next
  case (CallDelete mg obs)
  then show ?thesis
    using write_refines [OF assms(1), of "Delete E" Action_DELETE] assms(2) by (simp add: writes_def store_step_def)
next
  case CallClose
  then show ?thesis using assms by (auto simp: keeps_entries_def store_step_def put_entry_def Close_def)
qed (use read_refines [OF assms(1)] assms(2) in \<open>auto simp: store_step_def put_entry_def returned_def\<close>)

lemma run_calls_length: "run_calls E cs w = (oks, w') \<Longrightarrow> length oks = length cs"
  by (induction cs arbitrary: w oks) (auto split: prod.splits)

lemma run_calls_refine:
  assumes "keeps_entries E entries" "run_calls E cs w = (oks, w')"
  shows "entries w' = fold (store_step E) (zip cs oks) (entries w)"
  using assms(2)
proof (induction cs arbitrary: w oks)
  case Nil
  then show ?case by simp
next
  case (Cons c cs)
  obtain ok w1 oks' where run: "perform E c w = (ok, w1)" "run_calls E cs w1 = (oks', w')" "oks = ok # oks'"
    using Cons.prems by (auto split: prod.splits)
  then show ?case using Cons.IH [OF run(2)] perform_refines [OF assms(1) run(1)] by simp
qed

lemma put_entry_other: "map_option fst kv \<noteq> Some k \<Longrightarrow> put_entry kv st k = st k"
  by (cases kv) (auto simp: put_entry_def)

lemma store_untouched:
  "(\<And>c. (c, True) \<in> set xs \<Longrightarrow> map_option fst (call_entry E c) \<noteq> Some k) \<Longrightarrow> fold (store_step E) xs st k = st k"
  by (induction xs arbitrary: st) (auto simp: store_step_def put_entry_other)

text \<open>
  C3. The client refines a key-value store: over a worker that replaces the entries it is asked to
  replace, any calls, on any resources, in any order and with any outcome, leave the worker with the
  entries that the successful writes put there, one after the other; everything else a call does is
  invisible.  In particular an entry that no successful write is for stays as it was, so resources do
  not disturb each other.
\<close>

theorem client_refines_store:
  assumes "keeps_entries E entries" "run_calls E cs w = (oks, w')"
  shows "entries w' = fold (store_step E) (zip cs oks) (entries w) \<and>
    (\<forall>k. (\<forall>c. (c, True) \<in> set (zip cs oks) \<longrightarrow> map_option fst (call_entry E c) \<noteq> Some k) \<longrightarrow>
       entries w' k = entries w k)"
  using run_calls_refine [OF assms] store_untouched by metis

section \<open>A write and its neighbours\<close>

text \<open>
  What the worker serves is what it keeps: while the JSON of an entry is in the store, reading the
  system tree gives that entry.
\<close>

definition serves_entries ::
  "('s, 'r, 'w, 'e, 'z) client_env_scheme \<Rightarrow> ('w \<Rightarrow> entry_key \<rightharpoonup> string) \<Rightarrow> managed \<Rightarrow> bool" where
  "serves_entries E entries mg \<longleftrightarrow> (\<forall>w k g js. resource_key E mg = Some k \<and> EmitGvk E g = Inr js \<and>
     entries w k = Some js \<longrightarrow> worker_keeps E mg w g)"

lemma entry_of_key: "entry_of E mg obs action = Some (k, js) \<Longrightarrow> resource_key E mg = Some k"
  by (auto simp: entry_of_def split: result.splits list.splits option.splits typed_value.splits)

text \<open>The resource a call writes for.\<close>

primrec written_for :: "('s, 'r, 'w, 'e, 'z) client_env_scheme \<Rightarrow> client_call \<Rightarrow> entry_key option" where
  "written_for E (CallCreate mg obs) = resource_key E mg"
| "written_for E (CallUpdate mg obs) = resource_key E mg"
| "written_for E (CallDelete mg obs) = resource_key E mg"
| "written_for E (CallGetSystemConfig mg) = None"
| "written_for E (CallGetRunningConfig mg) = None"
| "written_for E CallClose = None"

lemma call_entry_key: "map_option fst (call_entry E c) = Some k \<Longrightarrow> written_for E c = Some k"
  by (cases c) (auto dest: entry_of_key)


section \<open>An example\<close>

text \<open>A worker that is its store, with the schema functions of \<open>demo_full\<close>.\<close>

definition replaced_name :: "gnmi_path option \<Rightarrow> string" where
  "replaced_name p = (case GetElem p of e # _ \<Rightarrow> the (fmlookup (GetKey e) ''name'') | [] \<Rightarrow> [])"

definition store_set ::
  "(entry_key \<rightharpoonup> string) \<Rightarrow> set_request \<Rightarrow> unit error option \<times> (entry_key \<rightharpoonup> string)" where
  "store_set w req = (case (sr_Prefix req, sr_Replace req) of
      (Some p, [u]) \<Rightarrow> (case GetVal u of
          Some (JsonVal js) \<Rightarrow> (None, w((p_Target p, replaced_name (GetPath u)) \<mapsto> js))
        | _ \<Rightarrow> (Some (ErrExt ()), w))
    | _ \<Rightarrow> (Some (ErrExt ()), w))"

definition store_get ::
  "(entry_key \<rightharpoonup> string) \<Rightarrow> get_request \<Rightarrow> (get_response option \<times> unit error option) \<times> (entry_key \<rightharpoonup> string)" where
  "store_get w req = ((Some \<lparr>rsp_Notification = [Some \<lparr>n_Timestamp = 0, n_Update = [Some \<lparr>u_Path = None,
     u_Val = map_option JsonVal (Option.bind (gr_Prefix req) (\<lambda>p. w (p_Target p, ''gvk'')))\<rparr>], n_Delete = []\<rparr>]\<rparr>,
     None), w)"

definition demo_store_env :: "(demo_struct, gnmi_path option list, entry_key \<rightharpoonup> string, unit) client_env" where
  "demo_store_env = model_env.extend (model_env.truncate demo_full)
     (client_env.fields (\<lambda>ns n. ns @ CHR 0x2F # n) ''system'' ''config'' store_set store_get id
       (\<lambda>e. (Unavailable, True)) demo_system_struct (as_system_device demo_full))"

lemma demo_store_env_simps [simp]:
  "GetGvkName demo_store_env mg = ''gvk''" "EmitGvk demo_store_env = demo_encoder"
  "GetValue demo_store_env = demo_value" "client_Set demo_store_env = store_set"
  "client_Get demo_store_env = store_get" "client_Close demo_store_env w = w"
  "origin_System demo_store_env = ''system''" "GetNamespacedName demo_store_env ns n = ns @ CHR 0x2F # n"
  "SystemConfigStruct demo_store_env = demo_system_struct" "as_system_device demo_store_env (DSys d) = Some d"
  "NewConfigStruct demo_store_env = demo_read" "Diff demo_store_env = demo_diff"
  "RawMarshalJSON demo_store_env = RawMarshalJSON demo_full"
  by (simp_all add: demo_store_env_def model_env.defs client_env.defs gvk_env.defs demo_full_def)

lemma demo_store_keeps: "keeps_entries demo_store_env (\<lambda>w. w)"
  by (auto simp: keeps_entries_def store_set_def store_get_def replaced_name_def gvk_path_def empty_path_def)

text \<open>Two resources with the spec \<open>{ }\<close>, on the targets \<open>leaf1\<close> and \<open>leaf2\<close>.\<close>

definition demo_on :: "string \<Rightarrow> srl_config" where
  "demo_on target = demo_config\<lparr>cr_Spec := (cr_Spec demo_config)\<lparr>sp_Properties :=
     \<lparr>re_Raw = Some ''{ }'', re_Object = None\<rparr>, sp_TargetReference := Some \<lparr>ref_Name = target\<rparr>\<rparr>\<rparr>"

lemma demo_on_spec: "getSpec demo_store_env (ManagedSrl (demo_on t)) = Ok ''{}''"
  by (simp add: getSpec_def marshal_properties_def demo_full_def demo_on_def) code_simp

lemma demo_on_entry:
  "getGvkUpate demo_store_env (ManagedSrl (demo_on t)) demo_observation Action_CREATE =
     Ok [Some \<lparr>u_Path = Some (gvk_path ''gvk''), u_Val = Some (JsonVal ''{}'')\<rparr>]"
proof -
  have "GetRootPaths (demo_on t) = []" by (simp add: GetRootPaths_def demo_on_def demo_config_def)
  then show ?thesis
    by (simp add: getGvkUpate_def demo_on_spec demo_encoder_def demo_entry_of_def demo_observation_def)
qed

lemma demo_on_target: "GetTargetReference (demo_on t) = Some \<lparr>ref_Name = t\<rparr>" "cr_Namespace (demo_on t) = ''ndd-system''"
  by (simp_all add: demo_on_def GetTargetReference_def demo_config_def)

lemma demo_on_create:
  "Create demo_store_env (ManagedSrl (demo_on t)) demo_observation w =
     (Ok (), w((''ndd-system/'' @ t, ''gvk'') \<mapsto> ''{}''))"
  by (simp add: create.outcome demo_on_entry demo_on_target send_entry_def entry_request_def store_set_def
      replaced_name_def gvk_path_def empty_path_def)

definition demo_calls :: "client_call list" where
  "demo_calls = [CallCreate (ManagedSrl (demo_on ''leaf2'')) demo_observation,
     CallGetSystemConfig (ManagedSrl (demo_on ''leaf1'')), CallClose]"

theorem client_refines_store_witness:
  "\<exists>oks w'. run_calls demo_store_env demo_calls Map.empty = (oks, w') \<and>
     w' (''ndd-system/leaf2'', ''gvk'') = Some ''{}'' \<and> w' (''ndd-system/leaf1'', ''gvk'') = None"
proof -
  obtain oks w' where run: "run_calls demo_store_env demo_calls Map.empty = (True # oks, w')"
    and read: "length oks = 2"
    by (simp add: demo_calls_def demo_on_create returned_def split: prod.splits)
  have "call_entry demo_store_env (CallCreate (ManagedSrl (demo_on ''leaf2'')) demo_observation) =
      Some ((''ndd-system/leaf2'', ''gvk''), ''{}'')"
    by (simp add: entry_of_def demo_on_entry resource_key_def demo_on_target)
  moreover have "call_entry demo_store_env (CallGetSystemConfig (ManagedSrl (demo_on ''leaf1''))) = None"
    "call_entry demo_store_env CallClose = None" by simp_all
  ultimately have "fold (store_step demo_store_env) (zip demo_calls (True # oks)) Map.empty =
      [(''ndd-system/leaf2'', ''gvk'') \<mapsto> ''{}'']"
    using read by (auto simp: demo_calls_def store_step_def put_entry_def length_Suc_conv numeral_2_eq_2
        simp del: call_entry.simps)
  with client_refines_store [OF demo_store_keeps run] run show ?thesis by auto
qed

lemma demo_store_serves: "serves_entries demo_store_env (\<lambda>w. w) (ManagedSrl (demo_on t))"
proof -
  let ?mg = "ManagedSrl (demo_on t)"
  have "worker_keeps demo_store_env ?mg w g"
    if "EmitGvk demo_store_env g = Inr js" "w (''ndd-system/'' @ t, ''gvk'') = Some js" for w g js
  proof -
    have g: "g = demo_entry_of ''{}''" "js = ''{}''"
      using that(1) by (auto simp: demo_encoder_def split: if_splits)
    let ?u = "\<lparr>u_Path = None, u_Val = Some (JsonVal ''{}'')\<rparr>"
    let ?n = "Some \<lparr>n_Timestamp = 0, n_Update = [Some ?u], n_Delete = []\<rparr>"
    let ?d = "demo_device\<lparr>sd_Gvk := fmupd ''gvk'' (Some g) fmempty\<rparr>"
    have "client_Get demo_store_env w (read_request demo_store_env (origin_System demo_store_env) ?mg \<lparr>ref_Name = t\<rparr>) =
        ((Some \<lparr>rsp_Notification = [?n]\<rparr>, None), w)"
      using that(2) g by (simp add: store_get_def read_request_def demo_on_target)
    moreover have "demo_system_struct ''{}'' True = Inr (DSys ?d)"
      by (simp add: demo_system_struct_def g)
    ultimately show ?thesis
      unfolding worker_keeps_def
      by (intro allI impI exI [of _ "\<lparr>rsp_Notification = [?n]\<rparr>"] exI [of _ ?n] exI [of _ "[]"]
            exI [of _ ?u] exI [of _ "GMap []"] exI [of _ "''{}''"] exI [of _ "DSys ?d"] exI [of _ ?d]
            exI [of _ "\<lparr>sc_Exhausted = Some 0\<rparr>"] exI [of _ w])
         (auto simp: demo_on_target demo_device_def collect_def)
  qed
  then show ?thesis
    by (simp add: serves_entries_def resource_key_def demo_on_target)
qed


end
