(* ===== verification/Spec2Isabelle.thy ===== *)
theory Spec2Isabelle
  imports Prelude Gnmi Json Json_Compact Api Api_List Interfaces Webhook Watcher Externals Demo_Env
    Diff_Paths Diff_Bounds Gvk Json_Read Json_Value Json_Text Json_Space Validator Validator_Diff Convergence Device Connect Client_Runs Written
    Deep_Copy Models Registration Target Startup Process System Client_Store
begin

text \<open>
  Verification library of \<open>config-srl\<close>: the Nokia SR Linux configuration provider of ndd, written in
  Go.

  \<^bold>\<open>The program.\<close>  Two processes run it.  The reconciler (\<open>cmd/reconcilercmd\<close>) watches \<open>SrlConfig\<close>
  resources of the Kubernetes API and hands them to the managed reconciler of \<open>ndd-runtime\<close>, to which
  it gives a validator and a connector (\<open>internal/controllers/srl\<close>).  The worker (\<open>cmd/workercmd\<close>) keeps a
  cache of the system state and the running configuration of every device, serves it over gNMI, and
  talks to the devices (\<open>internal/target/srl\<close>).  For one resource a reconcile goes: \<open>Connect\<close> makes a
  client to the worker; \<open>GetSystemConfig\<close> reads the system cache, \<open>GetCrStatus\<close> and \<open>GetCrSpecDiff\<close>
  judge it; \<open>GetRunningConfig\<close> reads the device configuration, \<open>ValidateCrSpecUpdate\<close>,
  \<open>ValidateCrSpecDelete\<close> and \<open>GetCrActualDiff\<close> judge the spec against it; \<open>Create\<close>, \<open>Update\<close> or \<open>Delete\<close>
  then replaces the resource's entry in the system cache, from which the worker acts.

  \<^bold>\<open>Theories.\<close>
  \<^item> \<open>Prelude\<close>: outcomes of Go calls (value, error, panic), the two error constructors, loops with an
    early return, calls on an explicit world.  \<open>Gnmi\<close>: the gNMI messages as records, with the generated
    getters.  \<open>Json\<close>, \<open>Json_Compact\<close>: \<open>json.Marshal\<close> on the values of gNMI and on raw JSON.
  \<^item> \<open>Api\<close>, \<open>Api_List\<close>, \<open>Interfaces\<close>, \<open>Webhook\<close>: \<open>apis/srl/v1alpha1\<close> and \<open>pkg/intent/config\<close>.  Accessors are
    independent fields; \<open>GetItems\<close> aliases the list and \<open>GetConfigs\<close> copies it; the Go interfaces are
    tables of methods, with what a caller may rely on who only knows the interface; the webhooks admit what
    the schema accepts.  \<open>Deep_Copy\<close>: the generated \<open>DeepCopy\<close> functions on an explicit store; what they
    return reads the same and is isolated from the original.
  \<^item> \<open>Watcher\<close>: \<open>srlconfig_watcher.go\<close>, from watch events to requests in the queue.
  \<^item> \<open>Externals\<close>: everything \<open>internal/controllers/srl\<close> calls outside the repository, as records of
    functions; the entry of the system cache as data.  \<open>Demo_Env\<close>: a small concrete instance, in which
    the witnesses compute.
  \<^item> \<open>Diff_Paths\<close>: \<open>utils.go\<close>.  \<open>validateNotification\<close> changes paths and updates through shared
    pointers, so it is modelled on a heap and refined to a function on plain paths; \<open>Diff_Bounds\<close>
    bounds what it can change when entries are shared, and how often it can be repeated with an effect.
  \<^item> \<open>Validator\<close>, \<open>Validator_Diff\<close>: the methods of \<open>validatorDevice\<close> in \<open>srlconfig_controller.go\<close>.
    \<open>Convergence\<close>: an accepted spec that the device has taken over is not a difference any more.
  \<^item> \<open>Gvk\<close>, \<open>Device\<close>, \<open>Connect\<close>: \<open>utilsgvk.go\<close>, the methods of \<open>externalDevice\<close> and \<open>connector\<close>.
  \<^item> \<open>Client_Runs\<close>: all sequences of calls of an external client as a step relation on the worker, and
    what they can do to it.  \<open>Client_Store\<close>: the same calls as a refinement of a key-value store, so
    that resources do not disturb each other.  \<open>Json_Read\<close>, \<open>Json_Value\<close>: a reference reader
    of JSON, which reads back whatever is marshalled; \<open>Json_Text\<close>, \<open>Json_Space\<close>: how the reader uses its
    text, and that the compaction of raw JSON keeps the document.  \<open>Written\<close>: the way of a difference from
    the validator's report, and of the spec, into the entry that the worker accepts.
  \<^item> \<open>Registration\<close>: the \<open>Setup\<close> functions of \<open>internal/controllers\<close>, the webhook and the schemes of
    \<open>root.go\<close>: what is registered with controller-runtime and with which models, handlers and types.
  \<^item> \<open>Target\<close>: \<open>internal/target/srl/srl.go\<close>.
  \<^item> \<open>Models\<close>: the schema models of webhook, controller and worker.
  \<^item> \<open>Startup\<close>: the two \<open>start\<close> commands as sequences of library calls with the fate of each failure;
    \<open>Process\<close>: the commands, the initialisation and the exit status of the two processes.
  \<^item> \<open>System\<close>: the reconciler's requests against the worker's handlers, and a write followed by the
    reads of the next reconcile; resources of other kinds.

  \<^bold>\<open>Correspondence.\<close>  A definition has the name of the function it models; \<open>validatorDevice.GetRootPaths\<close>
  is \<open>ValidatorRootPaths\<close>, the event handlers are \<open>handle_Create\<close> and so on, and \<open>config.List\<close> is
  \<open>config_List\<close>.  Pointers, slices that may be nil and interfaces are options, maps finite maps, a
  panic is an outcome of its own.  A value passed by reference and changed is returned; only where
  references are shared (\<open>Diff_Paths\<close>, \<open>Api_List\<close>, \<open>Deep_Copy\<close>) is there a store.  Code outside the repository is a
  parameter; a theorem that needs something of it has that as a hypothesis and a witness in which it
  holds.  There is no fuel in the model: every loop of the code runs over a list.  The reference
  reader of JSON counts down from the length of its text and reads a character in every call.  The one iteration of the
  development, \<open>clean_up\<close>, counts its passes, and the elements of the paths bound how many are needed.

  \<^bold>\<open>Contracts.\<close>  Locales state what operations share and are interpreted on the model:
  \<open>device_operation\<close> (an operation that insists on an \<open>SrlConfig\<close>), \<open>spec_checker\<close> (a candidate
  configuration and its validation), \<open>entry_writer\<close> (the three writes), \<open>gnmi_reader\<close> (the two reads),
  \<open>device_query\<close> (the queries of a device), \<open>event_handler\<close>, \<open>accessor\<close>, \<open>config_object\<close> (the interface of a resource), \<open>diff_filter\<close>,
  \<open>spec_admission\<close> and \<open>start_sequence\<close>.

  \<^bold>\<open>Not modelled.\<close>  Logging and printed traces; contexts and time-outs; what the goroutine that serves
  profiles does after its start; what controller-runtime makes of a completed builder (a builder is the
  list of calls made on it); what the command line library makes of arguments; the worker's cache, gNMI and health handlers and target controllers, which
  are code of \<open>ndd-runtime\<close> and \<open>target\<close>; the reconcile loop itself, which belongs to \<open>ndd-runtime\<close>.
\<close>

end
